theory Spec2Isabelle
  imports Complex_Main "HOL-Library.AList" "HOL-Library.Multiset"
begin

section \<open>Numbers\<close>

text \<open>
  A JavaScript \<^verbatim>\<open>number\<close> is either a finite value or one of the three non-finite
  values. An operation on finite values gives the exact real result, unless that result
  lies outside the range of doubles: a result whose magnitude reaches
  \<open>2 ^ 1024 - 2 ^ 970\<close> is an infinity, as under rounding to nearest. Rounding of
  results inside the range is not represented, and zero is unsigned.
\<close>

datatype jsnum = Fin real | PosInf | NegInf | NaN

definition overflowThreshold :: real where
  "overflowThreshold = 2 ^ 1024 - 2 ^ 970"

definition toDouble :: "real \<Rightarrow> jsnum" where
  "toDouble r =
     (if overflowThreshold \<le> r then PosInf
      else if r \<le> - overflowThreshold then NegInf
      else Fin r)"

fun isFinite :: "jsnum \<Rightarrow> bool" where
  "isFinite (Fin r) = True"
| "isFinite PosInf = False"
| "isFinite NegInf = False"
| "isFinite NaN = False"

fun isNaN :: "jsnum \<Rightarrow> bool" where
  "isNaN NaN = True"
| "isNaN (Fin r) = False"
| "isNaN PosInf = False"
| "isNaN NegInf = False"

text \<open>The finite value of a number; only read where validation has established finiteness.\<close>

fun toReal :: "jsnum \<Rightarrow> real" where
  "toReal (Fin r) = r"
| "toReal PosInf = 0"
| "toReal NegInf = 0"
| "toReal NaN = 0"

fun js_neg :: "jsnum \<Rightarrow> jsnum" where
  "js_neg (Fin r) = Fin (- r)"
| "js_neg PosInf = NegInf"
| "js_neg NegInf = PosInf"
| "js_neg NaN = NaN"

fun js_add :: "jsnum \<Rightarrow> jsnum \<Rightarrow> jsnum" where
  "js_add NaN b = NaN"
| "js_add a NaN = NaN"
| "js_add (Fin a) (Fin b) = toDouble (a + b)"
| "js_add PosInf NegInf = NaN"
| "js_add NegInf PosInf = NaN"
| "js_add PosInf b = PosInf"
| "js_add NegInf b = NegInf"
| "js_add (Fin a) b = b"

definition js_sub :: "jsnum \<Rightarrow> jsnum \<Rightarrow> jsnum" where
  "js_sub a b = js_add a (js_neg b)"

fun js_abs :: "jsnum \<Rightarrow> jsnum" where
  "js_abs (Fin r) = Fin \<bar>r\<bar>"
| "js_abs PosInf = PosInf"
| "js_abs NegInf = PosInf"
| "js_abs NaN = NaN"

text \<open>The comparison \<^verbatim>\<open>a < b\<close>: false whenever an operand is NaN.\<close>

fun js_lt :: "jsnum \<Rightarrow> jsnum \<Rightarrow> bool" where
  "js_lt NaN b = False"
| "js_lt a NaN = False"
| "js_lt (Fin a) (Fin b) = (a < b)"
| "js_lt a NegInf = False"
| "js_lt PosInf b = False"
| "js_lt NegInf b = True"
| "js_lt (Fin a) PosInf = True"

definition js_gt :: "jsnum \<Rightarrow> jsnum \<Rightarrow> bool" where
  "js_gt a b = js_lt b a"

text \<open>\<^verbatim>\<open>Math.max(a, b)\<close>: NaN when an operand is NaN.\<close>

definition js_max :: "jsnum \<Rightarrow> jsnum \<Rightarrow> jsnum" where
  "js_max a b = (if isNaN a \<or> isNaN b then NaN else if js_lt a b then b else a)"

text \<open>The quotient \<^verbatim>\<open>a / b\<close>.\<close>

fun js_div :: "jsnum \<Rightarrow> jsnum \<Rightarrow> jsnum" where
  "js_div NaN b = NaN"
| "js_div a NaN = NaN"
| "js_div (Fin a) (Fin b) =
     (if b \<noteq> 0 then toDouble (a / b)
      else if a = 0 then NaN else if 0 < a then PosInf else NegInf)"
| "js_div (Fin a) PosInf = Fin 0"
| "js_div (Fin a) NegInf = Fin 0"
| "js_div PosInf (Fin b) = (if 0 \<le> b then PosInf else NegInf)"
| "js_div NegInf (Fin b) = (if 0 \<le> b then NegInf else PosInf)"
| "js_div PosInf b = NaN"
| "js_div NegInf b = NaN"

text \<open>The product \<^verbatim>\<open>a * b\<close>.\<close>

fun js_mul :: "jsnum \<Rightarrow> jsnum \<Rightarrow> jsnum" where
  "js_mul NaN b = NaN"
| "js_mul a NaN = NaN"
| "js_mul (Fin a) (Fin b) = toDouble (a * b)"
| "js_mul (Fin a) PosInf = (if a = 0 then NaN else if 0 < a then PosInf else NegInf)"
| "js_mul (Fin a) NegInf = (if a = 0 then NaN else if 0 < a then NegInf else PosInf)"
| "js_mul PosInf (Fin b) = (if b = 0 then NaN else if 0 < b then PosInf else NegInf)"
| "js_mul NegInf (Fin b) = (if b = 0 then NaN else if 0 < b then NegInf else PosInf)"
| "js_mul PosInf PosInf = PosInf"
| "js_mul PosInf NegInf = NegInf"
| "js_mul NegInf PosInf = NegInf"
| "js_mul NegInf NegInf = PosInf"

text \<open>\<^verbatim>\<open>Math.sqrt(a)\<close>: NaN on a negative number.\<close>

fun js_sqrt :: "jsnum \<Rightarrow> jsnum" where
  "js_sqrt (Fin r) = (if r < 0 then NaN else Fin (sqrt r))"
| "js_sqrt PosInf = PosInf"
| "js_sqrt NegInf = NaN"
| "js_sqrt NaN = NaN"

text \<open>The comparisons \<^verbatim>\<open>a === b\<close> and \<^verbatim>\<open>a >= b\<close>: false whenever an operand is NaN.\<close>

fun js_eq :: "jsnum \<Rightarrow> jsnum \<Rightarrow> bool" where
  "js_eq (Fin a) (Fin b) = (a = b)"
| "js_eq PosInf PosInf = True"
| "js_eq NegInf NegInf = True"
| "js_eq a b = False"

definition js_ge :: "jsnum \<Rightarrow> jsnum \<Rightarrow> bool" where
  "js_ge a b = (js_lt b a \<or> js_eq a b)"

text \<open>\<^verbatim>\<open>Math.min(a, b)\<close>: NaN when an operand is NaN.\<close>

definition js_min :: "jsnum \<Rightarrow> jsnum \<Rightarrow> jsnum" where
  "js_min a b = (if isNaN a \<or> isNaN b then NaN else if js_lt b a then b else a)"

section \<open>Arrays and Maps\<close>

text \<open>
  \<^verbatim>\<open>Array.prototype.sort(cmp)\<close> is a stable sort: an element moves in front of another
  only when the comparator is positive on them. For a consistent comparator every stable
  sort gives the same list, here the one of insertion from the right.
\<close>

fun js_insert :: "('a \<Rightarrow> 'a \<Rightarrow> real) \<Rightarrow> 'a \<Rightarrow> 'a list \<Rightarrow> 'a list" where
  "js_insert cmp x [] = [x]"
| "js_insert cmp x (y # ys) =
     (if cmp x y \<le> 0 then x # y # ys else y # js_insert cmp x ys)"

definition js_sort :: "('a \<Rightarrow> 'a \<Rightarrow> real) \<Rightarrow> 'a list \<Rightarrow> 'a list" where
  "js_sort cmp xs = foldr (js_insert cmp) xs []"

text \<open>
  The same sort for a comparator whose result is a double: the sort reads a NaN result
  as \<open>+0\<close>, so that the two elements count as equal and keep their order.
\<close>

fun notPositive :: "jsnum \<Rightarrow> bool" where
  "notPositive (Fin r) = (r \<le> 0)"
| "notPositive PosInf = False"
| "notPositive NegInf = True"
| "notPositive NaN = True"

fun js_insertD :: "('a \<Rightarrow> 'a \<Rightarrow> jsnum) \<Rightarrow> 'a \<Rightarrow> 'a list \<Rightarrow> 'a list" where
  "js_insertD cmp x [] = [x]"
| "js_insertD cmp x (y # ys) =
     (if notPositive (cmp x y) then x # y # ys else y # js_insertD cmp x ys)"

definition js_sortD :: "('a \<Rightarrow> 'a \<Rightarrow> jsnum) \<Rightarrow> 'a list \<Rightarrow> 'a list" where
  "js_sortD cmp xs = foldr (js_insertD cmp) xs []"

text \<open>\<^verbatim>\<open>xs.indexOf(v)\<close>: the first position holding \<open>v\<close>, or \<open>-1\<close>.\<close>

fun indexOfFrom :: "nat \<Rightarrow> real list \<Rightarrow> real \<Rightarrow> int" where
  "indexOfFrom k [] v = - 1"
| "indexOfFrom k (x # xs) v = (if x = v then int k else indexOfFrom (Suc k) xs v)"

definition indexOf :: "real list \<Rightarrow> real \<Rightarrow> int" where
  "indexOf xs v = indexOfFrom 0 xs v"

text \<open>\<^verbatim>\<open>indexOf\<close> on an array of doubles compares with \<^verbatim>\<open>===\<close>.\<close>

fun indexOfFromD :: "nat \<Rightarrow> jsnum list \<Rightarrow> jsnum \<Rightarrow> int" where
  "indexOfFromD k [] v = - 1"
| "indexOfFromD k (x # xs) v = (if js_eq x v then int k else indexOfFromD (Suc k) xs v)"

definition indexOfD :: "jsnum list \<Rightarrow> jsnum \<Rightarrow> int" where
  "indexOfD xs v = indexOfFromD 0 xs v"

text \<open>\<^verbatim>\<open>Math.max(...xs)\<close> and \<^verbatim>\<open>Math.min(...xs)\<close> of a non-empty array of finite numbers.
  (On an empty array JavaScript gives an infinity; the engine spreads one value per
  option and has at least two options.)\<close>

fun Math_max :: "real list \<Rightarrow> real" where
  "Math_max [] = 0"
| "Math_max (x # xs) = fold max xs x"

fun Math_min :: "real list \<Rightarrow> real" where
  "Math_min [] = 0"
| "Math_min (x # xs) = fold min xs x"

text \<open>\<^verbatim>\<open>Math.max(...xs)\<close> and \<^verbatim>\<open>Math.min(...xs)\<close> of an array of doubles.\<close>

definition Math_maxD :: "jsnum list \<Rightarrow> jsnum" where
  "Math_maxD xs = fold (\<lambda>x acc. js_max acc x) xs NegInf"

definition Math_minD :: "jsnum list \<Rightarrow> jsnum" where
  "Math_minD xs = fold (\<lambda>x acc. js_min acc x) xs PosInf"

text \<open>
  A \<^verbatim>\<open>Map\<close> that the code builds or iterates is an association list in insertion order:
  \<^verbatim>\<open>get\<close> is \<^const>\<open>map_of\<close>, \<^verbatim>\<open>set\<close> is \<^const>\<open>AList.update\<close> (an existing key keeps its
  position), \<^verbatim>\<open>values()\<close> is \<open>map snd\<close> and \<^verbatim>\<open>size\<close> is \<^const>\<open>length\<close>.
\<close>

type_synonym ('k, 'v) Map = "('k \<times> 'v) list"

section \<open>Core types\<close>

datatype ErrorCode =
    INSUFFICIENT_OPTIONS | NO_CONSTRAINTS | MISSING_SCORE | INVALID_SCORE | INVALID_WEIGHT
  | CALCULATION_ERROR | INVALID_SCORING_RESULT | MISSING_SCORING_DATA | ANALYSIS_ERROR

text \<open>A \<^verbatim>\<open>ValidationError\<close> is represented by its \<^verbatim>\<open>code\<close>; the \<^verbatim>\<open>field\<close> and
  \<^verbatim>\<open>message\<close> texts are not modelled.\<close>

record ValidationResult =
  isValid :: bool
  errors :: "ErrorCode list"
  warnings :: "string list"

text \<open>An \<^verbatim>\<open>Option\<close>; its \<^verbatim>\<open>scores\<close> Map is only read with \<^verbatim>\<open>has\<close> and \<^verbatim>\<open>get\<close>.\<close>

record OptionRec =
  option_id :: string
  option_name :: string
  scores :: "string \<rightharpoonup> jsnum"

datatype ConstraintDirection = maximize | minimize

record Constraint =
  constraint_id :: string
  constraint_name :: string
  weight :: jsnum
  direction :: ConstraintDirection

record ScoringMethodology =
  normalizationMethod :: string
  weightingApproach :: string
  distanceMetric :: string
  idealSolutionMethod :: string

record OptionRanking =
  option :: OptionRec
  rank :: real
  closenessScore :: real
  strengthAreas :: "string list"
  weaknessAreas :: "string list"

record ScoringResult =
  rankings :: "OptionRanking list"
  normalizedScores :: "(string, (string, real) Map) Map"
  weightedScores :: "(string, (string, real) Map) Map"
  closenessScores :: "(string, real) Map"
  idealSolution :: "real list"
  negativeIdealSolution :: "real list"
  scoringMethodology :: ScoringMethodology

section \<open>TOPSISEngine\<close>

definition buildDecisionMatrix :: "OptionRec list \<Rightarrow> Constraint list \<Rightarrow> real list list" where
  "buildDecisionMatrix options constraints =
     map (\<lambda>opt. map (\<lambda>constraint.
            toReal (case scores opt (constraint_id constraint) of None \<Rightarrow> Fin 0 | Some s \<Rightarrow> s))
          constraints) options"

text \<open>The matrices of the engine hold one row per option and, in every row, one entry
  per constraint; entries are read by index as in the source.\<close>

definition columnSumSquares :: "real list list \<Rightarrow> nat \<Rightarrow> real" where
  "columnSumSquares decisionMatrix j =
     sum_list (map (\<lambda>i. (decisionMatrix ! i ! j) * (decisionMatrix ! i ! j))
                   [0..<length decisionMatrix])"

definition normalizeMatrix :: "real list list \<Rightarrow> Constraint list \<Rightarrow> real list list" where
  "normalizeMatrix decisionMatrix constraints =
     map (\<lambda>i. map (\<lambda>j.
            let originalValue = decisionMatrix ! i ! j;
                sumSquares = columnSumSquares decisionMatrix j
            in if sumSquares > 0 then originalValue / sqrt sumSquares else 0)
          [0..<length constraints]) [0..<length decisionMatrix]"

definition applyWeights :: "real list list \<Rightarrow> Constraint list \<Rightarrow> real list list" where
  "applyWeights normalizedMatrix constraints =
     map (\<lambda>i. map (\<lambda>j.
            let normalizedValue = normalizedMatrix ! i ! j;
                w = toReal (weight (constraints ! j)) / 100
            in normalizedValue * w)
          [0..<length constraints]) [0..<length normalizedMatrix]"

definition calculateIdealSolutions ::
  "real list list \<Rightarrow> Constraint list \<Rightarrow> real list \<times> real list" where
  "calculateIdealSolutions weightedMatrix constraints =
     (map (\<lambda>j. let columnValues = map (\<lambda>row. row ! j) weightedMatrix
               in if direction (constraints ! j) = maximize
                  then Math_max columnValues else Math_min columnValues)
          [0..<length constraints],
      map (\<lambda>j. let columnValues = map (\<lambda>row. row ! j) weightedMatrix
               in if direction (constraints ! j) = maximize
                  then Math_min columnValues else Math_max columnValues)
          [0..<length constraints])"

definition distanceTo :: "real list \<Rightarrow> real list \<Rightarrow> real" where
  "distanceTo row point =
     sqrt (sum_list (map (\<lambda>j. (row ! j - point ! j) * (row ! j - point ! j))
                         [0..<length row]))"

definition calculateDistances ::
  "real list list \<Rightarrow> real list \<Rightarrow> real list \<Rightarrow> real list \<times> real list" where
  "calculateDistances weightedMatrix ideal negativeIdeal =
     (map (\<lambda>row. distanceTo row ideal) weightedMatrix,
      map (\<lambda>row. distanceTo row negativeIdeal) weightedMatrix)"

definition calculateClosenessScores :: "real list \<Rightarrow> real list \<Rightarrow> real list" where
  "calculateClosenessScores positiveDistances negativeDistances =
     map (\<lambda>i. let positiveDistance = positiveDistances ! i;
                   negativeDistance = negativeDistances ! i;
                   totalDistance = positiveDistance + negativeDistance
               in if totalDistance = 0 then 1 else negativeDistance / totalDistance)
         [0..<length positiveDistances]"

text \<open>The percentile of the engine's tags: position of the first equal value in the
  ascending column, counted from one, over the column length.\<close>

definition enginePercentile :: "nat \<Rightarrow> real list list \<Rightarrow> nat \<Rightarrow> real" where
  "enginePercentile optionIndex weightedMatrix j =
     (let optionValue = weightedMatrix ! optionIndex ! j;
          columnValues = map (\<lambda>row. row ! j) weightedMatrix;
          sortedValues = js_sort (\<lambda>a b. a - b) columnValues
      in (real_of_int (indexOf sortedValues optionValue) + 1) / real (length sortedValues))"

definition TOPSIS_identifyStrengths ::
  "nat \<Rightarrow> real list list \<Rightarrow> Constraint list \<Rightarrow> string list" where
  "TOPSIS_identifyStrengths optionIndex weightedMatrix constraints =
     concat (map (\<lambda>j.
        let constraint = constraints ! j;
            percentileRank = enginePercentile optionIndex weightedMatrix j
        in if direction constraint = maximize \<and> percentileRank \<ge> 0.75
           then [constraint_name constraint]
           else if direction constraint = minimize \<and> percentileRank \<le> 0.25
           then [constraint_name constraint]
           else [])
       [0..<length constraints])"

definition TOPSIS_identifyWeaknesses ::
  "nat \<Rightarrow> real list list \<Rightarrow> Constraint list \<Rightarrow> string list" where
  "TOPSIS_identifyWeaknesses optionIndex weightedMatrix constraints =
     concat (map (\<lambda>j.
        let constraint = constraints ! j;
            percentileRank = enginePercentile optionIndex weightedMatrix j
        in if direction constraint = maximize \<and> percentileRank \<le> 0.25
           then [constraint_name constraint]
           else if direction constraint = minimize \<and> percentileRank \<ge> 0.75
           then [constraint_name constraint]
           else [])
       [0..<length constraints])"

text \<open>An element of \<^verbatim>\<open>indexedRankings\<close>: the option, its index and its closeness score.\<close>

type_synonym IndexedRanking = "OptionRec \<times> nat \<times> real"

definition indexedRankings :: "OptionRec list \<Rightarrow> real list \<Rightarrow> IndexedRanking list" where
  "indexedRankings options closeness =
     map (\<lambda>(index, opt). (opt, index, closeness ! index)) (enumerate 0 options)"

definition generateRankings ::
  "OptionRec list \<Rightarrow> real list \<Rightarrow> real list list \<Rightarrow> Constraint list \<Rightarrow> OptionRanking list" where
  "generateRankings options closeness weightedMatrix constraints =
     (let sorted = js_sort (\<lambda>a b. snd (snd b) - snd (snd a))
                     (indexedRankings options closeness)
      in map (\<lambda>(rank, item).
               \<lparr> option = fst item,
                 rank = real rank + 1,
                 closenessScore = snd (snd item),
                 strengthAreas = TOPSIS_identifyStrengths (fst (snd item)) weightedMatrix constraints,
                 weaknessAreas = TOPSIS_identifyWeaknesses (fst (snd item)) weightedMatrix constraints \<rparr>)
             (enumerate 0 sorted))"

definition buildScoreMap ::
  "OptionRec list \<Rightarrow> Constraint list \<Rightarrow> real list list \<Rightarrow> (string, (string, real) Map) Map" where
  "buildScoreMap options constraints matrix =
     fold (\<lambda>i scoreMap.
            AList.update (option_id (options ! i))
              (fold (\<lambda>j constraintScores.
                       AList.update (constraint_id (constraints ! j)) (matrix ! i ! j) constraintScores)
                    [0..<length constraints] [])
              scoreMap)
          [0..<length options] []"

text \<open>The sum of the weights, \<^verbatim>\<open>constraints.reduce((sum, c) => sum + c.weight, 0)\<close>.\<close>

definition totalWeight :: "Constraint list \<Rightarrow> jsnum" where
  "totalWeight constraints = fold (\<lambda>c sum. js_add sum (weight c)) constraints (Fin 0)"

text \<open>The loop over options and constraints that checks the scores, and the loop over
  constraints that checks the weights; each gives the errors it pushes, in order.\<close>

definition scoreErrors :: "OptionRec list \<Rightarrow> Constraint list \<Rightarrow> ErrorCode list" where
  "scoreErrors options constraints =
     concat (map (\<lambda>opt. concat (map (\<lambda>constraint.
        case scores opt (constraint_id constraint) of
          None \<Rightarrow> [MISSING_SCORE]
        | Some s \<Rightarrow> if \<not> isFinite s \<or> isNaN s then [INVALID_SCORE] else [])
       constraints)) options)"

definition weightErrors :: "Constraint list \<Rightarrow> ErrorCode list" where
  "weightErrors constraints =
     concat (map (\<lambda>constraint.
        if \<not> isFinite (weight constraint) \<or> isNaN (weight constraint)
        then [INVALID_WEIGHT] else []) constraints)"

definition TOPSIS_validateInputs :: "OptionRec list \<Rightarrow> Constraint list \<Rightarrow> ValidationResult" where
  "TOPSIS_validateInputs options constraints =
     (let errors1 = (if length options < 2 then [INSUFFICIENT_OPTIONS] else []);
          errors2 = (if length constraints = 0 then [NO_CONSTRAINTS] else []);
          errors3 = (if length options > 0 \<and> length constraints > 0
                     then scoreErrors options constraints else []);
          warnings1 =
            (if length constraints > 0 \<and>
                js_gt (js_abs (js_sub (totalWeight constraints) (Fin 100))) (Fin 0.01)
             then [''Constraint weights do not sum to 100%''] else []);
          errors4 = (if length constraints > 0 then weightErrors constraints else []);
          errs = errors1 @ errors2 @ errors3 @ errors4
      in \<lparr> isValid = (length errs = 0), errors = errs, warnings = warnings1 \<rparr>)"

text \<open>
  The methodology held by the engine object is the parameter \<open>methodology\<close>. The
  \<^verbatim>\<open>catch\<close> branch (\<^verbatim>\<open>CALCULATION_ERROR\<close>) is not reached: none of the steps throws.
\<close>

definition calculateScores ::
  "ScoringMethodology \<Rightarrow> OptionRec list \<Rightarrow> Constraint list \<Rightarrow> ErrorCode + ScoringResult" where
  "calculateScores methodology options constraints =
     (let validation = TOPSIS_validateInputs options constraints in
      if \<not> isValid validation then Inl (hd (errors validation))
      else
        let decisionMatrix = buildDecisionMatrix options constraints;
            normalizedMatrix = normalizeMatrix decisionMatrix constraints;
            weightedMatrix = applyWeights normalizedMatrix constraints;
            (ideal, negativeIdeal) = calculateIdealSolutions weightedMatrix constraints;
            (positiveDistances, negativeDistances) =
               calculateDistances weightedMatrix ideal negativeIdeal;
            closeness = calculateClosenessScores positiveDistances negativeDistances;
            rankings = generateRankings options closeness weightedMatrix constraints
        in Inr \<lparr> rankings = rankings,
                 normalizedScores = buildScoreMap options constraints normalizedMatrix,
                 weightedScores = buildScoreMap options constraints weightedMatrix,
                 closenessScores =
                   fold (\<lambda>(index, opt) m. AList.update (option_id opt) (closeness ! index) m)
                        (enumerate 0 options) [],
                 idealSolution = ideal,
                 negativeIdealSolution = negativeIdeal,
                 scoringMethodology = methodology \<rparr>)"

section \<open>TOPSISEngine on doubles\<close>

text \<open>
  The definitions of the previous section take the scores and weights that validation has
  found finite as reals and compute exactly. The definitions of this section follow the
  same source functions with every number a double: a result can overflow to an infinity,
  and an infinity can turn into NaN. They share \<open>TOPSIS_validateInputs\<close>.
\<close>

definition buildDecisionMatrixD :: "OptionRec list \<Rightarrow> Constraint list \<Rightarrow> jsnum list list" where
  "buildDecisionMatrixD options constraints =
     map (\<lambda>opt. map (\<lambda>constraint.
            case scores opt (constraint_id constraint) of None \<Rightarrow> Fin 0 | Some s \<Rightarrow> s)
          constraints) options"

definition columnSumSquaresD :: "jsnum list list \<Rightarrow> nat \<Rightarrow> jsnum" where
  "columnSumSquaresD decisionMatrix j =
     fold (\<lambda>i acc. js_add acc (js_mul (decisionMatrix ! i ! j) (decisionMatrix ! i ! j)))
          [0..<length decisionMatrix] (Fin 0)"

definition normalizeMatrixD :: "jsnum list list \<Rightarrow> Constraint list \<Rightarrow> jsnum list list" where
  "normalizeMatrixD decisionMatrix constraints =
     map (\<lambda>i. map (\<lambda>j.
            let originalValue = decisionMatrix ! i ! j;
                sumSquares = columnSumSquaresD decisionMatrix j
            in if js_gt sumSquares (Fin 0) then js_div originalValue (js_sqrt sumSquares)
               else Fin 0)
          [0..<length constraints]) [0..<length decisionMatrix]"

definition applyWeightsD :: "jsnum list list \<Rightarrow> Constraint list \<Rightarrow> jsnum list list" where
  "applyWeightsD normalizedMatrix constraints =
     map (\<lambda>i. map (\<lambda>j.
            let normalizedValue = normalizedMatrix ! i ! j;
                w = js_div (weight (constraints ! j)) (Fin 100)
            in js_mul normalizedValue w)
          [0..<length constraints]) [0..<length normalizedMatrix]"

definition calculateIdealSolutionsD ::
  "jsnum list list \<Rightarrow> Constraint list \<Rightarrow> jsnum list \<times> jsnum list" where
  "calculateIdealSolutionsD weightedMatrix constraints =
     (map (\<lambda>j. let columnValues = map (\<lambda>row. row ! j) weightedMatrix
               in if direction (constraints ! j) = maximize
                  then Math_maxD columnValues else Math_minD columnValues)
          [0..<length constraints],
      map (\<lambda>j. let columnValues = map (\<lambda>row. row ! j) weightedMatrix
               in if direction (constraints ! j) = maximize
                  then Math_minD columnValues else Math_maxD columnValues)
          [0..<length constraints])"

definition distanceToD :: "jsnum list \<Rightarrow> jsnum list \<Rightarrow> jsnum" where
  "distanceToD row point =
     js_sqrt (fold (\<lambda>j acc. let diff = js_sub (row ! j) (point ! j)
                            in js_add acc (js_mul diff diff))
                   [0..<length row] (Fin 0))"

definition calculateDistancesD ::
  "jsnum list list \<Rightarrow> jsnum list \<Rightarrow> jsnum list \<Rightarrow> jsnum list \<times> jsnum list" where
  "calculateDistancesD weightedMatrix ideal negativeIdeal =
     (map (\<lambda>row. distanceToD row ideal) weightedMatrix,
      map (\<lambda>row. distanceToD row negativeIdeal) weightedMatrix)"

definition closenessD :: "jsnum \<Rightarrow> jsnum \<Rightarrow> jsnum" where
  "closenessD positiveDistance negativeDistance =
     (let totalDistance = js_add positiveDistance negativeDistance
      in if js_eq totalDistance (Fin 0) then Fin 1
         else js_div negativeDistance totalDistance)"

definition calculateClosenessScoresD :: "jsnum list \<Rightarrow> jsnum list \<Rightarrow> jsnum list" where
  "calculateClosenessScoresD positiveDistances negativeDistances =
     map (\<lambda>i. closenessD (positiveDistances ! i) (negativeDistances ! i))
         [0..<length positiveDistances]"

definition enginePercentileD :: "nat \<Rightarrow> jsnum list list \<Rightarrow> nat \<Rightarrow> real" where
  "enginePercentileD optionIndex weightedMatrix j =
     (let optionValue = weightedMatrix ! optionIndex ! j;
          columnValues = map (\<lambda>row. row ! j) weightedMatrix;
          sortedValues = js_sortD (\<lambda>a b. js_sub a b) columnValues
      in (real_of_int (indexOfD sortedValues optionValue) + 1) / real (length sortedValues))"

definition TOPSIS_identifyStrengthsD ::
  "nat \<Rightarrow> jsnum list list \<Rightarrow> Constraint list \<Rightarrow> string list" where
  "TOPSIS_identifyStrengthsD optionIndex weightedMatrix constraints =
     concat (map (\<lambda>j.
        let constraint = constraints ! j;
            percentileRank = enginePercentileD optionIndex weightedMatrix j
        in if direction constraint = maximize \<and> percentileRank \<ge> 0.75
           then [constraint_name constraint]
           else if direction constraint = minimize \<and> percentileRank \<le> 0.25
           then [constraint_name constraint]
           else [])
       [0..<length constraints])"

definition TOPSIS_identifyWeaknessesD ::
  "nat \<Rightarrow> jsnum list list \<Rightarrow> Constraint list \<Rightarrow> string list" where
  "TOPSIS_identifyWeaknessesD optionIndex weightedMatrix constraints =
     concat (map (\<lambda>j.
        let constraint = constraints ! j;
            percentileRank = enginePercentileD optionIndex weightedMatrix j
        in if direction constraint = maximize \<and> percentileRank \<le> 0.25
           then [constraint_name constraint]
           else if direction constraint = minimize \<and> percentileRank \<ge> 0.75
           then [constraint_name constraint]
           else [])
       [0..<length constraints])"

record OptionRankingD =
  optionD :: OptionRec
  rankD :: real
  closenessScoreD :: jsnum
  strengthAreasD :: "string list"
  weaknessAreasD :: "string list"

record ScoringResultD =
  rankingsD :: "OptionRankingD list"
  normalizedScoresD :: "(string, (string, jsnum) Map) Map"
  weightedScoresD :: "(string, (string, jsnum) Map) Map"
  closenessScoresD :: "(string, jsnum) Map"
  idealSolutionD :: "jsnum list"
  negativeIdealSolutionD :: "jsnum list"
  scoringMethodologyD :: ScoringMethodology

type_synonym IndexedRankingD = "OptionRec \<times> nat \<times> jsnum"

definition indexedRankingsD :: "OptionRec list \<Rightarrow> jsnum list \<Rightarrow> IndexedRankingD list" where
  "indexedRankingsD options closeness =
     map (\<lambda>(index, opt). (opt, index, closeness ! index)) (enumerate 0 options)"

definition generateRankingsD ::
  "OptionRec list \<Rightarrow> jsnum list \<Rightarrow> jsnum list list \<Rightarrow> Constraint list \<Rightarrow> OptionRankingD list" where
  "generateRankingsD options closeness weightedMatrix constraints =
     (let sorted = js_sortD (\<lambda>a b. js_sub (snd (snd b)) (snd (snd a)))
                     (indexedRankingsD options closeness)
      in map (\<lambda>(rank, item).
               \<lparr> optionD = fst item,
                 rankD = real rank + 1,
                 closenessScoreD = snd (snd item),
                 strengthAreasD =
                   TOPSIS_identifyStrengthsD (fst (snd item)) weightedMatrix constraints,
                 weaknessAreasD =
                   TOPSIS_identifyWeaknessesD (fst (snd item)) weightedMatrix constraints \<rparr>)
             (enumerate 0 sorted))"

definition buildScoreMapD ::
  "OptionRec list \<Rightarrow> Constraint list \<Rightarrow> jsnum list list \<Rightarrow> (string, (string, jsnum) Map) Map" where
  "buildScoreMapD options constraints matrix =
     fold (\<lambda>i scoreMap.
            AList.update (option_id (options ! i))
              (fold (\<lambda>j constraintScores.
                       AList.update (constraint_id (constraints ! j)) (matrix ! i ! j) constraintScores)
                    [0..<length constraints] [])
              scoreMap)
          [0..<length options] []"

definition calculateScoresD ::
  "ScoringMethodology \<Rightarrow> OptionRec list \<Rightarrow> Constraint list \<Rightarrow> ErrorCode + ScoringResultD" where
  "calculateScoresD methodology options constraints =
     (let validation = TOPSIS_validateInputs options constraints in
      if \<not> isValid validation then Inl (hd (errors validation))
      else
        let decisionMatrix = buildDecisionMatrixD options constraints;
            normalizedMatrix = normalizeMatrixD decisionMatrix constraints;
            weightedMatrix = applyWeightsD normalizedMatrix constraints;
            (ideal, negativeIdeal) = calculateIdealSolutionsD weightedMatrix constraints;
            (positiveDistances, negativeDistances) =
               calculateDistancesD weightedMatrix ideal negativeIdeal;
            closeness = calculateClosenessScoresD positiveDistances negativeDistances;
            ranked = generateRankingsD options closeness weightedMatrix constraints
        in Inr \<lparr> rankingsD = ranked,
                 normalizedScoresD = buildScoreMapD options constraints normalizedMatrix,
                 weightedScoresD = buildScoreMapD options constraints weightedMatrix,
                 closenessScoresD =
                   fold (\<lambda>(index, opt) m. AList.update (option_id opt) (closeness ! index) m)
                        (enumerate 0 options) [],
                 idealSolutionD = ideal,
                 negativeIdealSolutionD = negativeIdeal,
                 scoringMethodologyD = methodology \<rparr>)"

section \<open>Trade-off analysis types\<close>

record ConstraintPerformance =
  constraintId :: string
  constraintName :: string
  score :: jsnum
  normalizedScore :: real
  percentileRank :: real

record OptionAnalysis =
  optionId :: string
  strengths :: "ConstraintPerformance list"
  weaknesses :: "ConstraintPerformance list"
  overallScore :: real
  analysisRank :: real

datatype Significance = low | medium | high

record ConstraintDifference =
  diff_constraintId :: string
  diff_constraintName :: string
  scoreDifference :: jsnum
  percentageDifference :: jsnum
  significance :: Significance

record PairwiseComparison =
  optionA :: string
  optionB :: string
  winner :: string
  significantDifferences :: "ConstraintDifference list"
  overallScoreDifference :: real

datatype RecommendationType = best_overall | best_for_constraint | compromise | avoid

text \<open>A \<^verbatim>\<open>Recommendation\<close> without its \<^verbatim>\<open>reasoning\<close> text.\<close>

record Recommendation =
  rec_type :: RecommendationType
  rec_optionId :: string
  confidence :: real

record DominanceAnalysis =
  dominantOptions :: "string list"
  dominatedOptions :: "string list"
  paretoFrontier :: "string list"
  dominanceMatrix :: "(string, string list) Map"

record TradeOffAnalysis =
  optionAnalyses :: "(string, OptionAnalysis) Map"
  pairwiseComparisons :: "PairwiseComparison list"
  dominanceRelations :: DominanceAnalysis
  recommendations :: "Recommendation list"

section \<open>TradeOffAnalyzer\<close>

text \<open>\<^verbatim>\<open>m.get(k) ?? 0\<close> on a Map of raw scores and on a Map of computed scores.\<close>

definition rawScoreOr0 :: "OptionRec \<Rightarrow> string \<Rightarrow> jsnum" where
  "rawScoreOr0 opt k = (case scores opt k of None \<Rightarrow> Fin 0 | Some s \<Rightarrow> s)"

definition getOr0 :: "(string, real) Map \<Rightarrow> string \<Rightarrow> real" where
  "getOr0 m k = (case map_of m k of None \<Rightarrow> 0 | Some v \<Rightarrow> v)"

definition calculatePercentileRank :: "real \<Rightarrow> real list \<Rightarrow> real" where
  "calculatePercentileRank v sortedValues =
     (if length sortedValues = 0 then 0
      else if length sortedValues = 1 then (if sortedValues ! 0 = v then 1 else 0)
      else fold (\<lambda>x count. if x < v then count + 1
                            else if x = v then count + 0.5 else count) sortedValues 0
           / real (length sortedValues))"

text \<open>The percentile of an option's normalized score on a constraint among the
  normalized scores of all options, as both identify functions compute it.\<close>

definition analyzerPercentile :: "ScoringResult \<Rightarrow> real \<Rightarrow> Constraint \<Rightarrow> real" where
  "analyzerPercentile scoringResult normalizedValue constraint =
     (let allScores = js_sort (\<lambda>a b. a - b)
            (map (\<lambda>scs. getOr0 scs (constraint_id constraint))
                 (map snd (normalizedScores scoringResult)))
      in calculatePercentileRank normalizedValue allScores)"

definition Analyzer_identifyStrengths ::
  "OptionRec \<Rightarrow> Constraint list \<Rightarrow> ScoringResult \<Rightarrow> ConstraintPerformance list" where
  "Analyzer_identifyStrengths opt constraints scoringResult =
     (case map_of (normalizedScores scoringResult) (option_id opt) of
        None \<Rightarrow> []
      | Some normalized \<Rightarrow>
          js_sort (\<lambda>a b. percentileRank b - percentileRank a)
            (concat (map (\<lambda>constraint.
               let sc = rawScoreOr0 opt (constraint_id constraint);
                   normalizedValue = getOr0 normalized (constraint_id constraint);
                   pr = analyzerPercentile scoringResult normalizedValue constraint
               in if pr \<ge> 0.75
                  then [\<lparr> constraintId = constraint_id constraint,
                          constraintName = constraint_name constraint,
                          score = sc,
                          normalizedScore = normalizedValue,
                          percentileRank = pr \<rparr>]
                  else [])
              constraints)))"

definition Analyzer_identifyWeaknesses ::
  "OptionRec \<Rightarrow> Constraint list \<Rightarrow> ScoringResult \<Rightarrow> ConstraintPerformance list" where
  "Analyzer_identifyWeaknesses opt constraints scoringResult =
     (case map_of (normalizedScores scoringResult) (option_id opt) of
        None \<Rightarrow> []
      | Some normalized \<Rightarrow>
          js_sort (\<lambda>a b. percentileRank a - percentileRank b)
            (concat (map (\<lambda>constraint.
               let sc = rawScoreOr0 opt (constraint_id constraint);
                   normalizedValue = getOr0 normalized (constraint_id constraint);
                   pr = analyzerPercentile scoringResult normalizedValue constraint
               in if pr \<le> 0.25
                  then [\<lparr> constraintId = constraint_id constraint,
                          constraintName = constraint_name constraint,
                          score = sc,
                          normalizedScore = normalizedValue,
                          percentileRank = pr \<rparr>]
                  else [])
              constraints)))"

definition generateOptionAnalyses ::
  "ScoringResult \<Rightarrow> OptionRec list \<Rightarrow> Constraint list \<Rightarrow> (string, OptionAnalysis) Map" where
  "generateOptionAnalyses scoringResult options constraints =
     fold (\<lambda>opt analyses.
            case find (\<lambda>r. option_id (option r) = option_id opt) (rankings scoringResult) of
              None \<Rightarrow> analyses
            | Some ranking \<Rightarrow>
                AList.update (option_id opt)
                  \<lparr> optionId = option_id opt,
                    strengths = Analyzer_identifyStrengths opt constraints scoringResult,
                    weaknesses = Analyzer_identifyWeaknesses opt constraints scoringResult,
                    overallScore = getOr0 (closenessScores scoringResult) (option_id opt),
                    analysisRank = rank ranking \<rparr>
                  analyses)
          options []"

definition compareOptions ::
  "OptionRec \<Rightarrow> OptionRec \<Rightarrow> Constraint list \<Rightarrow> ScoringResult \<Rightarrow> PairwiseComparison" where
  "compareOptions optA optB constraints scoringResult =
     (let scoreA = getOr0 (closenessScores scoringResult) (option_id optA);
          scoreB = getOr0 (closenessScores scoringResult) (option_id optB)
      in \<lparr> optionA = option_id optA,
           optionB = option_id optB,
           winner = (if scoreA > scoreB then option_id optA else option_id optB),
           significantDifferences =
             concat (map (\<lambda>constraint.
               let rawScoreA = rawScoreOr0 optA (constraint_id constraint);
                   rawScoreB = rawScoreOr0 optB (constraint_id constraint);
                   difference = js_sub rawScoreA rawScoreB;
                   maxScore = js_max (js_abs rawScoreA) (js_abs rawScoreB);
                   percentage = (if js_gt maxScore (Fin 0)
                                 then js_div (js_abs difference) maxScore else Fin 0);
                   sig = (if js_gt percentage (Fin 0.3) then high
                          else if js_gt percentage (Fin 0.15) then medium else low)
               in if sig \<noteq> low
                  then [\<lparr> diff_constraintId = constraint_id constraint,
                          diff_constraintName = constraint_name constraint,
                          scoreDifference = difference,
                          percentageDifference = percentage,
                          significance = sig \<rparr>]
                  else [])
              constraints),
           overallScoreDifference = \<bar>scoreA - scoreB\<bar> \<rparr>)"

definition performPairwiseComparisons ::
  "ScoringResult \<Rightarrow> OptionRec list \<Rightarrow> Constraint list \<Rightarrow> PairwiseComparison list" where
  "performPairwiseComparisons scoringResult options constraints =
     concat (map (\<lambda>i. map (\<lambda>j.
                compareOptions (options ! i) (options ! j) constraints scoringResult)
              [i + 1..<length options]) [0..<length options])"

text \<open>The loop of \<^verbatim>\<open>dominates\<close>, with the flag \<^verbatim>\<open>hasAdvantage\<close> as an argument.\<close>

fun dominatesFrom :: "bool \<Rightarrow> OptionRec \<Rightarrow> OptionRec \<Rightarrow> Constraint list \<Rightarrow> bool" where
  "dominatesFrom hasAdvantage optA optB [] = hasAdvantage"
| "dominatesFrom hasAdvantage optA optB (constraint # rest) =
     (let scoreA = rawScoreOr0 optA (constraint_id constraint);
          scoreB = rawScoreOr0 optB (constraint_id constraint)
      in if direction constraint = maximize then
           (if js_lt scoreA scoreB then False
            else dominatesFrom (if js_gt scoreA scoreB then True else hasAdvantage) optA optB rest)
         else
           (if js_gt scoreA scoreB then False
            else dominatesFrom (if js_lt scoreA scoreB then True else hasAdvantage) optA optB rest))"

definition dominates :: "OptionRec \<Rightarrow> OptionRec \<Rightarrow> Constraint list \<Rightarrow> bool" where
  "dominates optA optB constraints = dominatesFrom False optA optB constraints"

text \<open>The array stored under a key (every key read was set to an array before), and
  \<^verbatim>\<open>m.get(k)!.push(v)\<close>.\<close>

definition getList :: "(string, string list) Map \<Rightarrow> string \<Rightarrow> string list" where
  "getList m k = (case map_of m k of None \<Rightarrow> [] | Some l \<Rightarrow> l)"

definition pushTo :: "(string, string list) Map \<Rightarrow> string \<Rightarrow> string \<Rightarrow> (string, string list) Map" where
  "pushTo m k v = AList.update k (getList m k @ [v]) m"

definition dominanceMaps ::
  "OptionRec list \<Rightarrow> Constraint list \<Rightarrow> (string, string list) Map \<times> (string, string list) Map" where
  "dominanceMaps options constraints =
     (let init = fold (\<lambda>opt (dm, db).
                        (AList.update (option_id opt) [] dm, AList.update (option_id opt) [] db))
                      options ([], [])
      in fold (\<lambda>(i, j) (dm, db).
                if i = j then (dm, db)
                else let optA = options ! i; optB = options ! j
                     in if dominates optA optB constraints
                        then (pushTo dm (option_id optA) (option_id optB),
                              pushTo db (option_id optB) (option_id optA))
                        else (dm, db))
              (List.product [0..<length options] [0..<length options]) init)"

definition findDominantOptions ::
  "OptionRec list \<Rightarrow> Constraint list \<Rightarrow> ScoringResult \<Rightarrow> DominanceAnalysis" where
  "findDominantOptions options constraints scoringResult =
     (let (dm, dominatedBy) = dominanceMaps options constraints
      in \<lparr> dominantOptions =
             map option_id (filter (\<lambda>opt. length (getList dm (option_id opt)) > 0) options),
           dominatedOptions =
             map option_id (filter (\<lambda>opt. length (getList dominatedBy (option_id opt)) > 0) options),
           paretoFrontier =
             map option_id (filter (\<lambda>opt. length (getList dominatedBy (option_id opt)) = 0) options),
           dominanceMatrix = dm \<rparr>)"

definition calculateConfidence :: "OptionAnalysis \<Rightarrow> (string, OptionAnalysis) Map \<Rightarrow> real" where
  "calculateConfidence opt allAnalyses =
     (let totalOptions = real (length allAnalyses);
          rankScore = (totalOptions - analysisRank opt + 1) / totalOptions;
          strengthScore = min (real (length (strengths opt)) / 3) 1;
          weaknessScore = max 0 (1 - real (length (weaknesses opt)) / 3)
      in min 0.95 (rankScore * 0.5 + strengthScore * 0.3 + weaknessScore * 0.2))"

definition findBestOverallOption :: "(string, OptionAnalysis) Map \<Rightarrow> Recommendation option" where
  "findBestOverallOption analyses =
     (case fold (\<lambda>analysis best.
                   case best of
                     None \<Rightarrow> Some analysis
                   | Some b \<Rightarrow> if analysisRank analysis < analysisRank b
                               then Some analysis else Some b)
                (map snd analyses) None of
        None \<Rightarrow> None
      | Some bestOption \<Rightarrow>
          Some \<lparr> rec_type = best_overall,
                 rec_optionId = optionId bestOption,
                 confidence = calculateConfidence bestOption analyses \<rparr>)"

definition findCompromiseOption ::
  "(string, OptionAnalysis) Map \<Rightarrow> DominanceAnalysis \<Rightarrow> Recommendation option" where
  "findCompromiseOption analyses dominance =
     (case js_sort (\<lambda>a b. analysisRank a - analysisRank b)
             (filter (\<lambda>analysis. analysisRank analysis > 1)
                (List.map_filter (\<lambda>k. map_of analyses k) (paretoFrontier dominance))) of
        [] \<Rightarrow> None
      | compromiseOption # others \<Rightarrow>
          Some \<lparr> rec_type = compromise,
                 rec_optionId = optionId compromiseOption,
                 confidence = calculateConfidence compromiseOption analyses \<rparr>)"

definition findOptionToAvoid ::
  "(string, OptionAnalysis) Map \<Rightarrow> DominanceAnalysis \<Rightarrow> Recommendation option" where
  "findOptionToAvoid analyses dominance =
     (case js_sort (\<lambda>a b. analysisRank b - analysisRank a)
             (filter (\<lambda>analysis. length (weaknesses analysis) \<ge> 2)
                (List.map_filter (\<lambda>k. map_of analyses k) (dominatedOptions dominance))) of
        [] \<Rightarrow> None
      | avoidOption # others \<Rightarrow>
          Some \<lparr> rec_type = avoid,
                 rec_optionId = optionId avoidOption,
                 confidence = calculateConfidence avoidOption analyses \<rparr>)"

definition generateRecommendations ::
  "(string, OptionAnalysis) Map \<Rightarrow> DominanceAnalysis \<Rightarrow> ScoringResult \<Rightarrow> Recommendation list" where
  "generateRecommendations analyses dominance scoringResult =
     (case findBestOverallOption analyses of None \<Rightarrow> [] | Some r \<Rightarrow> [r]) @
     (case findCompromiseOption analyses dominance of None \<Rightarrow> [] | Some r \<Rightarrow> [r]) @
     (case findOptionToAvoid analyses dominance of None \<Rightarrow> [] | Some r \<Rightarrow> [r])"

text \<open>The elements of \<^verbatim>\<open>new Set(xs)\<close> in iteration order: first occurrences.\<close>

definition Set_of :: "string list \<Rightarrow> string list" where
  "Set_of xs = rev (remdups (rev xs))"

text \<open>The scoring result is a value of its type, so the \<^verbatim>\<open>INVALID_SCORING_RESULT\<close> test for a
  missing result or a missing \<^verbatim>\<open>rankings\<close> field never fires.\<close>

definition Analyzer_validateInputs ::
  "ScoringResult \<Rightarrow> OptionRec list \<Rightarrow> Constraint list \<Rightarrow> ValidationResult" where
  "Analyzer_validateInputs scoringResult options constraints =
     (let errors2 = (if length options < 2 then [INSUFFICIENT_OPTIONS] else []);
          errors3 = (if length constraints = 0 then [NO_CONSTRAINTS] else []);
          errors4 =
            (if length options > 0 then
               (let scoringOptionIds = set (map (\<lambda>r. option_id (option r)) (rankings scoringResult));
                    inputOptionIds = Set_of (map option_id options)
                in concat (map (\<lambda>k. if k \<notin> scoringOptionIds then [MISSING_SCORING_DATA] else [])
                               inputOptionIds))
             else []);
          errs = errors2 @ errors3 @ errors4
      in \<lparr> isValid = (length errs = 0), errors = errs, warnings = [] \<rparr>)"

text \<open>The \<^verbatim>\<open>catch\<close> branch (\<^verbatim>\<open>ANALYSIS_ERROR\<close>) is not reached: none of the steps throws.\<close>

definition analyzeTradeOffs ::
  "ScoringResult \<Rightarrow> OptionRec list \<Rightarrow> Constraint list \<Rightarrow> ErrorCode + TradeOffAnalysis" where
  "analyzeTradeOffs scoringResult options constraints =
     (let validation = Analyzer_validateInputs scoringResult options constraints in
      if \<not> isValid validation then Inl (hd (errors validation))
      else
        let analyses = generateOptionAnalyses scoringResult options constraints;
            comparisons = performPairwiseComparisons scoringResult options constraints;
            dominance = findDominantOptions options constraints scoringResult;
            recs = generateRecommendations analyses dominance scoringResult
        in Inr \<lparr> optionAnalyses = analyses,
                 pairwiseComparisons = comparisons,
                 dominanceRelations = dominance,
                 recommendations = recs \<rparr>)"

section \<open>Intermediate values of \<open>calculateScores\<close> and example inputs\<close>

text \<open>The engine built without arguments holds this methodology.\<close>

definition defaultMethodology :: ScoringMethodology where
  "defaultMethodology =
     \<lparr> normalizationMethod = ''vector'', weightingApproach = ''linear'',
       distanceMetric = ''euclidean'', idealSolutionMethod = ''max_min'' \<rparr>"

definition weightedMatrixOf :: "OptionRec list \<Rightarrow> Constraint list \<Rightarrow> real list list" where
  "weightedMatrixOf options constraints =
     applyWeights (normalizeMatrix (buildDecisionMatrix options constraints) constraints) constraints"

definition distancesOf :: "OptionRec list \<Rightarrow> Constraint list \<Rightarrow> real list \<times> real list" where
  "distancesOf options constraints =
     (let weightedMatrix = weightedMatrixOf options constraints;
          (ideal, negativeIdeal) = calculateIdealSolutions weightedMatrix constraints
      in calculateDistances weightedMatrix ideal negativeIdeal)"

definition closenessOf :: "OptionRec list \<Rightarrow> Constraint list \<Rightarrow> real list" where
  "closenessOf options constraints =
     (let (positiveDistances, negativeDistances) = distancesOf options constraints
      in calculateClosenessScores positiveDistances negativeDistances)"

definition sortedItems :: "OptionRec list \<Rightarrow> real list \<Rightarrow> IndexedRanking list" where
  "sortedItems options closeness =
     js_sort (\<lambda>a b. snd (snd b) - snd (snd a)) (indexedRankings options closeness)"

definition wOptA :: OptionRec where
  "wOptA = \<lparr> option_id = ''a'', option_name = ''A'', scores = [''c'' \<mapsto> Fin 3] \<rparr>"

definition wOptB :: OptionRec where
  "wOptB = \<lparr> option_id = ''b'', option_name = ''B'', scores = [''c'' \<mapsto> Fin 4] \<rparr>"

definition wOptA2 :: OptionRec where
  "wOptA2 = \<lparr> option_id = ''a2'', option_name = ''A2'', scores = [''c'' \<mapsto> Fin 3] \<rparr>"

definition wMax :: Constraint where
  "wMax = \<lparr> constraint_id = ''c'', constraint_name = ''C'', weight = Fin 100,
            direction = maximize \<rparr>"

text \<open>The same intermediate values of \<open>calculateScoresD\<close>.\<close>

definition weightedMatrixOfD :: "OptionRec list \<Rightarrow> Constraint list \<Rightarrow> jsnum list list" where
  "weightedMatrixOfD options constraints =
     applyWeightsD (normalizeMatrixD (buildDecisionMatrixD options constraints) constraints)
       constraints"

definition distancesOfD :: "OptionRec list \<Rightarrow> Constraint list \<Rightarrow> jsnum list \<times> jsnum list" where
  "distancesOfD options constraints =
     (let weightedMatrix = weightedMatrixOfD options constraints;
          (ideal, negativeIdeal) = calculateIdealSolutionsD weightedMatrix constraints
      in calculateDistancesD weightedMatrix ideal negativeIdeal)"

definition closenessOfD :: "OptionRec list \<Rightarrow> Constraint list \<Rightarrow> jsnum list" where
  "closenessOfD options constraints =
     (let (positiveDistances, negativeDistances) = distancesOfD options constraints
      in calculateClosenessScoresD positiveDistances negativeDistances)"

definition sortedItemsD :: "OptionRec list \<Rightarrow> jsnum list \<Rightarrow> IndexedRankingD list" where
  "sortedItemsD options closeness =
     js_sortD (\<lambda>a b. js_sub (snd (snd b)) (snd (snd a))) (indexedRankingsD options closeness)"

text \<open>A criterion whose weight is a finite double close to the largest one.\<close>

definition hugeWeight :: real where
  "hugeWeight = 10 ^ 308"

definition wHuge :: Constraint where
  "wHuge = \<lparr> constraint_id = ''c'', constraint_name = ''C'', weight = Fin hugeWeight,
             direction = maximize \<rparr>"

text \<open>The normalized matrix of \<open>calculateScores\<close>, and further example constraints.\<close>

definition normalizedMatrixOf :: "OptionRec list \<Rightarrow> Constraint list \<Rightarrow> real list list" where
  "normalizedMatrixOf options constraints =
     normalizeMatrix (buildDecisionMatrix options constraints) constraints"

definition wNeg :: Constraint where
  "wNeg = \<lparr> constraint_id = ''c'', constraint_name = ''C'', weight = Fin (- 10),
            direction = maximize \<rparr>"

definition wHalf :: Constraint where
  "wHalf = \<lparr> constraint_id = ''c'', constraint_name = ''C'', weight = Fin 50,
             direction = maximize \<rparr>"

text \<open>The \<^verbatim>\<open>OptionAnalysis\<close> that \<open>generateOptionAnalyses\<close> stores for an option and its
  ranking, and a scoring result for the example options \<open>wOptA\<close>, \<open>wOptB\<close> under \<open>wMax\<close>.\<close>

definition analysisOf :: "ScoringResult \<Rightarrow> Constraint list \<Rightarrow> OptionRec \<Rightarrow> OptionRanking \<Rightarrow> OptionAnalysis" where
  "analysisOf scoringResult constraints opt ranking =
     \<lparr> optionId = option_id opt,
       strengths = Analyzer_identifyStrengths opt constraints scoringResult,
       weaknesses = Analyzer_identifyWeaknesses opt constraints scoringResult,
       overallScore = getOr0 (closenessScores scoringResult) (option_id opt),
       analysisRank = rank ranking \<rparr>"

definition wResult :: ScoringResult where
  "wResult =
     \<lparr> rankings =
         [\<lparr> option = wOptB, rank = 1, closenessScore = 1,
            strengthAreas = [''C''], weaknessAreas = [] \<rparr>,
          \<lparr> option = wOptA, rank = 2, closenessScore = 0,
            strengthAreas = [], weaknessAreas = [] \<rparr>],
       normalizedScores = [(''a'', [(''c'', 3 / 5)]), (''b'', [(''c'', 4 / 5)])],
       weightedScores = [(''a'', [(''c'', 3 / 5)]), (''b'', [(''c'', 4 / 5)])],
       closenessScores = [(''a'', 0), (''b'', 1)],
       idealSolution = [4 / 5],
       negativeIdealSolution = [3 / 5],
       scoringMethodology = defaultMethodology \<rparr>"

text \<open>A cost criterion, and the scoring result of \<open>wOptA\<close>, \<open>wOptB\<close> under it.\<close>

definition wMin :: Constraint where
  "wMin = \<lparr> constraint_id = ''c'', constraint_name = ''C'', weight = Fin 100,
            direction = minimize \<rparr>"


text \<open>For the dominance proofs: a real number for every double that is not NaN, in the
  order of \<^verbatim>\<open><\<close>; the sum of these numbers over an option's raw scores, with cost criteria
  negated; and the two folds of \<open>dominanceMaps\<close> by name.\<close>

fun orderValue :: "jsnum \<Rightarrow> real" where
  "orderValue (Fin r) = arctan r"
| "orderValue PosInf = pi / 2"
| "orderValue NegInf = - (pi / 2)"
| "orderValue NaN = 0"

definition directedSum :: "Constraint list \<Rightarrow> OptionRec \<Rightarrow> real" where
  "directedSum constraints opt =
     sum_list (map (\<lambda>c. (if direction c = maximize then 1 else - 1) *
                          orderValue (rawScoreOr0 opt (constraint_id c))) constraints)"

text \<open>Two options that share an identifier, and three options whose scores include NaN,
  with a scoring result that lists them.\<close>

definition wOptA4 :: OptionRec where
  "wOptA4 = \<lparr> option_id = ''a'', option_name = ''A4'', scores = [''c'' \<mapsto> Fin 4] \<rparr>"

definition nOptX :: OptionRec where
  "nOptX = \<lparr> option_id = ''x'', option_name = ''X'',
             scores = [''c1'' \<mapsto> Fin 2, ''c2'' \<mapsto> Fin 1, ''c3'' \<mapsto> NaN] \<rparr>"

definition nOptY :: OptionRec where
  "nOptY = \<lparr> option_id = ''y'', option_name = ''Y'',
             scores = [''c1'' \<mapsto> Fin 1, ''c2'' \<mapsto> NaN, ''c3'' \<mapsto> Fin 2] \<rparr>"

definition nOptZ :: OptionRec where
  "nOptZ = \<lparr> option_id = ''z'', option_name = ''Z'',
             scores = [''c1'' \<mapsto> NaN, ''c2'' \<mapsto> Fin 2, ''c3'' \<mapsto> Fin 1] \<rparr>"

definition nConstraints :: "Constraint list" where
  "nConstraints =
     [\<lparr> constraint_id = ''c1'', constraint_name = ''C1'', weight = Fin 40, direction = maximize \<rparr>,
      \<lparr> constraint_id = ''c2'', constraint_name = ''C2'', weight = Fin 30, direction = maximize \<rparr>,
      \<lparr> constraint_id = ''c3'', constraint_name = ''C3'', weight = Fin 30, direction = maximize \<rparr>]"

definition nResult :: ScoringResult where
  "nResult =
     \<lparr> rankings =
         [\<lparr> option = nOptX, rank = 1, closenessScore = 0, strengthAreas = [], weaknessAreas = [] \<rparr>,
          \<lparr> option = nOptY, rank = 2, closenessScore = 0, strengthAreas = [], weaknessAreas = [] \<rparr>,
          \<lparr> option = nOptZ, rank = 3, closenessScore = 0, strengthAreas = [], weaknessAreas = [] \<rparr>],
       normalizedScores = [],
       weightedScores = [],
       closenessScores = [],
       idealSolution = [],
       negativeIdealSolution = [],
       scoringMethodology = defaultMethodology \<rparr>"

definition dominanceStep ::
  "OptionRec list \<Rightarrow> Constraint list \<Rightarrow> nat \<times> nat \<Rightarrow>
   (string, string list) Map \<times> (string, string list) Map \<Rightarrow>
   (string, string list) Map \<times> (string, string list) Map" where
  "dominanceStep options constraints =
     (\<lambda>(i, j) (dm, db).
        if i = j then (dm, db)
        else let optA = options ! i; optB = options ! j
             in if dominates optA optB constraints
                then (pushTo dm (option_id optA) (option_id optB),
                      pushTo db (option_id optB) (option_id optA))
                else (dm, db))"

definition dominanceInit ::
  "OptionRec list \<Rightarrow> (string, string list) Map \<times> (string, string list) Map" where
  "dominanceInit options =
     fold (\<lambda>opt (dm, db).
            (AList.update (option_id opt) [] dm, AList.update (option_id opt) [] db))
          options ([], [])"

text \<open>An option with every score that a constraint asks for and the option lacks set
  to 0, and an example option without scores.\<close>

definition withDefaultScores :: "Constraint list \<Rightarrow> OptionRec \<Rightarrow> OptionRec" where
  "withDefaultScores constraints opt =
     opt\<lparr>scores := (\<lambda>k. if k \<in> constraint_id ` set constraints
                          then Some (rawScoreOr0 opt k) else scores opt k)\<rparr>"

definition wOptNone :: OptionRec where
  "wOptNone = \<lparr> option_id = ''b'', option_name = ''B'', scores = Map.empty \<rparr>"


text \<open>The supplier selection scenario: three suppliers, four criteria. The factors are
  weight over 100 over the root of the column's sum of squares; the matrices and scores
  below are the intermediate values the engine computes for the scenario.\<close>

definition supplierA :: OptionRec where
  "supplierA = \<lparr> option_id = ''supplier_a'', option_name = ''Supplier A'',
       scores = [''cost'' \<mapsto> Fin 250, ''quality'' \<mapsto> Fin 16, ''delivery'' \<mapsto> Fin 8.5,
                 ''service'' \<mapsto> Fin 5] \<rparr>"

definition supplierB :: OptionRec where
  "supplierB = \<lparr> option_id = ''supplier_b'', option_name = ''Supplier B'',
       scores = [''cost'' \<mapsto> Fin 200, ''quality'' \<mapsto> Fin 16, ''delivery'' \<mapsto> Fin 9,
                 ''service'' \<mapsto> Fin 4] \<rparr>"

definition supplierC :: OptionRec where
  "supplierC = \<lparr> option_id = ''supplier_c'', option_name = ''Supplier C'',
       scores = [''cost'' \<mapsto> Fin 300, ''quality'' \<mapsto> Fin 32, ''delivery'' \<mapsto> Fin 7,
                 ''service'' \<mapsto> Fin 4] \<rparr>"

definition supplierConstraints :: "Constraint list" where
  "supplierConstraints =
     [\<lparr> constraint_id = ''cost'', constraint_name = ''Cost'', weight = Fin 30,
        direction = minimize \<rparr>,
      \<lparr> constraint_id = ''quality'', constraint_name = ''Quality'', weight = Fin 40,
        direction = maximize \<rparr>,
      \<lparr> constraint_id = ''delivery'', constraint_name = ''Delivery Time'', weight = Fin 20,
        direction = maximize \<rparr>,
      \<lparr> constraint_id = ''service'', constraint_name = ''Service Level'', weight = Fin 10,
        direction = maximize \<rparr>]"

definition costFactor :: real where "costFactor = (3 / 10) / sqrt 192500"

definition qualityFactor :: real where "qualityFactor = (2 / 5) / sqrt 1536"

definition deliveryFactor :: real where "deliveryFactor = (1 / 5) / sqrt (809 / 4)"

definition serviceFactor :: real where "serviceFactor = (1 / 10) / sqrt 57"

definition supplierWeighted :: "real list list" where
  "supplierWeighted =
     [[costFactor * 250, qualityFactor * 16, deliveryFactor * (17 / 2), serviceFactor * 5],
      [costFactor * 200, qualityFactor * 16, deliveryFactor * 9, serviceFactor * 4],
      [costFactor * 300, qualityFactor * 32, deliveryFactor * 7, serviceFactor * 4]]"

definition supplierIdeal :: "real list" where
  "supplierIdeal = [costFactor * 200, qualityFactor * 32, deliveryFactor * 9, serviceFactor * 5]"

definition supplierNegativeIdeal :: "real list" where
  "supplierNegativeIdeal =
     [costFactor * 300, qualityFactor * 16, deliveryFactor * 7, serviceFactor * 4]"

definition supplierCloseness :: "real list" where
  "supplierCloseness =
     [sqrt (317657 / 177535050) / (sqrt (521111 / 18687900) + sqrt (317657 / 177535050)),
      sqrt (8513 / 1557325) / (sqrt (51 / 1900) + sqrt (8513 / 1557325)),
      sqrt (2 / 75) / (sqrt (2003257 / 355070100) + sqrt (2 / 75))]"

section \<open>Properties\<close>

subsection \<open>Results within the range of the doubles\<close>

lemma overflowThreshold_bounds:
  "1000000 < overflowThreshold" "hugeWeight < overflowThreshold"
  "overflowThreshold < 10 * hugeWeight"
  by (simp_all add: overflowThreshold_def hugeWeight_def)

lemma hugeWeight_ge: "10000000 \<le> hugeWeight"
  by (simp add: hugeWeight_def)

lemma toDouble_Fin: "\<bar>r\<bar> < overflowThreshold \<Longrightarrow> toDouble r = Fin r"
  by (simp add: toDouble_def abs_less_iff)

lemma toDouble_small: "\<bar>r\<bar> \<le> 1000000 \<Longrightarrow> toDouble r = Fin r"
  using overflowThreshold_bounds(1) by (intro toDouble_Fin) simp

lemma toDouble_PosInf: "overflowThreshold \<le> r \<Longrightarrow> toDouble r = PosInf"
  by (simp add: toDouble_def)

lemma notPositive_toDouble: "notPositive (toDouble r) = (r \<le> 0)"
  using overflowThreshold_bounds(1) by (simp add: toDouble_def)

subsection \<open>Sorting and the scoring pipeline\<close>

lemma calculateScores_Inr:
  assumes "calculateScores m options constraints = Inr res"
  shows "isValid (TOPSIS_validateInputs options constraints)"
    and "rankings res = generateRankings options (closenessOf options constraints)
                          (weightedMatrixOf options constraints) constraints"
    and "closenessScores res =
           fold (\<lambda>(index, opt) m. AList.update (option_id opt) (closenessOf options constraints ! index) m)
                (enumerate 0 options) []"
  using assms
  by (auto simp: calculateScores_def closenessOf_def distancesOf_def weightedMatrixOf_def Let_def
           split: if_splits prod.splits)

lemma calculateScores_valid:
  assumes "isValid (TOPSIS_validateInputs options constraints)"
  shows "\<exists>res. calculateScores m options constraints = Inr res"
  using assms by (simp add: calculateScores_def Let_def split: prod.splits)

lemma distanceTo_nonneg: "0 \<le> distanceTo row point"
  unfolding distanceTo_def by (intro real_sqrt_ge_zero sum_list_nonneg) auto

lemma length_distancesOf:
  "length (fst (distancesOf options constraints)) = length options"
  "length (snd (distancesOf options constraints)) = length options"
  by (auto simp: distancesOf_def calculateDistances_def weightedMatrixOf_def applyWeights_def
       normalizeMatrix_def buildDecisionMatrix_def Let_def split: prod.splits)

lemma distancesOf_nonneg:
  "i < length options \<Longrightarrow> 0 \<le> fst (distancesOf options constraints) ! i"
  "i < length options \<Longrightarrow> 0 \<le> snd (distancesOf options constraints) ! i"
  by (auto simp: distancesOf_def calculateDistances_def weightedMatrixOf_def applyWeights_def
       normalizeMatrix_def buildDecisionMatrix_def Let_def distanceTo_nonneg split: prod.splits)

lemma closeness_entry_bounds:
  assumes "0 \<le> (p::real)" "0 \<le> n"
  shows "0 \<le> (if p + n = 0 then 1 else n / (p + n)) \<and> (if p + n = 0 then 1 else n / (p + n)) \<le> 1"
  using assms by (auto simp: divide_le_eq)

lemma closenessOf_nth:
  assumes "i < length options"
  shows "closenessOf options constraints ! i =
           (let p = fst (distancesOf options constraints) ! i;
                n = snd (distancesOf options constraints) ! i
            in if p + n = 0 then 1 else n / (p + n))"
  using assms length_distancesOf[of options constraints]
  by (auto simp: closenessOf_def calculateClosenessScores_def Let_def split: prod.splits)

lemma closenessOf_bounds:
  assumes "i < length options"
  shows "0 \<le> closenessOf options constraints ! i \<and> closenessOf options constraints ! i \<le> 1"
  using closeness_entry_bounds[OF distancesOf_nonneg(1)[OF assms] distancesOf_nonneg(2)[OF assms]]
  by (simp add: closenessOf_nth[OF assms] Let_def)

lemma js_insert_desc: "js_insert (\<lambda>a b. f b - f a) x ys = insort_key (\<lambda>x. - f x) x ys"
  by (induction ys) auto

lemma js_sort_desc: "js_sort (\<lambda>a b. f b - f a) xs = sort_key (\<lambda>x. - f x) xs"
  by (induction xs) (auto simp: js_sort_def js_insert_desc)

lemma set_js_insert: "set (js_insert cmp x ys) = insert x (set ys)"
  by (induction ys) auto

lemma set_js_sort: "set (js_sort cmp xs) = set xs"
  by (induction xs) (auto simp: js_sort_def set_js_insert)

lemma length_js_insert: "length (js_insert cmp x ys) = Suc (length ys)"
  by (induction ys) auto

lemma length_js_sort: "length (js_sort cmp xs) = length xs"
  by (induction xs) (auto simp: js_sort_def length_js_insert)

lemma indexedRankings_eq:
  "indexedRankings options closeness =
     map (\<lambda>i. (options ! i, i, closeness ! i)) [0..<length options]"
  by (rule nth_equalityI) (simp_all add: indexedRankings_def nth_enumerate_eq)

lemma length_sortedItems: "length (sortedItems options closeness) = length options"
  by (simp add: sortedItems_def length_js_sort indexedRankings_eq)

lemma length_generateRankings:
  "length (generateRankings options closeness W constraints) = length options"
  by (simp add: generateRankings_def Let_def length_js_sort indexedRankings_eq)

lemma generateRankings_nth:
  assumes "k < length options"
  shows "generateRankings options closeness W constraints ! k =
     \<lparr> option = fst (sortedItems options closeness ! k),
       rank = real k + 1,
       closenessScore = snd (snd (sortedItems options closeness ! k)),
       strengthAreas =
         TOPSIS_identifyStrengths (fst (snd (sortedItems options closeness ! k))) W constraints,
       weaknessAreas =
         TOPSIS_identifyWeaknesses (fst (snd (sortedItems options closeness ! k))) W constraints \<rparr>"
  using assms length_sortedItems[of options closeness]
  by (simp add: generateRankings_def Let_def nth_enumerate_eq sortedItems_def)

lemma generateRankings_pairs:
  "map (\<lambda>r. (option r, closenessScore r)) (generateRankings options closeness W constraints) =
   map (\<lambda>item. (fst item, snd (snd item))) (sortedItems options closeness)"
  by (rule nth_equalityI)
     (simp_all add: length_generateRankings length_sortedItems generateRankings_nth)

lemma generateRankings_rank:
  "map rank (generateRankings options closeness W constraints) =
   map real [1..<Suc (length options)]"
  by (rule nth_equalityI)
     (simp_all add: length_generateRankings generateRankings_nth nth_append del: upt_Suc)

lemma sortedItems_sorted:
  "sorted_wrt (\<lambda>a b. snd (snd a) \<ge> snd (snd b)) (sortedItems options closeness)"
proof -
  have "sorted (map (\<lambda>x. - snd (snd x)) (sortedItems options closeness))"
    unfolding sortedItems_def js_sort_desc by (rule sorted_sort_key)
  then show ?thesis
    by (simp add: sorted_map sorted_wrt_iff_nth_less)
qed

lemma generateRankings_sorted:
  "sorted_wrt (\<lambda>a b. closenessScore a \<ge> closenessScore b)
     (generateRankings options closeness W constraints)"
proof -
  have "sorted_wrt (\<lambda>a b. snd a \<ge> snd b)
          (map (\<lambda>r. (option r, closenessScore r)) (generateRankings options closeness W constraints))"
    unfolding generateRankings_pairs using sortedItems_sorted[of options closeness]
    by (simp add: sorted_wrt_map)
  then show ?thesis by (simp add: sorted_wrt_map)
qed

lemma generateRankings_stable:
  "map option (filter (\<lambda>r. closenessScore r = v) (generateRankings options closeness W constraints)) =
   map (\<lambda>i. options ! i) (filter (\<lambda>i. closeness ! i = v) [0..<length options])"
proof -
  let ?R = "generateRankings options closeness W constraints"
  have "map option (filter (\<lambda>r. closenessScore r = v) ?R) =
        map fst (filter (\<lambda>p. snd p = v) (map (\<lambda>r. (option r, closenessScore r)) ?R))"
    by (simp add: filter_map comp_def)
  also have "\<dots> = map fst (filter (\<lambda>item. snd (snd item) = v) (sortedItems options closeness))"
    unfolding generateRankings_pairs by (simp add: filter_map comp_def)
  also have "filter (\<lambda>item. snd (snd item) = v) (sortedItems options closeness) =
             filter (\<lambda>item. snd (snd item) = v) (indexedRankings options closeness)"
    unfolding sortedItems_def js_sort_desc
    using sort_key_stable[of "\<lambda>x. - snd (snd x)" "- v" "indexedRankings options closeness"]
    by simp
  also have "map fst \<dots> = map (\<lambda>i. options ! i) (filter (\<lambda>i. closeness ! i = v) [0..<length options])"
    by (simp add: indexedRankings_eq filter_map comp_def)
  finally show ?thesis .
qed

lemma generateRankings_set:
  "(\<lambda>r. (option r, closenessScore r)) ` set (generateRankings options closeness W constraints) =
   (\<lambda>i. (options ! i, closeness ! i)) ` {0..<length options}"
proof -
  have "(\<lambda>r. (option r, closenessScore r)) ` set (generateRankings options closeness W constraints) =
        set (map (\<lambda>r. (option r, closenessScore r)) (generateRankings options closeness W constraints))"
    by simp
  also have "\<dots> = (\<lambda>item. (fst item, snd (snd item))) ` set (indexedRankings options closeness)"
    unfolding generateRankings_pairs by (simp add: sortedItems_def set_js_sort)
  also have "\<dots> = (\<lambda>i. (options ! i, closeness ! i)) ` {0..<length options}"
    by (simp add: indexedRankings_eq image_image)
  finally show ?thesis .
qed

lemma set_update_subset: "set (AList.update k v al) \<subseteq> insert (k, v) (set al)"
  by (induction al) auto

lemma closenessMap_values:
  "snd ` set (fold (\<lambda>(index, opt) m. AList.update (option_id opt) (cl ! index) m)
                   (enumerate n options) m0)
     \<subseteq> snd ` set m0 \<union> (\<lambda>i. cl ! i) ` {n..<n + length options}"
proof (induction options arbitrary: n m0)
  case Nil
  then show ?case by simp
next
  case (Cons opt options)
  let ?m1 = "AList.update (option_id opt) (cl ! n) m0"
  have a: "snd ` set ?m1 \<subseteq> insert (cl ! n) (snd ` set m0)"
    using set_update_subset[of "option_id opt" "cl ! n" m0] by auto
  have b: "{n..<n + length (opt # options)} = insert n {Suc n..<Suc n + length options}"
    by auto
  have "snd ` set (fold (\<lambda>(index, opt) m. AList.update (option_id opt) (cl ! index) m)
                   (enumerate (Suc n) options) ?m1)
        \<subseteq> snd ` set ?m1 \<union> (\<lambda>i. cl ! i) ` {Suc n..<Suc n + length options}"
    by (rule Cons.IH)
  also have "\<dots> \<subseteq> snd ` set m0 \<union> (\<lambda>i. cl ! i) ` {n..<n + length (opt # options)}"
    unfolding b using a by blast
  finally show ?case by simp
qed

lemma wValid: "isValid (TOPSIS_validateInputs [wOptA, wOptB] [wMax])"
  by (simp add: TOPSIS_validateInputs_def scoreErrors_def weightErrors_def
        wOptA_def wOptB_def wMax_def Let_def)

lemma wValid2: "isValid (TOPSIS_validateInputs [wOptA, wOptA2] [wMax])"
  by (simp add: TOPSIS_validateInputs_def scoreErrors_def weightErrors_def
        wOptA_def wOptA2_def wMax_def Let_def)

subsection \<open>The scoring pipeline on doubles\<close>

lemma calculateScoresD_Inr:
  assumes "calculateScoresD m options constraints = Inr res"
  shows "isValid (TOPSIS_validateInputs options constraints)"
    and "rankingsD res = generateRankingsD options (closenessOfD options constraints)
                          (weightedMatrixOfD options constraints) constraints"
    and "closenessScoresD res =
           fold (\<lambda>(index, opt) m. AList.update (option_id opt) (closenessOfD options constraints ! index) m)
                (enumerate 0 options) []"
  using assms
  by (auto simp: calculateScoresD_def closenessOfD_def distancesOfD_def weightedMatrixOfD_def Let_def
           split: if_splits prod.splits)

lemma calculateScoresD_valid:
  assumes "isValid (TOPSIS_validateInputs options constraints)"
  shows "\<exists>res. calculateScoresD m options constraints = Inr res"
  using assms by (simp add: calculateScoresD_def Let_def split: prod.splits)


lemma js_sqrt_cases:
  "js_sqrt x = NaN \<or> js_sqrt x = PosInf \<or> (\<exists>r. 0 \<le> r \<and> js_sqrt x = Fin r)"
  by (cases x) auto

lemma distanceToD_cases:
  "distanceToD row point = NaN \<or> distanceToD row point = PosInf
   \<or> (\<exists>r. 0 \<le> r \<and> distanceToD row point = Fin r)"
  unfolding distanceToD_def by (rule js_sqrt_cases)

lemma closenessD_Fin:
  assumes "0 \<le> a" "0 \<le> b"
  shows "\<exists>x. closenessD (Fin a) (Fin b) = Fin x \<and> 0 \<le> x \<and> x \<le> 1"
proof (cases "overflowThreshold \<le> a + b")
  case True
  then show ?thesis by (simp add: closenessD_def toDouble_PosInf)
next
  case False
  then have t: "toDouble (a + b) = Fin (a + b)"
    using assms by (intro toDouble_Fin) simp
  show ?thesis
  proof (cases "a + b = 0")
    case True
    then show ?thesis using t by (simp add: closenessD_def)
  next
    case False
    have q: "0 \<le> b / (a + b)" "b / (a + b) \<le> 1"
      using assms False by (simp_all add: divide_le_eq)
    then have "\<bar>b / (a + b)\<bar> \<le> 1000000" by linarith
    then have "toDouble (b / (a + b)) = Fin (b / (a + b))"
      by (rule toDouble_small)
    then show ?thesis using False q by (simp add: closenessD_def t)
  qed
qed

lemma closenessD_cases:
  assumes "p = NaN \<or> p = PosInf \<or> (\<exists>r. 0 \<le> r \<and> p = Fin r)"
      and "n = NaN \<or> n = PosInf \<or> (\<exists>r. 0 \<le> r \<and> n = Fin r)"
  shows "closenessD p n = NaN \<or> (\<exists>x. closenessD p n = Fin x \<and> 0 \<le> x \<and> x \<le> 1)"
proof -
  consider "p = NaN \<or> n = NaN" | "n = PosInf" "p \<noteq> NaN" | "p = PosInf" "\<exists>r. 0 \<le> r \<and> n = Fin r"
    | "\<exists>a b. 0 \<le> a \<and> 0 \<le> b \<and> p = Fin a \<and> n = Fin b"
    using assms by auto
  then show ?thesis
  proof cases
    case 1
    then show ?thesis by (cases p; cases n) (auto simp: closenessD_def)
  next
    case 2
    then show ?thesis using assms(1) by (auto simp: closenessD_def)
  next
    case 3
    then show ?thesis by (auto simp: closenessD_def)
  next
    case 4
    then show ?thesis using closenessD_Fin by blast
  qed
qed

lemma closenessD_zero: "closenessD (Fin 0) (Fin 0) = Fin 1"
  by (simp add: closenessD_def toDouble_small)

lemma length_distancesOfD:
  "length (fst (distancesOfD options constraints)) = length options"
  "length (snd (distancesOfD options constraints)) = length options"
  by (auto simp: distancesOfD_def calculateDistancesD_def weightedMatrixOfD_def applyWeightsD_def
       normalizeMatrixD_def buildDecisionMatrixD_def Let_def split: prod.splits)

lemma distancesOfD_cases:
  assumes "i < length options"
  shows "fst (distancesOfD options constraints) ! i = NaN
         \<or> fst (distancesOfD options constraints) ! i = PosInf
         \<or> (\<exists>r. 0 \<le> r \<and> fst (distancesOfD options constraints) ! i = Fin r)"
    and "snd (distancesOfD options constraints) ! i = NaN
         \<or> snd (distancesOfD options constraints) ! i = PosInf
         \<or> (\<exists>r. 0 \<le> r \<and> snd (distancesOfD options constraints) ! i = Fin r)"
  using assms
  by (auto simp: distancesOfD_def calculateDistancesD_def weightedMatrixOfD_def applyWeightsD_def
       normalizeMatrixD_def buildDecisionMatrixD_def Let_def distanceToD_cases split: prod.splits)

lemma closenessOfD_nth:
  assumes "i < length options"
  shows "closenessOfD options constraints ! i =
           closenessD (fst (distancesOfD options constraints) ! i)
                      (snd (distancesOfD options constraints) ! i)"
  using assms length_distancesOfD[of options constraints]
  by (auto simp: closenessOfD_def calculateClosenessScoresD_def Let_def split: prod.splits)

lemma length_closenessOfD: "length (closenessOfD options constraints) = length options"
  using length_distancesOfD[of options constraints]
  by (auto simp: closenessOfD_def calculateClosenessScoresD_def Let_def split: prod.splits)

lemma closenessOfD_cases:
  assumes "i < length options"
  shows "closenessOfD options constraints ! i = NaN
         \<or> (\<exists>x. closenessOfD options constraints ! i = Fin x \<and> 0 \<le> x \<and> x \<le> 1)"
  unfolding closenessOfD_nth[OF assms]
  by (rule closenessD_cases[OF distancesOfD_cases(1)[OF assms] distancesOfD_cases(2)[OF assms]])

lemma closenessOfD_finite:
  assumes "i < length options"
      and "isFinite (fst (distancesOfD options constraints) ! i)"
      and "isFinite (snd (distancesOfD options constraints) ! i)"
  shows "\<exists>x. closenessOfD options constraints ! i = Fin x \<and> 0 \<le> x \<and> x \<le> 1"
proof -
  obtain a where a: "0 \<le> a" "fst (distancesOfD options constraints) ! i = Fin a"
    using distancesOfD_cases(1)[OF assms(1), of constraints] assms(2) by auto
  obtain b where b: "0 \<le> b" "snd (distancesOfD options constraints) ! i = Fin b"
    using distancesOfD_cases(2)[OF assms(1), of constraints] assms(3) by auto
  show ?thesis
    unfolding closenessOfD_nth[OF assms(1)] a(2) b(2) by (rule closenessD_Fin[OF a(1) b(1)])
qed

lemma set_js_insertD: "set (js_insertD cmp x ys) = insert x (set ys)"
  by (induction ys) auto

lemma set_js_sortD: "set (js_sortD cmp xs) = set xs"
  by (induction xs) (auto simp: js_sortD_def set_js_insertD)

lemma length_js_insertD: "length (js_insertD cmp x ys) = Suc (length ys)"
  by (induction ys) auto

lemma length_js_sortD: "length (js_sortD cmp xs) = length xs"
  by (induction xs) (auto simp: js_sortD_def length_js_insertD)

lemma indexedRankingsD_eq:
  "indexedRankingsD options closeness =
     map (\<lambda>i. (options ! i, i, closeness ! i)) [0..<length options]"
  by (rule nth_equalityI) (simp_all add: indexedRankingsD_def nth_enumerate_eq)

lemma length_sortedItemsD: "length (sortedItemsD options closeness) = length options"
  by (simp add: sortedItemsD_def length_js_sortD indexedRankingsD_eq)

lemma length_generateRankingsD:
  "length (generateRankingsD options closeness W constraints) = length options"
  by (simp add: generateRankingsD_def Let_def length_js_sortD indexedRankingsD_eq)

lemma generateRankingsD_nth:
  assumes "k < length options"
  shows "generateRankingsD options closeness W constraints ! k =
     \<lparr> optionD = fst (sortedItemsD options closeness ! k),
       rankD = real k + 1,
       closenessScoreD = snd (snd (sortedItemsD options closeness ! k)),
       strengthAreasD =
         TOPSIS_identifyStrengthsD (fst (snd (sortedItemsD options closeness ! k))) W constraints,
       weaknessAreasD =
         TOPSIS_identifyWeaknessesD (fst (snd (sortedItemsD options closeness ! k))) W constraints \<rparr>"
  using assms length_sortedItemsD[of options closeness]
  by (simp add: generateRankingsD_def Let_def nth_enumerate_eq sortedItemsD_def)

lemma generateRankingsD_pairs:
  "map (\<lambda>r. (optionD r, closenessScoreD r)) (generateRankingsD options closeness W constraints) =
   map (\<lambda>item. (fst item, snd (snd item))) (sortedItemsD options closeness)"
  by (rule nth_equalityI)
     (simp_all add: length_generateRankingsD length_sortedItemsD generateRankingsD_nth)

lemma generateRankingsD_rank:
  "map rankD (generateRankingsD options closeness W constraints) =
   map real [1..<Suc (length options)]"
  by (rule nth_equalityI)
     (simp_all add: length_generateRankingsD generateRankingsD_nth nth_append del: upt_Suc)

lemma generateRankingsD_set:
  "(\<lambda>r. (optionD r, closenessScoreD r)) ` set (generateRankingsD options closeness W constraints) =
   (\<lambda>i. (options ! i, closeness ! i)) ` {0..<length options}"
proof -
  have "(\<lambda>r. (optionD r, closenessScoreD r)) ` set (generateRankingsD options closeness W constraints) =
        set (map (\<lambda>r. (optionD r, closenessScoreD r)) (generateRankingsD options closeness W constraints))"
    by simp
  also have "\<dots> = (\<lambda>item. (fst item, snd (snd item))) ` set (indexedRankingsD options closeness)"
    unfolding generateRankingsD_pairs by (simp add: sortedItemsD_def set_js_sortD)
  also have "\<dots> = (\<lambda>i. (options ! i, closeness ! i)) ` {0..<length options}"
    by (simp add: indexedRankingsD_eq image_image)
  finally show ?thesis .
qed

subsection \<open>C4: closeness scores\<close>

text \<open>
  C4, as the code has it. Whenever \<open>calculateScoresD\<close> succeeds, every closeness score of
  the result, in the rankings and in the closeness Map, is NaN or lies between 0 and 1. The
  score of an option lies between 0 and 1 whenever its distances to the ideal and to the
  negative-ideal point are both finite, and is exactly 1 when both distances are 0; every
  option has a ranking that carries its score.
\<close>

theorem closeness_unit_interval_unless_NaN:
  assumes "calculateScoresD m options constraints = Inr res"
  shows "(\<forall>r \<in> set (rankingsD res).
            closenessScoreD r = NaN
            \<or> (\<exists>x. closenessScoreD r = Fin x \<and> 0 \<le> x \<and> x \<le> 1))
       \<and> (\<forall>v \<in> snd ` set (closenessScoresD res).
            v = NaN \<or> (\<exists>x. v = Fin x \<and> 0 \<le> x \<and> x \<le> 1))
       \<and> (\<forall>i < length options.
             isFinite (fst (distancesOfD options constraints) ! i) \<and>
             isFinite (snd (distancesOfD options constraints) ! i) \<longrightarrow>
             (\<exists>x. closenessOfD options constraints ! i = Fin x \<and> 0 \<le> x \<and> x \<le> 1))
       \<and> (\<forall>i < length options.
             fst (distancesOfD options constraints) ! i = Fin 0 \<and>
             snd (distancesOfD options constraints) ! i = Fin 0 \<longrightarrow>
             closenessOfD options constraints ! i = Fin 1)
       \<and> (\<forall>i < length options.
             \<exists>r \<in> set (rankingsD res).
               optionD r = options ! i \<and> closenessScoreD r = closenessOfD options constraints ! i)"
proof (intro conjI ballI allI impI)
  let ?cl = "closenessOfD options constraints"
  let ?W = "weightedMatrixOfD options constraints"
  have R: "rankingsD res = generateRankingsD options ?cl ?W constraints"
    by (rule calculateScoresD_Inr(2)[OF assms])
  { fix r assume "r \<in> set (rankingsD res)"
    then have "(optionD r, closenessScoreD r) \<in>
               (\<lambda>i. (options ! i, ?cl ! i)) ` {0..<length options}"
      using imageI[of r "set (rankingsD res)" "\<lambda>r. (optionD r, closenessScoreD r)"]
      unfolding R generateRankingsD_set by simp
    then obtain i where "i < length options" "closenessScoreD r = ?cl ! i" by auto
    then show "closenessScoreD r = NaN
               \<or> (\<exists>x. closenessScoreD r = Fin x \<and> 0 \<le> x \<and> x \<le> 1)"
      using closenessOfD_cases[of i options constraints] by simp }
  { fix v assume "v \<in> snd ` set (closenessScoresD res)"
    then have "v \<in> (\<lambda>i. ?cl ! i) ` {0..<0 + length options}"
      using closenessMap_values[of ?cl 0 options "[]"]
      unfolding calculateScoresD_Inr(3)[OF assms] by auto
    then obtain i where "i < length options" "v = ?cl ! i" by auto
    then show "v = NaN \<or> (\<exists>x. v = Fin x \<and> 0 \<le> x \<and> x \<le> 1)"
      using closenessOfD_cases[of i options constraints] by simp }
  { fix i assume i: "i < length options"
      and f: "isFinite (fst (distancesOfD options constraints) ! i) \<and>
              isFinite (snd (distancesOfD options constraints) ! i)"
    show "\<exists>x. ?cl ! i = Fin x \<and> 0 \<le> x \<and> x \<le> 1"
      using closenessOfD_finite[OF i] f by blast }
  { fix i assume i: "i < length options"
      and z: "fst (distancesOfD options constraints) ! i = Fin 0 \<and>
              snd (distancesOfD options constraints) ! i = Fin 0"
    show "?cl ! i = Fin 1"
      using z by (simp add: closenessOfD_nth[OF i] closenessD_zero) }
  { fix i assume i: "i < length options"
    have "(options ! i, ?cl ! i) \<in>
          (\<lambda>r. (optionD r, closenessScoreD r)) ` set (rankingsD res)"
      unfolding R generateRankingsD_set using i by auto
    then show "\<exists>r \<in> set (rankingsD res). optionD r = options ! i \<and> closenessScoreD r = ?cl ! i"
      by auto }
qed

lemma wSel:
  "weight wMax = Fin 100" "direction wMax = maximize" "constraint_id wMax = ''c''"
  "scores wOptA ''c'' = Some (Fin 3)" "scores wOptA2 ''c'' = Some (Fin 3)"
  "scores wOptB ''c'' = Some (Fin 4)"
  by (simp_all add: wMax_def wOptA_def wOptA2_def wOptB_def)

lemma wSelHuge:
  "weight wHuge = Fin hugeWeight" "direction wHuge = maximize" "constraint_id wHuge = ''c''"
  by (simp_all add: wHuge_def)

lemma wValidHuge: "isValid (TOPSIS_validateInputs [wOptA, wOptB] [wHuge])"
  by (simp add: TOPSIS_validateInputs_def scoreErrors_def weightErrors_def wSel wSelHuge Let_def)

lemma sqrt25: "sqrt 25 = 5"
  using real_sqrt_abs[of 5] by simp

lemma js_add_0_toDouble: "js_add (Fin 0) (toDouble q) = toDouble q"
  by (simp add: toDouble_def)

lemma wNormalizedD:
  assumes "constraint_id k = ''c''"
  shows "normalizeMatrixD (buildDecisionMatrixD [wOptA, wOptB] [k]) [k] =
           [[Fin (3 / 5)], [Fin (4 / 5)]]"
  by (simp add: normalizeMatrixD_def buildDecisionMatrixD_def columnSumSquaresD_def Let_def
        assms wSel sqrt25 toDouble_small js_gt_def)

lemma wWeightedD:
  assumes "constraint_id k = ''c''" "weight k = Fin w" "0 < w" "w < overflowThreshold"
  shows "weightedMatrixOfD [wOptA, wOptB] [k] = [[Fin (3 * w / 500)], [Fin (4 * w / 500)]]"
proof -
  have a: "toDouble (w / 100) = Fin (w / 100)"
    using assms(3,4) by (intro toDouble_Fin) simp
  have b: "toDouble (3 / 5 * (w / 100)) = Fin (3 * w / 500)"
          "toDouble (4 / 5 * (w / 100)) = Fin (4 * w / 500)"
    using assms(3,4) toDouble_Fin[of "3 * w / 500"] toDouble_Fin[of "4 * w / 500"] by simp_all
  show ?thesis
    unfolding weightedMatrixOfD_def wNormalizedD[OF assms(1)]
    using a b by (simp add: applyWeightsD_def Let_def assms(2))
qed

lemma wDistancesD:
  assumes "direction k = maximize" "x < y" "\<bar>x\<bar> < overflowThreshold" "\<bar>y\<bar> < overflowThreshold"
    "y - x < overflowThreshold"
  shows "(let (ideal, negativeIdeal) = calculateIdealSolutionsD [[Fin x], [Fin y]] [k]
          in calculateDistancesD [[Fin x], [Fin y]] ideal negativeIdeal) =
         ([js_sqrt (toDouble ((y - x) * (y - x))), Fin 0],
          [Fin 0, js_sqrt (toDouble ((y - x) * (y - x)))])"
proof -
  have i: "calculateIdealSolutionsD [[Fin x], [Fin y]] [k] = ([Fin y], [Fin x])"
    using assms(2)
    by (simp add: calculateIdealSolutionsD_def Math_maxD_def Math_minD_def js_max_def js_min_def
          Let_def assms(1))
  have s: "js_sub (Fin x) (Fin y) = Fin (x - y)" "js_sub (Fin y) (Fin x) = Fin (y - x)"
          "js_sub (Fin x) (Fin x) = Fin 0" "js_sub (Fin y) (Fin y) = Fin 0"
    using assms(2,5) toDouble_Fin[of "x - y"] toDouble_Fin[of "y - x"]
    by (simp_all add: js_sub_def toDouble_small)
  have m: "js_mul (Fin (x - y)) (Fin (x - y)) = toDouble ((y - x) * (y - x))"
          "js_mul (Fin (y - x)) (Fin (y - x)) = toDouble ((y - x) * (y - x))"
          "js_mul (Fin 0) (Fin 0) = Fin 0"
    by (simp_all add: toDouble_small algebra_simps)
  have z: "js_add (Fin 0) (Fin 0) = Fin 0" by (simp add: toDouble_small)
  have d: "distanceToD [Fin x] [Fin y] = js_sqrt (toDouble ((y - x) * (y - x)))"
          "distanceToD [Fin y] [Fin x] = js_sqrt (toDouble ((y - x) * (y - x)))"
          "distanceToD [Fin x] [Fin x] = Fin 0"
          "distanceToD [Fin y] [Fin y] = Fin 0"
    by (simp_all add: distanceToD_def Let_def s m z js_add_0_toDouble del: js_mul.simps js_add.simps)
  show ?thesis
    unfolding i by (simp add: calculateDistancesD_def d)
qed

lemma wDistancesOfD:
  assumes "constraint_id k = ''c''" "direction k = maximize" "weight k = Fin w"
    "0 < w" "w < overflowThreshold"
  shows "distancesOfD [wOptA, wOptB] [k] =
         ([js_sqrt (toDouble (w / 500 * (w / 500))), Fin 0],
          [Fin 0, js_sqrt (toDouble (w / 500 * (w / 500)))])"
proof -
  have e: "4 * w / 500 - 3 * w / 500 = w / 500" by simp
  have b: "3 * w / 500 < 4 * w / 500" "\<bar>3 * w / 500\<bar> < overflowThreshold"
    "\<bar>4 * w / 500\<bar> < overflowThreshold" "4 * w / 500 - 3 * w / 500 < overflowThreshold"
    using assms(4,5) by simp_all
  show ?thesis
    unfolding distancesOfD_def Let_def wWeightedD[OF assms(1,3,4,5)]
    by (rule wDistancesD[OF assms(2) b, unfolded Let_def e])
qed

lemma hugeWeight_overflow: "toDouble (hugeWeight / 500 * (hugeWeight / 500)) = PosInf"
proof (rule toDouble_PosInf)
  have p: "0 \<le> hugeWeight" using hugeWeight_ge by simp
  have "10000000 * hugeWeight \<le> hugeWeight * hugeWeight"
    using mult_right_mono[OF hugeWeight_ge p] .
  then have "10 * hugeWeight \<le> hugeWeight / 500 * (hugeWeight / 500)"
    using p by simp
  then show "overflowThreshold \<le> hugeWeight / 500 * (hugeWeight / 500)"
    using overflowThreshold_bounds(3) by linarith
qed

lemma hugeWeight_pos: "0 < hugeWeight"
  using hugeWeight_ge by simp

lemma wDistancesHuge: "distancesOfD [wOptA, wOptB] [wHuge] = ([PosInf, Fin 0], [Fin 0, PosInf])"
  unfolding wDistancesOfD[OF wSelHuge(3,2,1) hugeWeight_pos overflowThreshold_bounds(2)]
    hugeWeight_overflow
  by simp

lemma wClosenessHuge: "closenessOfD [wOptA, wOptB] [wHuge] = [Fin 0, NaN]"
  by (simp add: closenessOfD_def wDistancesHuge calculateClosenessScoresD_def closenessD_def Let_def)

lemma wDistancesMaxD:
  "distancesOfD [wOptA, wOptB] [wMax] = ([Fin (1 / 5), Fin 0], [Fin 0, Fin (1 / 5)])"
proof -
  have "toDouble (100 / 500 * (100 / 500)) = Fin (1 / 25)"
    using toDouble_small[of "1 / 25"] by simp
  moreover have "sqrt (1 / 25) = 1 / 5"
    by (simp add: real_sqrt_divide sqrt25)
  moreover have w: "(0::real) < 100" "(100::real) < overflowThreshold"
    using overflowThreshold_bounds(1) by simp_all
  ultimately show ?thesis
    unfolding wDistancesOfD[OF wSel(3,2,1) w] by simp
qed

lemma wClosenessMaxD: "closenessOfD [wOptA, wOptB] [wMax] = [Fin 0, Fin 1]"
  by (simp add: closenessOfD_def wDistancesMaxD calculateClosenessScoresD_def closenessD_def
        toDouble_small Let_def)

lemma wRankedNaN:
  "map (\<lambda>r. (optionD r, rankD r, closenessScoreD r))
       (generateRankingsD [x, y] [Fin 0, NaN] W cs) = [(x, 1, Fin 0), (y, 2, NaN)]"
  by (simp add: generateRankingsD_def indexedRankingsD_def js_sortD_def js_sub_def Let_def)

lemma wRankedMaxD:
  "map (\<lambda>r. (optionD r, rankD r, closenessScoreD r))
       (generateRankingsD [x, y] [Fin 0, Fin 1] W cs) = [(y, 1, Fin 1), (x, 2, Fin 0)]"
  by (simp add: generateRankingsD_def indexedRankingsD_def js_sortD_def js_sub_def toDouble_small
        Let_def)

text \<open>
  C4 as stated fails. Options \<open>a\<close> and \<open>b\<close> with scores 3 and 4 on a single criterion of
  weight \<open>10 ^ 308\<close> pass validation. The weighted values differ by \<open>2 * 10 ^ 305\<close>, whose
  square overflows: \<open>a\<close> is at infinite distance from the ideal point and \<open>b\<close> from the
  negative-ideal point, and the closeness score of \<open>b\<close> is infinity over infinity, NaN.
\<close>

theorem closeness_overflow_counterexample:
  "hugeWeight = 10 ^ 308
   \<and> weight wHuge = Fin hugeWeight
   \<and> isValid (TOPSIS_validateInputs [wOptA, wOptB] [wHuge])
   \<and> \<not> isl (calculateScoresD defaultMethodology [wOptA, wOptB] [wHuge])
   \<and> distancesOfD [wOptA, wOptB] [wHuge] = ([PosInf, Fin 0], [Fin 0, PosInf])
   \<and> map (\<lambda>r. (option_id (optionD r), closenessScoreD r))
         (rankingsD (projr (calculateScoresD defaultMethodology [wOptA, wOptB] [wHuge]))) =
       [(''a'', Fin 0), (''b'', NaN)]
   \<and> closenessScoresD (projr (calculateScoresD defaultMethodology [wOptA, wOptB] [wHuge])) =
       [(''a'', Fin 0), (''b'', NaN)]"
proof -
  obtain res where r: "calculateScoresD defaultMethodology [wOptA, wOptB] [wHuge] = Inr res"
    using calculateScoresD_valid[OF wValidHuge] by blast
  have "map (\<lambda>r. (optionD r, rankD r, closenessScoreD r)) (rankingsD res) =
        [(wOptA, 1, Fin 0), (wOptB, 2, NaN)]"
    unfolding calculateScoresD_Inr(2)[OF r] wClosenessHuge by (rule wRankedNaN)
  then have "map ((\<lambda>t. (option_id (fst t), snd (snd t))) \<circ> (\<lambda>r. (optionD r, rankD r, closenessScoreD r)))
                 (rankingsD res) = [(''a'', Fin 0), (''b'', NaN)]"
    unfolding map_map[symmetric] by (simp add: wOptA_def wOptB_def)
  then have a: "map (\<lambda>r. (option_id (optionD r), closenessScoreD r)) (rankingsD res) =
                [(''a'', Fin 0), (''b'', NaN)]"
    by (simp add: comp_def)
  have b: "closenessScoresD res = [(''a'', Fin 0), (''b'', NaN)]"
    unfolding calculateScoresD_Inr(3)[OF r] wClosenessHuge by (simp add: wOptA_def wOptB_def)
  show ?thesis
    using a b by (simp add: r wValidHuge wDistancesHuge wSelHuge hugeWeight_def)
qed

lemma wDistancesZeroD:
  "distancesOfD [wOptA, wOptA2] [wMax] = ([Fin 0, Fin 0], [Fin 0, Fin 0])"
proof -
  have "1 \<le> sqrt 18" by simp
  then have "\<bar>3 / sqrt 18\<bar> \<le> 3" by (simp add: field_simps)
  then have v: "toDouble (3 / sqrt 18) = Fin (3 / sqrt 18)"
    by (intro toDouble_small) simp
  have n: "normalizeMatrixD (buildDecisionMatrixD [wOptA, wOptA2] [wMax]) [wMax] =
           [[Fin (3 / sqrt 18)], [Fin (3 / sqrt 18)]]"
    by (simp add: normalizeMatrixD_def buildDecisionMatrixD_def columnSumSquaresD_def Let_def
          wSel toDouble_small js_gt_def v)
  have w: "weightedMatrixOfD [wOptA, wOptA2] [wMax] = [[Fin (3 / sqrt 18)], [Fin (3 / sqrt 18)]]"
    unfolding weightedMatrixOfD_def n
    by (simp add: applyWeightsD_def Let_def wSel toDouble_small v)
  have i: "calculateIdealSolutionsD [[Fin (3 / sqrt 18)], [Fin (3 / sqrt 18)]] [wMax] =
           ([Fin (3 / sqrt 18)], [Fin (3 / sqrt 18)])"
    by (simp add: calculateIdealSolutionsD_def Math_maxD_def Math_minD_def js_max_def js_min_def
          Let_def wSel)
  show ?thesis
    unfolding distancesOfD_def Let_def w i
    by (simp add: calculateDistancesD_def distanceToD_def js_sub_def toDouble_small)
qed

text \<open>
  Scores 3 and 4 under weight 100: the distances are 1/5 and 0, the closeness scores 0
  and 1. Two options with the same score: all distances are 0 and the closeness score is 1.
\<close>

theorem closeness_unit_interval_unless_NaN_witness:
  "(\<exists>res. calculateScoresD defaultMethodology [wOptA, wOptB] [wMax] = Inr res
      \<and> (\<forall>r \<in> set (rankingsD res).
            closenessScoreD r = NaN
            \<or> (\<exists>x. closenessScoreD r = Fin x \<and> 0 \<le> x \<and> x \<le> 1))
      \<and> distancesOfD [wOptA, wOptB] [wMax] = ([Fin (1 / 5), Fin 0], [Fin 0, Fin (1 / 5)])
      \<and> closenessOfD [wOptA, wOptB] [wMax] = [Fin 0, Fin 1]
      \<and> (\<exists>r \<in> set (rankingsD res). optionD r = wOptB \<and> closenessScoreD r = Fin 1))
   \<and> (\<exists>res. calculateScoresD defaultMethodology [wOptA, wOptA2] [wMax] = Inr res
      \<and> distancesOfD [wOptA, wOptA2] [wMax] = ([Fin 0, Fin 0], [Fin 0, Fin 0])
      \<and> closenessOfD [wOptA, wOptA2] [wMax] ! 0 = Fin 1
      \<and> (\<exists>r \<in> set (rankingsD res). optionD r = wOptA \<and> closenessScoreD r = Fin 1))"
proof (intro conjI)
  obtain res where r: "calculateScoresD defaultMethodology [wOptA, wOptB] [wMax] = Inr res"
    using calculateScoresD_valid[OF wValid] by blast
  note t = closeness_unit_interval_unless_NaN[OF r]
  have a: "\<forall>r \<in> set (rankingsD res).
            closenessScoreD r = NaN
            \<or> (\<exists>x. closenessScoreD r = Fin x \<and> 0 \<le> x \<and> x \<le> 1)"
    using t by (rule conjunct1)
  from t have q: "\<And>i. i < length [wOptA, wOptB] \<Longrightarrow> \<exists>r \<in> set (rankingsD res).
          optionD r = [wOptA, wOptB] ! i \<and> closenessScoreD r = closenessOfD [wOptA, wOptB] [wMax] ! i"
    by blast
  have b: "\<exists>r \<in> set (rankingsD res). optionD r = wOptB \<and> closenessScoreD r = Fin 1"
    using q[of 1] by (simp add: wClosenessMaxD)
  show "\<exists>res. calculateScoresD defaultMethodology [wOptA, wOptB] [wMax] = Inr res
      \<and> (\<forall>r \<in> set (rankingsD res).
            closenessScoreD r = NaN
            \<or> (\<exists>x. closenessScoreD r = Fin x \<and> 0 \<le> x \<and> x \<le> 1))
      \<and> distancesOfD [wOptA, wOptB] [wMax] = ([Fin (1 / 5), Fin 0], [Fin 0, Fin (1 / 5)])
      \<and> closenessOfD [wOptA, wOptB] [wMax] = [Fin 0, Fin 1]
      \<and> (\<exists>r \<in> set (rankingsD res). optionD r = wOptB \<and> closenessScoreD r = Fin 1)"
    by (rule exI[of _ res]) (intro conjI r a b wDistancesMaxD wClosenessMaxD)
next
  obtain res where r: "calculateScoresD defaultMethodology [wOptA, wOptA2] [wMax] = Inr res"
    using calculateScoresD_valid[OF wValid2] by blast
  note t = closeness_unit_interval_unless_NaN[OF r]
  have z: "fst (distancesOfD [wOptA, wOptA2] [wMax]) ! 0 = Fin 0 \<and>
           snd (distancesOfD [wOptA, wOptA2] [wMax]) ! 0 = Fin 0"
    by (simp add: wDistancesZeroD)
  have "\<forall>i < length [wOptA, wOptA2].
             fst (distancesOfD [wOptA, wOptA2] [wMax]) ! i = Fin 0 \<and>
             snd (distancesOfD [wOptA, wOptA2] [wMax]) ! i = Fin 0 \<longrightarrow>
             closenessOfD [wOptA, wOptA2] [wMax] ! i = Fin 1"
    using t by blast
  then have one: "closenessOfD [wOptA, wOptA2] [wMax] ! 0 = Fin 1"
    using z by simp
  from t have q: "\<And>i. i < length [wOptA, wOptA2] \<Longrightarrow> \<exists>r \<in> set (rankingsD res).
          optionD r = [wOptA, wOptA2] ! i \<and> closenessScoreD r = closenessOfD [wOptA, wOptA2] [wMax] ! i"
    by blast
  have b: "\<exists>r \<in> set (rankingsD res). optionD r = wOptA \<and> closenessScoreD r = Fin 1"
    using q[of 0] by (simp add: one)
  show "\<exists>res. calculateScoresD defaultMethodology [wOptA, wOptA2] [wMax] = Inr res
      \<and> distancesOfD [wOptA, wOptA2] [wMax] = ([Fin 0, Fin 0], [Fin 0, Fin 0])
      \<and> closenessOfD [wOptA, wOptA2] [wMax] ! 0 = Fin 1
      \<and> (\<exists>r \<in> set (rankingsD res). optionD r = wOptA \<and> closenessScoreD r = Fin 1)"
    by (rule exI[of _ res]) (intro conjI r wDistancesZeroD one b)
qed

subsection \<open>C5: order of the rankings\<close>

text \<open>
  On closeness scores that are all finite the comparator \<^verbatim>\<open>b.closenessScore - a.closenessScore\<close>
  is consistent, and the sort is the stable sort by descending score.
\<close>

lemma js_insertD_desc:
  assumes "\<forall>z \<in> set (x # ys). \<exists>r. f z = Fin r"
  shows "js_insertD (\<lambda>a b. js_sub (f b) (f a)) x ys = insort_key (\<lambda>z. - toReal (f z)) x ys"
  using assms
proof (induction ys)
  case Nil
  then show ?case by simp
next
  case (Cons y ys)
  obtain rx ry where f: "f x = Fin rx" "f y = Fin ry" using Cons.prems by auto
  have "js_insertD (\<lambda>a b. js_sub (f b) (f a)) x ys = insort_key (\<lambda>z. - toReal (f z)) x ys"
    using Cons by simp
  then show ?case
    by (simp add: f js_sub_def notPositive_toDouble)
qed

lemma js_sortD_desc:
  assumes "\<forall>z \<in> set xs. \<exists>r. f z = Fin r"
  shows "js_sortD (\<lambda>a b. js_sub (f b) (f a)) xs = sort_key (\<lambda>z. - toReal (f z)) xs"
  using assms
proof (induction xs)
  case Nil
  then show ?case by (simp add: js_sortD_def)
next
  case (Cons x xs)
  have ih: "js_sortD (\<lambda>a b. js_sub (f b) (f a)) xs = sort_key (\<lambda>z. - toReal (f z)) xs"
    using Cons by simp
  have "js_sortD (\<lambda>a b. js_sub (f b) (f a)) (x # xs) =
        js_insertD (\<lambda>a b. js_sub (f b) (f a)) x (sort_key (\<lambda>z. - toReal (f z)) xs)"
    using ih by (simp add: js_sortD_def)
  also have "\<dots> = insort_key (\<lambda>z. - toReal (f z)) x (sort_key (\<lambda>z. - toReal (f z)) xs)"
    using Cons.prems by (intro js_insertD_desc) simp
  finally show ?case by simp
qed

lemma indexedRankingsD_Fin:
  assumes "\<forall>i < length options. \<exists>r. closeness ! i = Fin r"
  shows "\<forall>z \<in> set (indexedRankingsD options closeness). \<exists>r. snd (snd z) = Fin r"
  using assms by (auto simp: indexedRankingsD_eq)

lemma sortedItemsD_desc:
  assumes "\<forall>i < length options. \<exists>r. closeness ! i = Fin r"
  shows "sortedItemsD options closeness =
         sort_key (\<lambda>z. - toReal (snd (snd z))) (indexedRankingsD options closeness)"
  unfolding sortedItemsD_def
  by (rule js_sortD_desc[where f = "\<lambda>z. snd (snd z)", OF indexedRankingsD_Fin[OF assms]])

lemma set_sortedItemsD:
  "set (sortedItemsD options closeness) = set (indexedRankingsD options closeness)"
  by (simp add: sortedItemsD_def set_js_sortD)

lemma sortedItemsD_sorted:
  assumes "\<forall>i < length options. \<exists>r. closeness ! i = Fin r"
  shows "sorted_wrt (\<lambda>a b. js_ge (snd (snd a)) (snd (snd b))) (sortedItemsD options closeness)"
proof -
  let ?S = "sortedItemsD options closeness"
  have s: "sorted (map (\<lambda>z. - toReal (snd (snd z))) ?S)"
    unfolding sortedItemsD_desc[OF assms] by (rule sorted_sort_key)
  have F: "\<forall>z \<in> set ?S. \<exists>r. snd (snd z) = Fin r"
    unfolding set_sortedItemsD by (rule indexedRankingsD_Fin[OF assms])
  show ?thesis
    unfolding sorted_wrt_iff_nth_less
  proof (intro allI impI)
    fix i j assume ij: "i < j" "j < length ?S"
    then have "- toReal (snd (snd (?S ! i))) \<le> - toReal (snd (snd (?S ! j)))"
      using s by (simp add: sorted_iff_nth_mono)
    moreover obtain a where a: "snd (snd (?S ! i)) = Fin a"
      using F ij by (meson less_trans nth_mem)
    moreover obtain b where b: "snd (snd (?S ! j)) = Fin b"
      using F ij by (meson nth_mem)
    ultimately show "js_ge (snd (snd (?S ! i))) (snd (snd (?S ! j)))"
      by (auto simp: js_ge_def)
  qed
qed

lemma generateRankingsD_sorted:
  assumes "\<forall>i < length options. \<exists>r. closeness ! i = Fin r"
  shows "sorted_wrt (\<lambda>a b. js_ge (closenessScoreD a) (closenessScoreD b))
           (generateRankingsD options closeness W constraints)"
proof -
  have "sorted_wrt (\<lambda>a b. js_ge (snd a) (snd b))
          (map (\<lambda>r. (optionD r, closenessScoreD r)) (generateRankingsD options closeness W constraints))"
    unfolding generateRankingsD_pairs using sortedItemsD_sorted[OF assms]
    by (simp add: sorted_wrt_map)
  then show ?thesis by (simp add: sorted_wrt_map)
qed

lemma sortedItemsD_stable:
  assumes "\<forall>i < length options. \<exists>r. closeness ! i = Fin r"
  shows "filter (\<lambda>item. snd (snd item) = v) (sortedItemsD options closeness) =
         filter (\<lambda>item. snd (snd item) = v) (indexedRankingsD options closeness)"
proof (cases "\<exists>r. v = Fin r")
  case True
  then obtain r where v: "v = Fin r" by blast
  let ?I = "indexedRankingsD options closeness"
  have F: "\<forall>z \<in> set ?I. \<exists>r. snd (snd z) = Fin r"
    by (rule indexedRankingsD_Fin[OF assms])
  have e: "\<And>z. z \<in> set ?I \<Longrightarrow> (snd (snd z) = v) = (- toReal (snd (snd z)) = - r)"
    using F v by auto
  have "filter (\<lambda>item. snd (snd item) = v) (sortedItemsD options closeness) =
        filter (\<lambda>item. - toReal (snd (snd item)) = - r) (sortedItemsD options closeness)"
    by (rule filter_cong[OF refl]) (simp add: set_sortedItemsD e)
  also have "\<dots> = filter (\<lambda>item. - toReal (snd (snd item)) = - r) ?I"
    unfolding sortedItemsD_desc[OF assms]
    by (rule sort_key_stable[of "\<lambda>z. - toReal (snd (snd z))" "- r" ?I])
  also have "\<dots> = filter (\<lambda>item. snd (snd item) = v) ?I"
    by (rule filter_cong[OF refl]) (simp add: e)
  finally show ?thesis .
next
  case False
  have "\<forall>z \<in> set (indexedRankingsD options closeness). snd (snd z) \<noteq> v"
    using indexedRankingsD_Fin[OF assms] False by metis
  then show ?thesis
    by (simp add: filter_empty_conv[THEN iffD2] set_sortedItemsD)
qed

lemma generateRankingsD_stable:
  assumes "\<forall>i < length options. \<exists>r. closeness ! i = Fin r"
  shows "map optionD (filter (\<lambda>r. closenessScoreD r = v)
                          (generateRankingsD options closeness W constraints)) =
         map (\<lambda>i. options ! i) (filter (\<lambda>i. closeness ! i = v) [0..<length options])"
proof -
  let ?R = "generateRankingsD options closeness W constraints"
  have "map optionD (filter (\<lambda>r. closenessScoreD r = v) ?R) =
        map fst (filter (\<lambda>p. snd p = v) (map (\<lambda>r. (optionD r, closenessScoreD r)) ?R))"
    by (simp add: filter_map comp_def)
  also have "\<dots> = map fst (filter (\<lambda>item. snd (snd item) = v) (sortedItemsD options closeness))"
    unfolding generateRankingsD_pairs by (simp add: filter_map comp_def)
  also have "\<dots> = map fst (filter (\<lambda>item. snd (snd item) = v) (indexedRankingsD options closeness))"
    unfolding sortedItemsD_stable[OF assms] ..
  also have "\<dots> = map (\<lambda>i. options ! i) (filter (\<lambda>i. closeness ! i = v) [0..<length options])"
    by (simp add: indexedRankingsD_eq filter_map comp_def)
  finally show ?thesis .
qed

lemma rankingsD_no_NaN:
  assumes "calculateScoresD m options constraints = Inr res"
      and "\<forall>r \<in> set (rankingsD res). closenessScoreD r \<noteq> NaN"
  shows "\<forall>i < length options. \<exists>x. closenessOfD options constraints ! i = Fin x"
proof (intro allI impI)
  fix i assume i: "i < length options"
  have "(options ! i, closenessOfD options constraints ! i) \<in>
        (\<lambda>r. (optionD r, closenessScoreD r)) ` set (rankingsD res)"
    unfolding calculateScoresD_Inr(2)[OF assms(1)] generateRankingsD_set using i by auto
  then have "closenessOfD options constraints ! i \<noteq> NaN"
    using assms(2) by auto
  then show "\<exists>x. closenessOfD options constraints ! i = Fin x"
    using closenessOfD_cases[OF i, of constraints] by auto
qed

text \<open>
  C5, as the code has it. In the result of \<open>calculateScoresD\<close> the rank fields are
  1, 2, ..., N in list order. When no closeness score of the rankings is NaN, the rankings
  are ordered by closeness score, non-increasing, and the options that share a closeness
  score appear in the order of the input.
\<close>

theorem rankings_dense_and_ordered_unless_NaN:
  assumes "calculateScoresD m options constraints = Inr res"
  shows "map rankD (rankingsD res) = map real [1..<Suc (length options)]
       \<and> ((\<forall>r \<in> set (rankingsD res). closenessScoreD r \<noteq> NaN) \<longrightarrow>
            sorted_wrt (\<lambda>a b. js_ge (closenessScoreD a) (closenessScoreD b)) (rankingsD res)
            \<and> (\<forall>v. map optionD (filter (\<lambda>r. closenessScoreD r = v) (rankingsD res)) =
                    map (\<lambda>i. options ! i)
                        (filter (\<lambda>i. closenessOfD options constraints ! i = v)
                                [0..<length options])))"
proof (intro conjI impI allI)
  show "map rankD (rankingsD res) = map real [1..<Suc (length options)]"
    unfolding calculateScoresD_Inr(2)[OF assms] by (rule generateRankingsD_rank)
next
  assume n: "\<forall>r \<in> set (rankingsD res). closenessScoreD r \<noteq> NaN"
  show "sorted_wrt (\<lambda>a b. js_ge (closenessScoreD a) (closenessScoreD b)) (rankingsD res)"
    unfolding calculateScoresD_Inr(2)[OF assms]
    by (rule generateRankingsD_sorted[OF rankingsD_no_NaN[OF assms n]])
next
  fix v
  assume n: "\<forall>r \<in> set (rankingsD res). closenessScoreD r \<noteq> NaN"
  show "map optionD (filter (\<lambda>r. closenessScoreD r = v) (rankingsD res)) =
        map (\<lambda>i. options ! i)
            (filter (\<lambda>i. closenessOfD options constraints ! i = v) [0..<length options])"
    unfolding calculateScoresD_Inr(2)[OF assms]
    by (rule generateRankingsD_stable[OF rankingsD_no_NaN[OF assms n]])
qed

text \<open>
  C5 as stated fails on the input with weight \<open>10 ^ 308\<close>: the rankings are \<open>a\<close> with
  closeness score 0, then \<open>b\<close> with NaN, and \<^verbatim>\<open>0 >= NaN\<close> is false.
\<close>

theorem rankings_overflow_counterexample:
  "isValid (TOPSIS_validateInputs [wOptA, wOptB] [wHuge])
   \<and> \<not> isl (calculateScoresD defaultMethodology [wOptA, wOptB] [wHuge])
   \<and> map (\<lambda>r. (option_id (optionD r), rankD r, closenessScoreD r))
         (rankingsD (projr (calculateScoresD defaultMethodology [wOptA, wOptB] [wHuge]))) =
       [(''a'', 1, Fin 0), (''b'', 2, NaN)]
   \<and> \<not> js_ge (Fin 0) NaN
   \<and> \<not> sorted_wrt (\<lambda>a b. js_ge (closenessScoreD a) (closenessScoreD b))
         (rankingsD (projr (calculateScoresD defaultMethodology [wOptA, wOptB] [wHuge])))"
proof -
  obtain res where r: "calculateScoresD defaultMethodology [wOptA, wOptB] [wHuge] = Inr res"
    using calculateScoresD_valid[OF wValidHuge] by blast
  have m: "map (\<lambda>r. (optionD r, rankD r, closenessScoreD r)) (rankingsD res) =
        [(wOptA, 1, Fin 0), (wOptB, 2, NaN)]"
    unfolding calculateScoresD_Inr(2)[OF r] wClosenessHuge by (rule wRankedNaN)
  then have "map ((\<lambda>t. (option_id (fst t), snd t)) \<circ> (\<lambda>r. (optionD r, rankD r, closenessScoreD r)))
                 (rankingsD res) = [(''a'', 1, Fin 0), (''b'', 2, NaN)]"
    unfolding map_map[symmetric] by (simp add: wOptA_def wOptB_def)
  then have a: "map (\<lambda>r. (option_id (optionD r), rankD r, closenessScoreD r)) (rankingsD res) =
                [(''a'', 1, Fin 0), (''b'', 2, NaN)]"
    by (simp add: comp_def)
  have b: "\<not> sorted_wrt (\<lambda>a b. js_ge (closenessScoreD a) (closenessScoreD b)) (rankingsD res)"
    using m by (auto simp: map_eq_Cons_conv js_ge_def)
  show ?thesis
    using a b by (simp add: r wValidHuge js_ge_def)
qed

lemma wClosenessZeroD: "closenessOfD [wOptA, wOptA2] [wMax] = [Fin 1, Fin 1]"
  by (simp add: closenessOfD_def wDistancesZeroD calculateClosenessScoresD_def closenessD_def
        toDouble_small Let_def)

text \<open>
  Scores 3 and 4 under weight 100: the second option is ranked first. Two options tied at
  closeness 1 keep their input order, with ranks 1 and 2.
\<close>

theorem rankings_dense_and_ordered_unless_NaN_witness:
  "(\<exists>res. calculateScoresD defaultMethodology [wOptA, wOptB] [wMax] = Inr res
      \<and> (\<forall>r \<in> set (rankingsD res). closenessScoreD r \<noteq> NaN)
      \<and> closenessOfD [wOptA, wOptB] [wMax] = [Fin 0, Fin 1]
      \<and> map rankD (rankingsD res) = [1, 2]
      \<and> sorted_wrt (\<lambda>a b. js_ge (closenessScoreD a) (closenessScoreD b)) (rankingsD res)
      \<and> map optionD (filter (\<lambda>r. closenessScoreD r = Fin 1) (rankingsD res)) = [wOptB]
      \<and> map optionD (filter (\<lambda>r. closenessScoreD r = Fin 0) (rankingsD res)) = [wOptA])
   \<and> (\<exists>res. calculateScoresD defaultMethodology [wOptA, wOptA2] [wMax] = Inr res
      \<and> (\<forall>r \<in> set (rankingsD res). closenessScoreD r \<noteq> NaN)
      \<and> closenessOfD [wOptA, wOptA2] [wMax] = [Fin 1, Fin 1]
      \<and> map rankD (rankingsD res) = [1, 2]
      \<and> map optionD (filter (\<lambda>r. closenessScoreD r = Fin 1) (rankingsD res)) = [wOptA, wOptA2])"
proof (intro conjI)
  obtain res where r: "calculateScoresD defaultMethodology [wOptA, wOptB] [wMax] = Inr res"
    using calculateScoresD_valid[OF wValid] by blast
  have m: "map (\<lambda>r. (optionD r, rankD r, closenessScoreD r)) (rankingsD res) =
        [(wOptB, 1, Fin 1), (wOptA, 2, Fin 0)]"
    unfolding calculateScoresD_Inr(2)[OF r] wClosenessMaxD by (rule wRankedMaxD)
  have n: "\<forall>r \<in> set (rankingsD res). closenessScoreD r \<noteq> NaN"
    using m by (auto simp: map_eq_Cons_conv)
  note t = rankings_dense_and_ordered_unless_NaN[OF r]
  have a: "map rankD (rankingsD res) = [1, 2]"
    using t by (simp add: upt_rec)
  from t n have c: "sorted_wrt (\<lambda>a b. js_ge (closenessScoreD a) (closenessScoreD b)) (rankingsD res)"
    by blast
  from t n have s: "\<And>v. map optionD (filter (\<lambda>r. closenessScoreD r = v) (rankingsD res)) =
        map (\<lambda>i. [wOptA, wOptB] ! i)
            (filter (\<lambda>i. closenessOfD [wOptA, wOptB] [wMax] ! i = v) [0..<length [wOptA, wOptB]])"
    by blast
  have b1: "map optionD (filter (\<lambda>r. closenessScoreD r = Fin 1) (rankingsD res)) = [wOptB]"
    unfolding s by (simp add: wClosenessMaxD upt_rec)
  have b0: "map optionD (filter (\<lambda>r. closenessScoreD r = Fin 0) (rankingsD res)) = [wOptA]"
    unfolding s by (simp add: wClosenessMaxD upt_rec)
  show "\<exists>res. calculateScoresD defaultMethodology [wOptA, wOptB] [wMax] = Inr res
      \<and> (\<forall>r \<in> set (rankingsD res). closenessScoreD r \<noteq> NaN)
      \<and> closenessOfD [wOptA, wOptB] [wMax] = [Fin 0, Fin 1]
      \<and> map rankD (rankingsD res) = [1, 2]
      \<and> sorted_wrt (\<lambda>a b. js_ge (closenessScoreD a) (closenessScoreD b)) (rankingsD res)
      \<and> map optionD (filter (\<lambda>r. closenessScoreD r = Fin 1) (rankingsD res)) = [wOptB]
      \<and> map optionD (filter (\<lambda>r. closenessScoreD r = Fin 0) (rankingsD res)) = [wOptA]"
    by (rule exI[of _ res]) (intro conjI r n wClosenessMaxD a c b1 b0)
next
  obtain res where r: "calculateScoresD defaultMethodology [wOptA, wOptA2] [wMax] = Inr res"
    using calculateScoresD_valid[OF wValid2] by blast
  have n: "\<forall>r \<in> set (rankingsD res). closenessScoreD r \<noteq> NaN"
  proof
    fix x assume "x \<in> set (rankingsD res)"
    then have "(optionD x, closenessScoreD x) \<in>
               (\<lambda>i. ([wOptA, wOptA2] ! i, closenessOfD [wOptA, wOptA2] [wMax] ! i)) `
                 {0..<length [wOptA, wOptA2]}"
      using imageI[of x "set (rankingsD res)" "\<lambda>r. (optionD r, closenessScoreD r)"]
      unfolding calculateScoresD_Inr(2)[OF r] generateRankingsD_set by simp
    then show "closenessScoreD x \<noteq> NaN"
      by (auto simp: wClosenessZeroD nth_Cons split: nat.splits)
  qed
  note t = rankings_dense_and_ordered_unless_NaN[OF r]
  have a: "map rankD (rankingsD res) = [1, 2]"
    using t by (simp add: upt_rec)
  from t n have s: "\<And>v. map optionD (filter (\<lambda>r. closenessScoreD r = v) (rankingsD res)) =
        map (\<lambda>i. [wOptA, wOptA2] ! i)
            (filter (\<lambda>i. closenessOfD [wOptA, wOptA2] [wMax] ! i = v) [0..<length [wOptA, wOptA2]])"
    by blast
  have b: "map optionD (filter (\<lambda>r. closenessScoreD r = Fin 1) (rankingsD res)) = [wOptA, wOptA2]"
    unfolding s by (simp add: wClosenessZeroD upt_rec)
  show "\<exists>res. calculateScoresD defaultMethodology [wOptA, wOptA2] [wMax] = Inr res
      \<and> (\<forall>r \<in> set (rankingsD res). closenessScoreD r \<noteq> NaN)
      \<and> closenessOfD [wOptA, wOptA2] [wMax] = [Fin 1, Fin 1]
      \<and> map rankD (rankingsD res) = [1, 2]
      \<and> map optionD (filter (\<lambda>r. closenessScoreD r = Fin 1) (rankingsD res)) = [wOptA, wOptA2]"
    by (rule exI[of _ res]) (intro conjI r n wClosenessZeroD a b)
qed

subsection \<open>C1: weights rejected by validation\<close>

text \<open>A weight that is not finite is rejected with \<^verbatim>\<open>INVALID_WEIGHT\<close> when the other checks pass.\<close>

lemma weightErrors_bad:
  assumes "\<exists>c \<in> set constraints. \<not> isFinite (weight c)"
  shows "weightErrors constraints \<noteq> [] \<and> hd (weightErrors constraints) = INVALID_WEIGHT"
  using assms unfolding weightErrors_def by (induction constraints) auto

lemma isFinite_not_NaN: "isFinite s \<Longrightarrow> \<not> isNaN s"
  by (cases s) auto

lemma scoreErrors_empty:
  assumes "\<forall>opt \<in> set options. \<forall>c \<in> set constraints.
             \<exists>s. scores opt (constraint_id c) = Some s \<and> isFinite s"
  shows "scoreErrors options constraints = []"
  using assms unfolding scoreErrors_def
  by (fastforce split: option.splits dest: isFinite_not_NaN)

lemma nonfinite_weight_rejected:
  assumes "2 \<le> length options"
      and "\<forall>opt \<in> set options. \<forall>c \<in> set constraints.
             \<exists>s. scores opt (constraint_id c) = Some s \<and> isFinite s"
      and "\<exists>c \<in> set constraints. \<not> isFinite (weight c)"
  shows "calculateScores m options constraints = Inl INVALID_WEIGHT"
proof -
  have ne: "constraints \<noteq> []" using assms(3) by auto
  show ?thesis
    using assms(1) ne weightErrors_bad[OF assms(3)] scoreErrors_empty[OF assms(2)]
    by (simp add: calculateScores_def TOPSIS_validateInputs_def Let_def)
qed

lemma wSelC: "weight wNeg = Fin (- 10)" "constraint_id wNeg = ''c''" "direction wNeg = maximize"
  "weight wHalf = Fin 50" "constraint_id wHalf = ''c''" "direction wHalf = maximize"
  by (simp_all add: wNeg_def wHalf_def)

text \<open>
  C1. A negative weight is to be rejected with \<^verbatim>\<open>INVALID_WEIGHT\<close>. The weight loop of
  \<open>TOPSIS_validateInputs\<close> tests finiteness only: with a single criterion of weight -10
  and two complete options, validation reports no error and \<open>calculateScores\<close> succeeds.
\<close>

theorem negative_weight_accepted:
  "isValid (TOPSIS_validateInputs [wOptA, wOptB] [wNeg])
   \<and> errors (TOPSIS_validateInputs [wOptA, wOptB] [wNeg]) = []
   \<and> (\<exists>res. calculateScores defaultMethodology [wOptA, wOptB] [wNeg] = Inr res)
   \<and> calculateScores defaultMethodology [wOptA, wOptB] [wNeg] \<noteq> Inl INVALID_WEIGHT"
proof -
  have v: "TOPSIS_validateInputs [wOptA, wOptB] [wNeg] =
           \<lparr> isValid = True, errors = [], warnings = [''Constraint weights do not sum to 100%''] \<rparr>"
    by (simp add: TOPSIS_validateInputs_def scoreErrors_def weightErrors_def wSel wSelC
        totalWeight_def js_sub_def js_gt_def toDouble_small Let_def)
  then have "isValid (TOPSIS_validateInputs [wOptA, wOptB] [wNeg])" by simp
  from calculateScores_valid[OF this, of defaultMethodology] v show ?thesis by auto
qed

subsection \<open>C8: the weighting step\<close>

lemma wMatrixAB: "buildDecisionMatrix [wOptA, wOptB] [c] = [[toReal (rawScoreOr0 wOptA (constraint_id c))], [toReal (rawScoreOr0 wOptB (constraint_id c))]]"
  by (simp add: buildDecisionMatrix_def rawScoreOr0_def)

lemma wNormalizedAB: "normalizeMatrix [[3], [4]] [c] = [[3 / 5], [4 / 5]]"
  by (simp add: normalizeMatrix_def columnSumSquares_def Let_def sqrt25)

lemma wNormalizedHalf: "normalizedMatrixOf [wOptA, wOptB] [wHalf] = [[3 / 5], [4 / 5]]"
  by (simp add: normalizedMatrixOf_def wMatrixAB rawScoreOr0_def wSel wSelC wNormalizedAB)

lemma wWeightedHalf: "weightedMatrixOf [wOptA, wOptB] [wHalf] = [[3 / 10], [2 / 5]]"
  using wNormalizedHalf
  by (simp add: weightedMatrixOf_def normalizedMatrixOf_def applyWeights_def wSelC Let_def)

lemma wValidHalf:
  "TOPSIS_validateInputs [wOptA, wOptB] [wHalf] =
     \<lparr> isValid = True, errors = [], warnings = [''Constraint weights do not sum to 100%''] \<rparr>"
  by (simp add: TOPSIS_validateInputs_def scoreErrors_def weightErrors_def wSel wSelC
        totalWeight_def js_sub_def js_gt_def toDouble_small Let_def)

text \<open>
  With a single criterion of weight 50 the input is valid (validation only warns that the
  weights do not sum to 100); the first weighted entry is 3/10, whereas the normalized
  entry times weight over weight sum is 3/5.
\<close>

theorem weights_renormalized_counterexample:
  "isValid (TOPSIS_validateInputs [wOptA, wOptB] [wHalf])
   \<and> warnings (TOPSIS_validateInputs [wOptA, wOptB] [wHalf]) =
       [''Constraint weights do not sum to 100%'']
   \<and> weightedMatrixOf [wOptA, wOptB] [wHalf] ! 0 ! 0 = 3 / 10
   \<and> normalizedMatrixOf [wOptA, wOptB] [wHalf] ! 0 ! 0 *
       (toReal (weight ([wHalf] ! 0)) / toReal (totalWeight [wHalf])) = 3 / 5
   \<and> weightedMatrixOf [wOptA, wOptB] [wHalf] ! 0 ! 0 \<noteq>
       normalizedMatrixOf [wOptA, wOptB] [wHalf] ! 0 ! 0 *
       (toReal (weight ([wHalf] ! 0)) / toReal (totalWeight [wHalf]))"
  by (simp add: wValidHalf wWeightedHalf wNormalizedHalf wSelC totalWeight_def toDouble_small)

lemma weightedMatrixOf_nth:
  assumes "i < length options" "j < length constraints"
  shows "weightedMatrixOf options constraints ! i ! j =
         normalizedMatrixOf options constraints ! i ! j * (toReal (weight (constraints ! j)) / 100)"
  using assms
  by (simp add: weightedMatrixOf_def normalizedMatrixOf_def applyWeights_def
        normalizeMatrix_def buildDecisionMatrix_def Let_def)

text \<open>
  C8 (amended). The weights are applied as given, without re-normalization: the weighted
  matrix stored in the result has the entries \<open>N[i][j] * weight_j / 100\<close>. This is
  \<open>N[i][j] * weight_j / \<Sigma>\<^sub>k weight_k\<close> when the weights sum to 100.
\<close>

theorem weights_applied_as_given:
  assumes "calculateScores m options constraints = Inr res"
      and "i < length options" and "j < length constraints"
  shows "weightedScores res =
           buildScoreMap options constraints (weightedMatrixOf options constraints)
       \<and> normalizedScores res =
           buildScoreMap options constraints (normalizedMatrixOf options constraints)
       \<and> weightedMatrixOf options constraints ! i ! j =
           normalizedMatrixOf options constraints ! i ! j *
           (toReal (weight (constraints ! j)) / 100)
       \<and> (toReal (totalWeight constraints) = 100 \<longrightarrow>
            weightedMatrixOf options constraints ! i ! j =
            normalizedMatrixOf options constraints ! i ! j *
            (toReal (weight (constraints ! j)) / toReal (totalWeight constraints)))"
proof -
  have "weightedScores res =
           buildScoreMap options constraints (weightedMatrixOf options constraints)"
       "normalizedScores res =
           buildScoreMap options constraints (normalizedMatrixOf options constraints)"
    using assms(1)
    by (auto simp: calculateScores_def weightedMatrixOf_def normalizedMatrixOf_def Let_def
             split: if_splits prod.splits)
  then show ?thesis
    using weightedMatrixOf_nth[OF assms(2,3)] by simp
qed

theorem weights_applied_as_given_witness:
  "\<exists>res. calculateScores defaultMethodology [wOptA, wOptB] [wHalf] = Inr res
     \<and> (0::nat) < length [wOptA, wOptB] \<and> (0::nat) < length [wHalf]
     \<and> weightedScores res =
         buildScoreMap [wOptA, wOptB] [wHalf] (weightedMatrixOf [wOptA, wOptB] [wHalf])
     \<and> weightedMatrixOf [wOptA, wOptB] [wHalf] ! 0 ! 0 =
         normalizedMatrixOf [wOptA, wOptB] [wHalf] ! 0 ! 0 * (toReal (weight ([wHalf] ! 0)) / 100)"
proof -
  have "isValid (TOPSIS_validateInputs [wOptA, wOptB] [wHalf])" by (simp add: wValidHalf)
  then obtain res where r: "calculateScores defaultMethodology [wOptA, wOptB] [wHalf] = Inr res"
    using calculateScores_valid by blast
  have i: "(0::nat) < length [wOptA, wOptB]" and j: "(0::nat) < length [wHalf]" by simp_all
  from weights_applied_as_given[OF r i j] r i j show ?thesis by blast
qed

subsection \<open>C7: confidence of the recommendations\<close>

lemma generateOptionAnalyses_fold:
  "generateOptionAnalyses sr options constraints =
     fold (\<lambda>opt analyses.
            case find (\<lambda>r. option_id (option r) = option_id opt) (rankings sr) of
              None \<Rightarrow> analyses
            | Some ranking \<Rightarrow>
                AList.update (option_id opt) (analysisOf sr constraints opt ranking) analyses)
          options []"
  unfolding generateOptionAnalyses_def analysisOf_def by (rule refl)

lemma analyses_fold_inv:
  assumes "\<forall>(k, a) \<in> set acc. optionId a = k" and "distinct (map fst acc)"
      and "\<forall>opt \<in> set options. \<exists>r \<in> set (rankings sr). option_id (option r) = option_id opt"
  shows "(\<forall>(k, a) \<in> set (fold (\<lambda>opt analyses.
            case find (\<lambda>r. option_id (option r) = option_id opt) (rankings sr) of
              None \<Rightarrow> analyses
            | Some ranking \<Rightarrow>
                AList.update (option_id opt) (analysisOf sr constraints opt ranking) analyses)
          options acc). optionId a = k)
       \<and> distinct (map fst (fold (\<lambda>opt analyses.
            case find (\<lambda>r. option_id (option r) = option_id opt) (rankings sr) of
              None \<Rightarrow> analyses
            | Some ranking \<Rightarrow>
                AList.update (option_id opt) (analysisOf sr constraints opt ranking) analyses)
          options acc))
       \<and> fst ` set (fold (\<lambda>opt analyses.
            case find (\<lambda>r. option_id (option r) = option_id opt) (rankings sr) of
              None \<Rightarrow> analyses
            | Some ranking \<Rightarrow>
                AList.update (option_id opt) (analysisOf sr constraints opt ranking) analyses)
          options acc) = fst ` set acc \<union> option_id ` set options"
  using assms
proof (induction options arbitrary: acc)
  case Nil
  then show ?case by simp
next
  case (Cons opt options)
  from Cons.prems(3) obtain ranking where
    f: "find (\<lambda>r. option_id (option r) = option_id opt) (rankings sr) = Some ranking"
    by (cases "find (\<lambda>r. option_id (option r) = option_id opt) (rankings sr)")
       (auto simp: find_None_iff)
  let ?acc = "AList.update (option_id opt) (analysisOf sr constraints opt ranking) acc"
  have 1: "\<forall>(k, a) \<in> set ?acc. optionId a = k"
    using Cons.prems(1)
      set_update_subset[of "option_id opt" "analysisOf sr constraints opt ranking" acc]
    by (auto simp: analysisOf_def)
  have 2: "distinct (map fst ?acc)"
    using Cons.prems(2) by (rule distinct_update)
  have 3: "\<forall>opt \<in> set options. \<exists>r \<in> set (rankings sr). option_id (option r) = option_id opt"
    using Cons.prems(3) by simp
  have 4: "fst ` set ?acc = insert (option_id opt) (fst ` set acc)"
    by (simp add: dom_update)
  show ?case
    using Cons.IH[OF 1 2 3] by (simp add: f 4)
qed

lemma set_Set_of: "set (Set_of xs) = set xs"
  by (simp add: Set_of_def)

lemma analyzer_valid_rankings:
  assumes "isValid (Analyzer_validateInputs sr options constraints)"
  shows "\<forall>opt \<in> set options. \<exists>r \<in> set (rankings sr). option_id (option r) = option_id opt"
proof
  fix opt assume o: "opt \<in> set options"
  then have ne: "length options > 0" by (cases options) auto
  have "concat (map (\<lambda>k. if k \<notin> set (map (\<lambda>r. option_id (option r)) (rankings sr))
                          then [MISSING_SCORING_DATA] else [])
                    (Set_of (map option_id options))) = []"
    using assms ne by (simp add: Analyzer_validateInputs_def Let_def)
  then have "\<forall>k \<in> set (Set_of (map option_id options)).
               k \<in> set (map (\<lambda>r. option_id (option r)) (rankings sr))"
    by (auto split: if_splits)
  then have "option_id opt \<in> set (map (\<lambda>r. option_id (option r)) (rankings sr))"
    using o by (simp add: set_Set_of)
  then show "\<exists>r \<in> set (rankings sr). option_id (option r) = option_id opt"
    by auto
qed

lemma generateOptionAnalyses_props:
  assumes "isValid (Analyzer_validateInputs sr options constraints)"
  shows "\<forall>(k, a) \<in> set (generateOptionAnalyses sr options constraints). optionId a = k"
    and "length (generateOptionAnalyses sr options constraints) = card (option_id ` set options)"
proof -
  note inv = analyses_fold_inv[of "[]" options sr constraints, simplified,
      OF analyzer_valid_rankings[OF assms], folded generateOptionAnalyses_fold]
  show "\<forall>(k, a) \<in> set (generateOptionAnalyses sr options constraints). optionId a = k"
    using inv by blast
  have d: "distinct (map fst (generateOptionAnalyses sr options constraints))"
    using inv by blast
  have k: "fst ` set (generateOptionAnalyses sr options constraints) = option_id ` set options"
    using inv by blast
  show "length (generateOptionAnalyses sr options constraints) = card (option_id ` set options)"
    using distinct_card[OF d] k by simp
qed

lemma best_fold_mem:
  "fold (\<lambda>analysis best.
           case best of
             None \<Rightarrow> Some analysis
           | Some b \<Rightarrow> if analysisRank analysis < analysisRank b
                       then Some analysis else Some b) xs init = Some a
   \<Longrightarrow> a \<in> set xs \<or> init = Some a"
  by (induction xs arbitrary: init) (fastforce split: option.splits if_splits)+

lemma best_fold_Some:
  "xs \<noteq> [] \<or> init \<noteq> None \<Longrightarrow>
   fold (\<lambda>analysis best.
           case best of
             None \<Rightarrow> Some analysis
           | Some b \<Rightarrow> if analysisRank analysis < analysisRank b
                       then Some analysis else Some b) xs init \<noteq> None"
  by (induction xs arbitrary: init) (auto split: option.splits)

lemma findBestOverallOption_Some:
  assumes "findBestOverallOption analyses = Some r"
  shows "\<exists>k a. (k, a) \<in> set analyses \<and> rec_optionId r = optionId a
               \<and> confidence r = calculateConfidence a analyses"
  using assms best_fold_mem[of "map snd analyses" None]
  by (fastforce simp: findBestOverallOption_def split: option.splits)

lemma findBestOverallOption_nonempty:
  "analyses \<noteq> [] \<Longrightarrow> findBestOverallOption analyses \<noteq> None"
  using best_fold_Some[of "map snd analyses" None]
  by (auto simp: findBestOverallOption_def split: option.splits)

lemma map_filter_mem:
  assumes "a \<in> set (List.map_filter (\<lambda>k. map_of analyses k) ks)"
  shows "\<exists>k. (k, a) \<in> set analyses"
proof -
  from assms obtain k where "map_of analyses k = Some a"
    by (auto simp: List.map_filter_def)
  then have "(k, a) \<in> set analyses" by (rule map_of_SomeD)
  then show ?thesis by (rule exI)
qed

lemma findCompromiseOption_Some:
  assumes "findCompromiseOption analyses dominance = Some r"
  shows "\<exists>k a. (k, a) \<in> set analyses \<and> rec_optionId r = optionId a
               \<and> confidence r = calculateConfidence a analyses"
proof -
  let ?xs = "js_sort (\<lambda>a b. analysisRank a - analysisRank b)
             (filter (\<lambda>analysis. analysisRank analysis > 1)
                (List.map_filter (\<lambda>k. map_of analyses k) (paretoFrontier dominance)))"
  from assms obtain a others where x: "?xs = a # others"
    and r: "r = \<lparr> rec_type = compromise, rec_optionId = optionId a,
                   confidence = calculateConfidence a analyses \<rparr>"
    by (auto simp: findCompromiseOption_def split: list.splits)
  have "a \<in> set ?xs" unfolding x by simp
  then have "a \<in> set (List.map_filter (\<lambda>k. map_of analyses k) (paretoFrontier dominance))"
    by (simp add: set_js_sort)
  from map_filter_mem[OF this] r show ?thesis by auto
qed

lemma findOptionToAvoid_Some:
  assumes "findOptionToAvoid analyses dominance = Some r"
  shows "\<exists>k a. (k, a) \<in> set analyses \<and> rec_optionId r = optionId a
               \<and> confidence r = calculateConfidence a analyses"
proof -
  let ?xs = "js_sort (\<lambda>a b. analysisRank b - analysisRank a)
             (filter (\<lambda>analysis. length (weaknesses analysis) \<ge> 2)
                (List.map_filter (\<lambda>k. map_of analyses k) (dominatedOptions dominance)))"
  from assms obtain a others where x: "?xs = a # others"
    and r: "r = \<lparr> rec_type = avoid, rec_optionId = optionId a,
                   confidence = calculateConfidence a analyses \<rparr>"
    by (auto simp: findOptionToAvoid_def split: list.splits)
  have "a \<in> set ?xs" unfolding x by simp
  then have "a \<in> set (List.map_filter (\<lambda>k. map_of analyses k) (dominatedOptions dominance))"
    by (simp add: set_js_sort)
  from map_filter_mem[OF this] r show ?thesis by auto
qed

lemma generateRecommendations_mem:
  assumes "rc \<in> set (generateRecommendations analyses dominance sr)"
  shows "\<exists>k a. (k, a) \<in> set analyses \<and> rec_optionId rc = optionId a
               \<and> confidence rc = calculateConfidence a analyses"
  using assms findBestOverallOption_Some[of analyses rc]
    findCompromiseOption_Some[of analyses dominance rc]
    findOptionToAvoid_Some[of analyses dominance rc]
  by (auto simp: generateRecommendations_def split: option.splits)

lemma analyzeTradeOffs_Inr:
  assumes "analyzeTradeOffs sr options constraints = Inr res"
  shows "isValid (Analyzer_validateInputs sr options constraints)"
    and "optionAnalyses res = generateOptionAnalyses sr options constraints"
    and "dominanceRelations res = findDominantOptions options constraints sr"
    and "recommendations res =
           generateRecommendations (generateOptionAnalyses sr options constraints)
             (findDominantOptions options constraints sr) sr"
    and "pairwiseComparisons res = performPairwiseComparisons sr options constraints"
  using assms by (auto simp: analyzeTradeOffs_def Let_def split: if_splits)

lemma analyzeTradeOffs_valid:
  assumes "isValid (Analyzer_validateInputs sr options constraints)"
  shows "\<exists>res. analyzeTradeOffs sr options constraints = Inr res"
  using assms by (simp add: analyzeTradeOffs_def Let_def)

text \<open>
  C7. Every recommendation of a successful \<open>analyzeTradeOffs\<close> belongs to an option analysis
  of the result, and its confidence is
  \<open>min 0.95 (0.5 * rankScore + 0.3 * strengthScore + 0.2 * weaknessScore)\<close> with
  \<open>rankScore = (N - rank + 1) / N\<close>, \<open>strengthScore = min (strengthCount / 3) 1\<close> and
  \<open>weaknessScore = max 0 (1 - weaknessCount / 3)\<close>, where \<open>N\<close> is the number of alternatives
  (of distinct identifiers; the length of the list when identifiers are unique). In
  particular the confidence never exceeds 0.95.
\<close>

theorem recommendation_confidence:
  assumes "analyzeTradeOffs sr options constraints = Inr res"
      and "rc \<in> set (recommendations res)"
  shows "\<exists>a. (rec_optionId rc, a) \<in> set (optionAnalyses res)
           \<and> confidence rc =
               min 0.95
                 (0.5 * ((real (card (option_id ` set options)) - analysisRank a + 1)
                          / real (card (option_id ` set options)))
                  + 0.3 * min (real (length (strengths a)) / 3) 1
                  + 0.2 * max 0 (1 - real (length (weaknesses a)) / 3))
           \<and> confidence rc \<le> 0.95
           \<and> (distinct (map option_id options) \<longrightarrow>
                card (option_id ` set options) = length options)"
proof -
  let ?an = "generateOptionAnalyses sr options constraints"
  note v = analyzeTradeOffs_Inr(1)[OF assms(1)]
  have "rc \<in> set (generateRecommendations ?an (findDominantOptions options constraints sr) sr)"
    using assms(2) unfolding analyzeTradeOffs_Inr(4)[OF assms(1)] .
  from generateRecommendations_mem[OF this] obtain k a where
    ka: "(k, a) \<in> set ?an" and id: "rec_optionId rc = optionId a"
    and c: "confidence rc = calculateConfidence a ?an" by blast
  have "optionId a = k" using generateOptionAnalyses_props(1)[OF v] ka by blast
  then have m: "(rec_optionId rc, a) \<in> set (optionAnalyses res)"
    using ka id unfolding analyzeTradeOffs_Inr(2)[OF assms(1)] by simp
  have f: "confidence rc =
               min 0.95
                 (0.5 * ((real (card (option_id ` set options)) - analysisRank a + 1)
                          / real (card (option_id ` set options)))
                  + 0.3 * min (real (length (strengths a)) / 3) 1
                  + 0.2 * max 0 (1 - real (length (weaknesses a)) / 3))"
    unfolding c calculateConfidence_def Let_def generateOptionAnalyses_props(2)[OF v]
    by (simp add: mult.commute)
  have d: "distinct (map option_id options) \<longrightarrow> card (option_id ` set options) = length options"
    using distinct_card[of "map option_id options"] by simp
  have "confidence rc \<le> 0.95" by (subst f) (rule min.cobounded1)
  with m f d show ?thesis by blast
qed

lemma wValidAnalyzer: "isValid (Analyzer_validateInputs wResult [wOptA, wOptB] [wMax])"
  by (simp add: Analyzer_validateInputs_def wResult_def Set_of_def wOptA_def wOptB_def Let_def)

theorem recommendation_confidence_witness:
  "\<exists>res rc. analyzeTradeOffs wResult [wOptA, wOptB] [wMax] = Inr res
     \<and> rc \<in> set (recommendations res)
     \<and> (\<exists>a. (rec_optionId rc, a) \<in> set (optionAnalyses res)
           \<and> confidence rc =
               min 0.95
                 (0.5 * ((2 - analysisRank a + 1) / 2)
                  + 0.3 * min (real (length (strengths a)) / 3) 1
                  + 0.2 * max 0 (1 - real (length (weaknesses a)) / 3))
           \<and> confidence rc \<le> 0.95)"
proof -
  obtain res where r: "analyzeTradeOffs wResult [wOptA, wOptB] [wMax] = Inr res"
    using analyzeTradeOffs_valid[OF wValidAnalyzer] by blast
  have c2: "card (option_id ` set [wOptA, wOptB]) = 2"
    by (simp add: wOptA_def wOptB_def)
  have "length (optionAnalyses res) = card (option_id ` set [wOptA, wOptB])"
    unfolding analyzeTradeOffs_Inr(2)[OF r]
    by (rule generateOptionAnalyses_props(2)[OF wValidAnalyzer])
  then have ne: "optionAnalyses res \<noteq> []" unfolding c2 by auto
  have "findBestOverallOption (optionAnalyses res) \<noteq> None"
    by (rule findBestOverallOption_nonempty[OF ne])
  then have "recommendations res \<noteq> []"
    unfolding analyzeTradeOffs_Inr(4)[OF r] analyzeTradeOffs_Inr(2)[OF r]
    by (auto simp: generateRecommendations_def)
  then obtain rc where m: "rc \<in> set (recommendations res)"
    by (cases "recommendations res") auto
  from recommendation_confidence[OF r m] r m show ?thesis
    unfolding c2 by auto
qed

subsection \<open>The example scoring results are the engine's\<close>

lemma wSelMin: "weight wMin = Fin 100" "constraint_id wMin = ''c''" "direction wMin = minimize"
  "constraint_name wMin = ''C''" "constraint_name wMax = ''C''"
  "option_id wOptA = ''a''" "option_id wOptB = ''b''"
  by (simp_all add: wMin_def wMax_def wOptA_def wOptB_def)



lemma sqrt_1_25: "sqrt (1 / 25) = 1 / 5"
  by (simp add: real_sqrt_divide sqrt25)



lemma wSortedMin: "js_sort (\<lambda>a b. a - b) [3 / 5, 4 / 5 :: real] = [3 / 5, 4 / 5]"
  by (simp add: js_sort_def)

lemma wEnginePercentile:
  "enginePercentile 0 [[3 / 5], [4 / 5]] 0 = 1 / 2"
  "enginePercentile 1 [[3 / 5], [4 / 5]] 0 = 1"
  "enginePercentile (Suc 0) [[3 / 5], [4 / 5]] 0 = 1"
  by (simp_all add: enginePercentile_def wSortedMin indexOf_def Let_def)


lemma wScoreMap:
  "buildScoreMap [wOptA, wOptB] [c] [[x], [y]] =
     [(''a'', [(constraint_id c, x)]), (''b'', [(constraint_id c, y)])]"
  by (simp add: buildScoreMap_def wSelMin)



lemma wScoresMax: "calculateScores defaultMethodology [wOptA, wOptB] [wMax] = Inr wResult"
proof -
  have n: "normalizeMatrix (buildDecisionMatrix [wOptA, wOptB] [wMax]) [wMax] = [[3 / 5], [4 / 5]]"
    by (simp add: wMatrixAB rawScoreOr0_def wSel wNormalizedAB)
  have w: "applyWeights [[3 / 5], [4 / 5]] [wMax] = [[3 / 5], [4 / 5]]"
    by (simp add: applyWeights_def wSel Let_def)
  have i: "calculateIdealSolutions [[3 / 5], [4 / 5]] [wMax] = ([4 / 5], [3 / 5])"
    by (simp add: calculateIdealSolutions_def wSel Let_def)
  have d: "calculateDistances [[3 / 5], [4 / 5]] [4 / 5] [3 / 5] = ([1 / 5, 0], [0, 1 / 5])"
    by (simp add: calculateDistances_def distanceTo_def sqrt_1_25)
  have c: "calculateClosenessScores [1 / 5, 0] [0, 1 / 5] = [0, 1]"
    by (simp add: calculateClosenessScores_def Let_def)
  have r: "generateRankings [wOptA, wOptB] [0, 1] [[3 / 5], [4 / 5]] [wMax] = rankings wResult"
    by (simp add: generateRankings_def indexedRankings_def js_sort_def wResult_def
        TOPSIS_identifyStrengths_def TOPSIS_identifyWeaknesses_def wEnginePercentile
        wSel wSelMin Let_def)
  show ?thesis
    unfolding calculateScores_def Let_def n w i
    by (simp add: d c r wValid wScoreMap wSel wSelMin wResult_def)
qed

subsection \<open>C10: strengths and weaknesses of the analyzer\<close>








subsection \<open>C3: the Pareto frontier\<close>

lemma dominanceMaps_eq:
  "dominanceMaps options constraints =
     fold (dominanceStep options constraints)
          (List.product [0..<length options] [0..<length options]) (dominanceInit options)"
  unfolding dominanceMaps_def dominanceStep_def dominanceInit_def Let_def by (rule refl)

lemma js_lt_orderValue:
  assumes "\<not> isNaN a" "\<not> isNaN b"
  shows "js_lt a b = (orderValue a < orderValue b)"
proof -
  have u: "arctan r < pi / 2" "- (pi / 2) < arctan r" for r
    by (rule arctan_ubound, rule arctan_lbound)
  have p: "0 < pi / 2" by simp
  show ?thesis
    using assms u
    by (cases a; cases b) (auto simp: arctan_less_iff not_less intro: less_imp_le)
qed

lemma dominatesFrom_sum:
  assumes "\<forall>c \<in> set cs. \<not> isNaN (rawScoreOr0 A (constraint_id c)) \<and>
                           \<not> isNaN (rawScoreOr0 B (constraint_id c))"
      and "dominatesFrom h A B cs"
  shows "directedSum cs B \<le> directedSum cs A \<and> (\<not> h \<longrightarrow> directedSum cs B < directedSum cs A)"
  using assms
proof (induction cs arbitrary: h)
  case Nil
  then show ?case by (simp add: directedSum_def)
next
  case (Cons c cs)
  let ?a = "rawScoreOr0 A (constraint_id c)"
  let ?b = "rawScoreOr0 B (constraint_id c)"
  have n: "\<not> isNaN ?a" "\<not> isNaN ?b"
    using Cons.prems(1) by simp_all
  note lt = js_lt_orderValue[OF n] js_lt_orderValue[OF n(2) n(1)]
  have fin: "\<forall>c \<in> set cs. \<not> isNaN (rawScoreOr0 A (constraint_id c)) \<and>
                           \<not> isNaN (rawScoreOr0 B (constraint_id c))"
    using Cons.prems(1) by simp
  have s: "directedSum (c # cs) X =
           (if direction c = maximize then 1 else - 1) * orderValue (rawScoreOr0 X (constraint_id c))
           + directedSum cs X" for X
    by (simp add: directedSum_def)
  show ?case
  proof (cases "direction c = maximize")
    case True
    with Cons.prems(2) have nl: "\<not> orderValue ?a < orderValue ?b"
      and d: "dominatesFrom (if orderValue ?b < orderValue ?a then True else h) A B cs"
      by (auto simp: lt js_gt_def Let_def split: if_splits)
    from Cons.IH[OF fin d] nl show ?thesis
      by (auto simp: s True split: if_splits)
  next
    case False
    with Cons.prems(2) have nl: "\<not> orderValue ?b < orderValue ?a"
      and d: "dominatesFrom (if orderValue ?a < orderValue ?b then True else h) A B cs"
      by (auto simp: lt js_gt_def Let_def split: if_splits)
    from Cons.IH[OF fin d] nl show ?thesis
      by (auto simp: s False split: if_splits)
  qed
qed

lemma dominates_sum:
  assumes "\<forall>c \<in> set cs. \<not> isNaN (rawScoreOr0 A (constraint_id c)) \<and>
                           \<not> isNaN (rawScoreOr0 B (constraint_id c))"
      and "dominates A B cs"
  shows "directedSum cs B < directedSum cs A"
  using dominatesFrom_sum[OF assms(1), of False] assms(2) by (simp add: dominates_def)

lemma js_lt_irrefl: "\<not> js_lt x x"
  by (cases x) auto

lemma dominatesFrom_self: "dominatesFrom h A A cs = h"
  by (induction cs arbitrary: h) (auto simp: js_lt_irrefl js_gt_def Let_def)

lemma dominates_irrefl: "\<not> dominates A A cs"
  by (simp add: dominates_def dominatesFrom_self)

lemma ex_maximal:
  "xs \<noteq> [] \<Longrightarrow> \<exists>x \<in> set xs. \<forall>y \<in> set xs. (f y :: real) \<le> f x"
proof (induction xs)
  case Nil
  then show ?case by simp
next
  case (Cons x xs)
  show ?case
  proof (cases "xs = []")
    case True
    then show ?thesis by simp
  next
    case False
    from Cons.IH[OF this] obtain m where m: "m \<in> set xs" "\<forall>y \<in> set xs. f y \<le> f m" by blast
    show ?thesis
    proof (cases "f m \<le> f x")
      case True
      with m show ?thesis by (intro bexI[of _ x]) auto
    next
      case False
      with m show ?thesis by (intro bexI[of _ m]) auto
    qed
  qed
qed

lemma getList_update:
  "getList (AList.update k l m) k' = (if k' = k then l else getList m k')"
  by (simp add: getList_def update_conv')

lemma getList_pushTo:
  "getList (pushTo m k v) k' = (if k' = k then getList m k @ [v] else getList m k')"
  by (simp add: pushTo_def getList_update)

lemma dominanceInit_fold_empty:
  assumes "\<forall>k. getList dm k = []" and "\<forall>k. getList db k = []"
  shows "getList (fst (fold (\<lambda>opt (dm, db).
            (AList.update (option_id opt) [] dm, AList.update (option_id opt) [] db))
          options (dm, db))) k = []
       \<and> getList (snd (fold (\<lambda>opt (dm, db).
            (AList.update (option_id opt) [] dm, AList.update (option_id opt) [] db))
          options (dm, db))) k = []"
  using assms
proof (induction options arbitrary: dm db)
  case Nil
  then show ?case by simp
next
  case (Cons opt options)
  show ?case
    using Cons.IH[of "AList.update (option_id opt) [] dm" "AList.update (option_id opt) [] db"]
      Cons.prems
    by (simp add: getList_update)
qed

lemma dominanceInit_empty:
  "getList (fst (dominanceInit options)) k = []"
  "getList (snd (dominanceInit options)) k = []"
  using dominanceInit_fold_empty[of "[]" "[]" options k]
  by (simp_all add: dominanceInit_def getList_def)

lemma dominatedBy_fold:
  "set (getList (snd (fold (dominanceStep options constraints) ps (dm, db))) k) =
   set (getList db k) \<union>
   {option_id (options ! i) | i j. (i, j) \<in> set ps \<and> i \<noteq> j \<and>
      dominates (options ! i) (options ! j) constraints \<and> option_id (options ! j) = k}"
proof (induction ps arbitrary: dm db)
  case Nil
  then show ?case by simp
next
  case (Cons p ps)
  obtain i j where p: "p = (i, j)" by (cases p)
  show ?case
  proof (cases "i \<noteq> j \<and> dominates (options ! i) (options ! j) constraints")
    case True
    then have st: "dominanceStep options constraints p (dm, db) =
               (pushTo dm (option_id (options ! i)) (option_id (options ! j)),
                pushTo db (option_id (options ! j)) (option_id (options ! i)))"
      by (simp add: dominanceStep_def p Let_def)
    show ?thesis
      using True unfolding fold_simps st Cons.IH
      by (auto simp: getList_pushTo p)
  next
    case False
    then have st: "dominanceStep options constraints p (dm, db) = (dm, db)"
      by (auto simp: dominanceStep_def p Let_def)
    show ?thesis
      using False unfolding fold_simps st Cons.IH
      by (auto simp: p)
  qed
qed

lemma dominatedBy_set:
  "set (getList (snd (dominanceMaps options constraints)) k) =
   {option_id (options ! i) | i j. i < length options \<and> j < length options \<and> i \<noteq> j \<and>
      dominates (options ! i) (options ! j) constraints \<and> option_id (options ! j) = k}"
proof -
  obtain dm db where i: "dominanceInit options = (dm, db)" by (cases "dominanceInit options")
  have e: "getList db k = []" using dominanceInit_empty(2)[of options k] by (simp add: i)
  show ?thesis
    unfolding dominanceMaps_eq i dominatedBy_fold e by auto
qed

lemma dominatedBy_empty_iff:
  assumes "distinct (map option_id options)" and "opt \<in> set options"
  shows "length (getList (snd (dominanceMaps options constraints)) (option_id opt)) = 0 \<longleftrightarrow>
         (\<forall>other \<in> set options. \<not> dominates other opt constraints)"
proof -
  have inj: "inj_on option_id (set options)"
    using assms(1) by (simp add: distinct_map)
  have "length (getList (snd (dominanceMaps options constraints)) (option_id opt)) = 0 \<longleftrightarrow>
        set (getList (snd (dominanceMaps options constraints)) (option_id opt)) = {}"
    by simp
  also have "\<dots> \<longleftrightarrow> (\<forall>i j. i < length options \<and> j < length options \<and> i \<noteq> j \<and>
      option_id (options ! j) = option_id opt \<longrightarrow>
      \<not> dominates (options ! i) (options ! j) constraints)"
    unfolding dominatedBy_set by auto
  also have "\<dots> \<longleftrightarrow> (\<forall>other \<in> set options. \<not> dominates other opt constraints)"
  proof
    assume h: "\<forall>i j. i < length options \<and> j < length options \<and> i \<noteq> j \<and>
      option_id (options ! j) = option_id opt \<longrightarrow>
      \<not> dominates (options ! i) (options ! j) constraints"
    show "\<forall>other \<in> set options. \<not> dominates other opt constraints"
    proof
      fix other assume "other \<in> set options"
      then obtain i where i: "i < length options" "options ! i = other"
        by (auto simp: in_set_conv_nth)
      from assms(2) obtain j where j: "j < length options" "options ! j = opt"
        by (auto simp: in_set_conv_nth)
      show "\<not> dominates other opt constraints"
      proof (cases "i = j")
        case True
        then show ?thesis using i j dominates_irrefl by auto
      next
        case False
        then show ?thesis using h i j by blast
      qed
    qed
  next
    assume h: "\<forall>other \<in> set options. \<not> dominates other opt constraints"
    show "\<forall>i j. i < length options \<and> j < length options \<and> i \<noteq> j \<and>
      option_id (options ! j) = option_id opt \<longrightarrow>
      \<not> dominates (options ! i) (options ! j) constraints"
    proof (intro allI impI)
      fix i j assume a: "i < length options \<and> j < length options \<and> i \<noteq> j \<and>
        option_id (options ! j) = option_id opt"
      then have "options ! j = opt"
        using inj assms(2) by (auto dest: inj_onD)
      then show "\<not> dominates (options ! i) (options ! j) constraints"
        using h a by auto
    qed
  qed
  finally show ?thesis .
qed

lemma paretoFrontier_eq:
  assumes "distinct (map option_id options)"
  shows "paretoFrontier (findDominantOptions options constraints sr) =
         map option_id
           (filter (\<lambda>opt. \<forall>other \<in> set options. \<not> dominates other opt constraints) options)"
proof -
  have "filter (\<lambda>opt. length (getList (snd (dominanceMaps options constraints)) (option_id opt)) = 0)
          options =
        filter (\<lambda>opt. \<forall>other \<in> set options. \<not> dominates other opt constraints) options"
    by (rule filter_cong[OF refl]) (rule dominatedBy_empty_iff[OF assms])
  then show ?thesis
    by (simp add: findDominantOptions_def Let_def case_prod_unfold)
qed

text \<open>
  C3, as the code has it. For alternatives accepted by \<open>analyzeTradeOffs\<close> (at least two)
  whose identifiers are pairwise distinct and none of whose raw scores on the criteria is
  NaN (a missing score is read as 0), the Pareto frontier of the returned dominance
  analysis lists exactly the alternatives that no alternative dominates, and contains at
  least one.
\<close>

theorem pareto_frontier_nonempty_distinct_ids:
  assumes "analyzeTradeOffs sr options constraints = Inr res"
      and "distinct (map option_id options)"
      and "\<forall>opt \<in> set options. \<forall>c \<in> set constraints.
             \<not> isNaN (rawScoreOr0 opt (constraint_id c))"
  shows "paretoFrontier (dominanceRelations res) =
           map option_id
             (filter (\<lambda>opt. \<forall>other \<in> set options. \<not> dominates other opt constraints) options)
       \<and> length (paretoFrontier (dominanceRelations res)) \<ge> 1"
proof -
  have eq: "paretoFrontier (dominanceRelations res) =
           map option_id
             (filter (\<lambda>opt. \<forall>other \<in> set options. \<not> dominates other opt constraints) options)"
    unfolding analyzeTradeOffs_Inr(3)[OF assms(1)] by (rule paretoFrontier_eq[OF assms(2)])
  have "length options \<ge> 2"
    using analyzeTradeOffs_Inr(1)[OF assms(1)]
    by (auto simp: Analyzer_validateInputs_def Let_def split: if_splits)
  then have "options \<noteq> []" by auto
  from ex_maximal[OF this, of "directedSum constraints"] obtain best where
    b: "best \<in> set options"
    and m: "\<forall>other \<in> set options. directedSum constraints other \<le> directedSum constraints best"
    by blast
  have "\<not> dominates other best constraints" if o: "other \<in> set options" for other
  proof
    assume d: "dominates other best constraints"
    have "\<forall>c \<in> set constraints. \<not> isNaN (rawScoreOr0 other (constraint_id c)) \<and>
                                   \<not> isNaN (rawScoreOr0 best (constraint_id c))"
      using assms(3) o b by blast
    from dominates_sum[OF this d] m o show False by fastforce
  qed
  with b have "best \<in> set (filter (\<lambda>opt. \<forall>other \<in> set options.
                                \<not> dominates other opt constraints) options)"
    by simp
  then have "filter (\<lambda>opt. \<forall>other \<in> set options.
                                \<not> dominates other opt constraints) options \<noteq> []"
    by (metis empty_iff empty_set)
  then have "length (paretoFrontier (dominanceRelations res)) \<ge> 1"
    unfolding eq by (simp add: Suc_le_eq)
  with eq show ?thesis by blast
qed

lemma wDominates:
  "dominates wOptB wOptA [wMax]" "\<not> dominates wOptA wOptB [wMax]"
  by (simp_all add: dominates_def rawScoreOr0_def wSel js_gt_def Let_def)

text \<open>Scores 3 and 4 on one criterion to maximize: the frontier is the second option.\<close>

theorem pareto_frontier_nonempty_distinct_ids_witness:
  "\<exists>res. analyzeTradeOffs wResult [wOptA, wOptB] [wMax] = Inr res
     \<and> distinct (map option_id [wOptA, wOptB])
     \<and> (\<forall>opt \<in> set [wOptA, wOptB]. \<forall>c \<in> set [wMax].
           \<not> isNaN (rawScoreOr0 opt (constraint_id c)))
     \<and> paretoFrontier (dominanceRelations res) = [''b'']
     \<and> length (paretoFrontier (dominanceRelations res)) \<ge> 1"
proof -
  obtain res where r: "analyzeTradeOffs wResult [wOptA, wOptB] [wMax] = Inr res"
    using analyzeTradeOffs_valid[OF wValidAnalyzer] by blast
  have d: "distinct (map option_id [wOptA, wOptB])" by (simp add: wSelMin)
  have f: "\<forall>opt \<in> set [wOptA, wOptB]. \<forall>c \<in> set [wMax].
           \<not> isNaN (rawScoreOr0 opt (constraint_id c))"
    by (simp add: rawScoreOr0_def wSel)
  note t = pareto_frontier_nonempty_distinct_ids[OF r d f]
  have "paretoFrontier (dominanceRelations res) = [''b'']"
    using t by (simp add: wDominates dominates_irrefl wSelMin)
  with t r d f show ?thesis by blast
qed

lemma engine_result_accepted:
  assumes "calculateScores m options constraints = Inr sr"
  shows "isValid (Analyzer_validateInputs sr options constraints)"
proof -
  have v: "2 \<le> length options" "constraints \<noteq> []"
    using calculateScores_Inr(1)[OF assms]
    by (auto simp: TOPSIS_validateInputs_def Let_def split: if_splits)
  have "option ` set (rankings sr) = set options"
  proof -
    have "option ` set (rankings sr) =
          fst ` ((\<lambda>r. (option r, closenessScore r)) ` set (rankings sr))"
      by (simp add: image_image)
    also have "\<dots> = fst ` ((\<lambda>i. (options ! i, closenessOf options constraints ! i)) `
                            {0..<length options})"
      unfolding calculateScores_Inr(2)[OF assms] generateRankings_set ..
    also have "\<dots> = set options"
      by (auto simp: image_image set_conv_nth)
    finally show ?thesis .
  qed
  then have "set (map (\<lambda>r. option_id (option r)) (rankings sr)) = option_id ` set options"
    by (simp add: image_image[symmetric])
  then have "concat (map (\<lambda>k. if k \<notin> set (map (\<lambda>r. option_id (option r)) (rankings sr))
                               then [MISSING_SCORING_DATA] else [])
                         (Set_of (map option_id options))) = []"
    by (auto simp: Set_of_def)
  then show ?thesis
    using v by (simp add: Analyzer_validateInputs_def Let_def)
qed

lemma frontier_empty:
  assumes "\<forall>opt \<in> set options. \<exists>i j. i < length options \<and> j < length options \<and> i \<noteq> j \<and>
             dominates (options ! i) (options ! j) constraints \<and>
             option_id (options ! j) = option_id opt"
  shows "paretoFrontier (findDominantOptions options constraints sr) = []"
proof -
  have "length (getList (snd (dominanceMaps options constraints)) (option_id opt)) \<noteq> 0"
    if "opt \<in> set options" for opt
  proof -
    have "set (getList (snd (dominanceMaps options constraints)) (option_id opt)) \<noteq> {}"
      unfolding dominatedBy_set using assms that by blast
    then show ?thesis by simp
  qed
  then have "filter (\<lambda>opt. length (getList (snd (dominanceMaps options constraints))
                                      (option_id opt)) = 0) options = []"
    by (simp add: filter_empty_conv)
  then show ?thesis
    by (simp add: findDominantOptions_def Let_def case_prod_unfold)
qed

lemma wValid4: "isValid (TOPSIS_validateInputs [wOptA, wOptA4] [wMax])"
  by (simp add: TOPSIS_validateInputs_def scoreErrors_def weightErrors_def
        wOptA_def wOptA4_def wMax_def Let_def)

lemma wSel4: "option_id wOptA = ''a''" "option_id wOptA4 = ''a''"
  by (simp_all add: wOptA_def wOptA4_def)

lemma wDominates4: "dominates wOptA4 wOptA [wMax]"
  by (simp add: dominates_def rawScoreOr0_def wSel wOptA4_def js_gt_def Let_def)

lemma nValidAnalyzer:
  "isValid (Analyzer_validateInputs nResult [nOptX, nOptY, nOptZ] nConstraints)"
  by (simp add: Analyzer_validateInputs_def nResult_def nConstraints_def Set_of_def
        nOptX_def nOptY_def nOptZ_def Let_def)

lemma nSel: "option_id nOptX = ''x''" "option_id nOptY = ''y''" "option_id nOptZ = ''z''"
  by (simp_all add: nOptX_def nOptY_def nOptZ_def)

lemma nDominates:
  "dominates nOptX nOptY nConstraints" "dominates nOptY nOptZ nConstraints"
  "dominates nOptZ nOptX nConstraints"
  by (simp_all add: dominates_def rawScoreOr0_def nConstraints_def nOptX_def nOptY_def nOptZ_def
        js_gt_def Let_def)

text \<open>
  C3 as stated fails. Two options with the same identifier \<open>a\<close> and scores 3 and 4 are
  scored by the engine, and \<open>analyzeTradeOffs\<close> accepts them with that scoring result; the
  second dominates the first, the entry of \<open>a\<close> in \<^verbatim>\<open>dominatedBy\<close> is not empty, and neither
  option is in the frontier. Three options with distinct identifiers and scores
  (2, 1, NaN), (1, NaN, 2), (NaN, 2, 1) are accepted with a scoring result that lists
  them; each dominates the next, and the frontier is empty.
\<close>

theorem pareto_frontier_empty_counterexample:
  "\<not> isl (calculateScores defaultMethodology [wOptA, wOptA4] [wMax])
   \<and> \<not> isl (analyzeTradeOffs (projr (calculateScores defaultMethodology [wOptA, wOptA4] [wMax]))
               [wOptA, wOptA4] [wMax])
   \<and> paretoFrontier (dominanceRelations (projr
       (analyzeTradeOffs (projr (calculateScores defaultMethodology [wOptA, wOptA4] [wMax]))
          [wOptA, wOptA4] [wMax]))) = []
   \<and> map option_id [wOptA, wOptA4] = [''a'', ''a'']
   \<and> \<not> isl (analyzeTradeOffs nResult [nOptX, nOptY, nOptZ] nConstraints)
   \<and> paretoFrontier (dominanceRelations (projr
       (analyzeTradeOffs nResult [nOptX, nOptY, nOptZ] nConstraints))) = []
   \<and> distinct (map option_id [nOptX, nOptY, nOptZ])"
proof -
  obtain sr where s: "calculateScores defaultMethodology [wOptA, wOptA4] [wMax] = Inr sr"
    using calculateScores_valid[OF wValid4] by blast
  obtain res where r: "analyzeTradeOffs sr [wOptA, wOptA4] [wMax] = Inr res"
    using analyzeTradeOffs_valid[OF engine_result_accepted[OF s]] by blast
  have "\<forall>opt \<in> set [wOptA, wOptA4]. \<exists>i j. i < length [wOptA, wOptA4] \<and>
          j < length [wOptA, wOptA4] \<and> i \<noteq> j \<and>
          dominates ([wOptA, wOptA4] ! i) ([wOptA, wOptA4] ! j) [wMax] \<and>
          option_id ([wOptA, wOptA4] ! j) = option_id opt"
  proof
    fix opt assume "opt \<in> set [wOptA, wOptA4]"
    then have "option_id opt = ''a''" by (auto simp: wSel4)
    then show "\<exists>i j. i < length [wOptA, wOptA4] \<and>
          j < length [wOptA, wOptA4] \<and> i \<noteq> j \<and>
          dominates ([wOptA, wOptA4] ! i) ([wOptA, wOptA4] ! j) [wMax] \<and>
          option_id ([wOptA, wOptA4] ! j) = option_id opt"
      by - (rule exI[of _ "1::nat"], rule exI[of _ "0::nat"], simp add: wDominates4 wSel4)
  qed
  then have a: "paretoFrontier (dominanceRelations res) = []"
    unfolding analyzeTradeOffs_Inr(3)[OF r] by (rule frontier_empty)
  obtain res' where r': "analyzeTradeOffs nResult [nOptX, nOptY, nOptZ] nConstraints = Inr res'"
    using analyzeTradeOffs_valid[OF nValidAnalyzer] by blast
  have "\<forall>opt \<in> set [nOptX, nOptY, nOptZ]. \<exists>i j. i < length [nOptX, nOptY, nOptZ] \<and>
          j < length [nOptX, nOptY, nOptZ] \<and> i \<noteq> j \<and>
          dominates ([nOptX, nOptY, nOptZ] ! i) ([nOptX, nOptY, nOptZ] ! j) nConstraints \<and>
          option_id ([nOptX, nOptY, nOptZ] ! j) = option_id opt"
  proof
    fix opt assume "opt \<in> set [nOptX, nOptY, nOptZ]"
    then consider "opt = nOptX" | "opt = nOptY" | "opt = nOptZ" by auto
    then show "\<exists>i j. i < length [nOptX, nOptY, nOptZ] \<and>
          j < length [nOptX, nOptY, nOptZ] \<and> i \<noteq> j \<and>
          dominates ([nOptX, nOptY, nOptZ] ! i) ([nOptX, nOptY, nOptZ] ! j) nConstraints \<and>
          option_id ([nOptX, nOptY, nOptZ] ! j) = option_id opt"
    proof cases
      case 1
      then show ?thesis by - (rule exI[of _ "2::nat"], rule exI[of _ "0::nat"], simp add: nDominates)
    next
      case 2
      then show ?thesis by - (rule exI[of _ "0::nat"], rule exI[of _ "1::nat"], simp add: nDominates)
    next
      case 3
      then show ?thesis by - (rule exI[of _ "1::nat"], rule exI[of _ "2::nat"], simp add: nDominates)
    qed
  qed
  then have b: "paretoFrontier (dominanceRelations res') = []"
    unfolding analyzeTradeOffs_Inr(3)[OF r'] by (rule frontier_empty)
  show ?thesis
    using a b by (simp add: s r r' wSel4 nSel)
qed

subsection \<open>C2: missing scores\<close>

lemma withDefaultScores_same:
  "option_id (withDefaultScores cs opt) = option_id opt"
  "rawScoreOr0 (withDefaultScores cs opt) = rawScoreOr0 opt"
  by (auto simp: withDefaultScores_def rawScoreOr0_def fun_eq_iff)

lemma identify_cong:
  assumes "option_id o' = option_id opt" and "rawScoreOr0 o' = rawScoreOr0 opt"
  shows "Analyzer_identifyStrengths o' cs sr = Analyzer_identifyStrengths opt cs sr"
    and "Analyzer_identifyWeaknesses o' cs sr = Analyzer_identifyWeaknesses opt cs sr"
  unfolding Analyzer_identifyStrengths_def Analyzer_identifyWeaknesses_def assms
  by (rule refl)+

lemma generateOptionAnalyses_cong:
  assumes "\<And>opt. option_id (f opt) = option_id opt"
      and "\<And>opt. rawScoreOr0 (f opt) = rawScoreOr0 opt"
  shows "generateOptionAnalyses sr (map f options) cs = generateOptionAnalyses sr options cs"
  unfolding generateOptionAnalyses_def fold_map comp_def assms(1)
    identify_cong[OF assms(1) assms(2)]
  by (rule refl)

lemma compareOptions_cong:
  assumes "option_id a' = option_id a" and "rawScoreOr0 a' = rawScoreOr0 a"
      and "option_id b' = option_id b" and "rawScoreOr0 b' = rawScoreOr0 b"
  shows "compareOptions a' b' cs sr = compareOptions a b cs sr"
  unfolding compareOptions_def assms by (rule refl)

lemma performPairwiseComparisons_cong:
  assumes "\<And>opt. option_id (f opt) = option_id opt"
      and "\<And>opt. rawScoreOr0 (f opt) = rawScoreOr0 opt"
  shows "performPairwiseComparisons sr (map f options) cs =
         performPairwiseComparisons sr options cs"
proof -
  have "map (\<lambda>j. compareOptions (map f options ! i) (map f options ! j) cs sr)
            [i + 1..<length options] =
        map (\<lambda>j. compareOptions (options ! i) (options ! j) cs sr) [i + 1..<length options]"
    if "i < length options" for i
    using that by (intro map_cong refl compareOptions_cong) (simp_all add: assms)
  then show ?thesis
    unfolding performPairwiseComparisons_def length_map
    by (intro arg_cong[of _ _ concat] map_cong refl) simp
qed

lemma dominatesFrom_cong:
  assumes "rawScoreOr0 a' = rawScoreOr0 a" and "rawScoreOr0 b' = rawScoreOr0 b"
  shows "dominatesFrom h a' b' cs = dominatesFrom h a b cs"
  by (induction cs arbitrary: h) (simp_all add: assms)

lemma dominates_cong:
  assumes "rawScoreOr0 a' = rawScoreOr0 a" and "rawScoreOr0 b' = rawScoreOr0 b"
  shows "dominates a' b' cs = dominates a b cs"
  by (simp add: dominates_def dominatesFrom_cong[OF assms])

lemma dominanceMaps_cong:
  assumes "\<And>opt. option_id (f opt) = option_id opt"
      and "\<And>opt. rawScoreOr0 (f opt) = rawScoreOr0 opt"
  shows "dominanceMaps (map f options) cs = dominanceMaps options cs"
proof -
  have i: "dominanceInit (map f options) = dominanceInit options"
    by (simp add: dominanceInit_def fold_map comp_def assms)
  have s: "dominanceStep (map f options) cs p = dominanceStep options cs p"
    if "p \<in> set (List.product [0..<length options] [0..<length options])" for p
    using that
    by (auto simp: dominanceStep_def fun_eq_iff Let_def assms
          dominates_cong[OF assms(2) assms(2)])
  show ?thesis
    unfolding dominanceMaps_eq i length_map
    by (rule fold_cong[OF refl refl]) (rule s)
qed

lemma findDominantOptions_cong:
  assumes "\<And>opt. option_id (f opt) = option_id opt"
      and "\<And>opt. rawScoreOr0 (f opt) = rawScoreOr0 opt"
  shows "findDominantOptions (map f options) cs sr = findDominantOptions options cs sr"
  by (simp add: findDominantOptions_def dominanceMaps_cong[OF assms] filter_map comp_def
        assms(1) case_prod_unfold Let_def)

lemma analyzeTradeOffs_cong:
  assumes "\<And>opt. option_id (f opt) = option_id opt"
      and "\<And>opt. rawScoreOr0 (f opt) = rawScoreOr0 opt"
  shows "analyzeTradeOffs sr (map f options) cs = analyzeTradeOffs sr options cs"
proof -
  have v: "Analyzer_validateInputs sr (map f options) cs = Analyzer_validateInputs sr options cs"
    by (simp add: Analyzer_validateInputs_def comp_def assms(1))
  show ?thesis
    unfolding analyzeTradeOffs_def v generateOptionAnalyses_cong[OF assms]
      performPairwiseComparisons_cong[OF assms] findDominantOptions_cong[OF assms]
    by (rule refl)
qed

lemma dominatedOptions_eq:
  assumes "distinct (map option_id options)"
  shows "dominatedOptions (findDominantOptions options constraints sr) =
         map option_id
           (filter (\<lambda>opt. \<exists>other \<in> set options. dominates other opt constraints) options)"
proof -
  have "filter (\<lambda>opt. length (getList (snd (dominanceMaps options constraints)) (option_id opt)) > 0)
          options =
        filter (\<lambda>opt. \<exists>other \<in> set options. dominates other opt constraints) options"
    using dominatedBy_empty_iff[OF assms] by (intro filter_cong[OF refl]) auto
  then show ?thesis
    by (simp add: findDominantOptions_def Let_def case_prod_unfold)
qed

lemma scoreErrors_missing:
  assumes "opt \<in> set options" and "c \<in> set constraints"
      and "scores opt (constraint_id c) = None"
  shows "MISSING_SCORE \<in> set (scoreErrors options constraints)"
  using assms unfolding scoreErrors_def by (auto intro!: bexI[of _ opt] bexI[of _ c])

lemma scoreErrors_codes:
  "set (scoreErrors options constraints) \<subseteq> {MISSING_SCORE, INVALID_SCORE}"
  unfolding scoreErrors_def by (auto split: option.splits if_splits)

lemma scoreErrors_codes_finite:
  assumes "\<forall>x \<in> set options. \<forall>k \<in> set constraints. \<forall>s.
             scores x (constraint_id k) = Some s \<longrightarrow> isFinite s"
  shows "set (scoreErrors options constraints) \<subseteq> {MISSING_SCORE}"
  using assms unfolding scoreErrors_def
  by (auto split: option.splits if_splits) (meson isFinite_not_NaN)

lemma hd_append_in: "xs \<noteq> [] \<Longrightarrow> hd (xs @ ys) \<in> set xs"
  by (cases xs) auto

text \<open>
  C2 (amended). When an alternative lacks a score for a criterion, \<open>calculateScores\<close>
  fails: with \<^verbatim>\<open>MISSING_SCORE\<close> when there are at least two alternatives and the scores
  present are finite, and in every case with one of the validation errors.
  \<open>analyzeTradeOffs\<close> makes no such check: it reads a missing raw score as 0, so that its
  result is that of the same alternatives with the missing scores set to 0.
\<close>

theorem missing_score_handling:
  assumes "opt \<in> set options" and "c \<in> set constraints"
      and "scores opt (constraint_id c) = None"
  shows "(\<exists>e. calculateScores m options constraints = Inl e
            \<and> e \<in> {INSUFFICIENT_OPTIONS, MISSING_SCORE, INVALID_SCORE})
       \<and> (2 \<le> length options \<and>
            (\<forall>x \<in> set options. \<forall>k \<in> set constraints. \<forall>s.
               scores x (constraint_id k) = Some s \<longrightarrow> isFinite s) \<longrightarrow>
            calculateScores m options constraints = Inl MISSING_SCORE)
       \<and> analyzeTradeOffs sr (map (withDefaultScores constraints) options) constraints =
           analyzeTradeOffs sr options constraints"
proof -
  let ?se = "scoreErrors options constraints"
  let ?rest = "if length constraints > 0 then weightErrors constraints else []"
  have lo: "length options > 0" using assms(1) by (cases options) auto
  have lc: "length constraints > 0" using assms(2) by (cases constraints) auto
  have ne: "?se \<noteq> []" using scoreErrors_missing[OF assms] by auto
  have errs: "errors (TOPSIS_validateInputs options constraints) =
              (if length options < 2 then [INSUFFICIENT_OPTIONS] else []) @ ?se @ ?rest"
    and inv: "\<not> isValid (TOPSIS_validateInputs options constraints)"
    using lo lc ne by (simp_all add: TOPSIS_validateInputs_def Let_def)
  have res: "calculateScores m options constraints =
             Inl (hd (errors (TOPSIS_validateInputs options constraints)))"
    using inv by (simp add: calculateScores_def Let_def)
  have h2: "hd (?se @ ?rest) \<in> set ?se" by (rule hd_append_in[OF ne])
  have 1: "\<exists>e. calculateScores m options constraints = Inl e
            \<and> e \<in> {INSUFFICIENT_OPTIONS, MISSING_SCORE, INVALID_SCORE}"
  proof (cases "length options < 2")
    case True
    then show ?thesis unfolding res errs by simp
  next
    case False
    then show ?thesis unfolding res errs using h2 scoreErrors_codes[of options constraints]
      by auto
  qed
  have 2: "calculateScores m options constraints = Inl MISSING_SCORE"
    if "2 \<le> length options"
      and f: "\<forall>x \<in> set options. \<forall>k \<in> set constraints. \<forall>s.
               scores x (constraint_id k) = Some s \<longrightarrow> isFinite s"
    using that(1) h2 scoreErrors_codes_finite[OF f] unfolding res errs by auto
  have 3: "analyzeTradeOffs sr (map (withDefaultScores constraints) options) constraints =
           analyzeTradeOffs sr options constraints"
    by (rule analyzeTradeOffs_cong) (rule withDefaultScores_same)+
  from 1 2 3 show ?thesis by blast
qed

text \<open>
  An option without scores is accepted by \<open>analyzeTradeOffs\<close>: it is dominated by an option
  of score 3 through the default 0, and the pairwise comparison reports the difference 3.
\<close>

lemma wSelNone: "option_id wOptNone = ''b''" "scores wOptNone k = None"
  "rawScoreOr0 wOptNone k = Fin 0" "rawScoreOr0 wOptA ''c'' = Fin 3"
  by (simp_all add: wOptNone_def rawScoreOr0_def wSel)

lemma wValidAnalyzerNone: "isValid (Analyzer_validateInputs wResult [wOptA, wOptNone] [wMax])"
  by (simp add: Analyzer_validateInputs_def wResult_def Set_of_def wSelMin wSelNone Let_def)

lemma wDominatesNone:
  "dominates wOptA wOptNone [wMax]" "\<not> dominates wOptNone wOptA [wMax]"
  by (simp_all add: dominates_def wSelNone wSel js_gt_def Let_def)

theorem missing_score_counterexample:
  "scores wOptNone (constraint_id wMax) = None
   \<and> \<not> isl (analyzeTradeOffs wResult [wOptA, wOptNone] [wMax])
   \<and> dominates wOptA wOptNone [wMax]
   \<and> dominatedOptions (dominanceRelations
        (projr (analyzeTradeOffs wResult [wOptA, wOptNone] [wMax]))) = [''b'']
   \<and> significantDifferences (compareOptions wOptA wOptNone [wMax] wResult) =
       [\<lparr> diff_constraintId = ''c'', diff_constraintName = ''C'', scoreDifference = Fin 3,
          percentageDifference = Fin 1, significance = high \<rparr>]"
proof -
  obtain res where r: "analyzeTradeOffs wResult [wOptA, wOptNone] [wMax] = Inr res"
    using analyzeTradeOffs_valid[OF wValidAnalyzerNone] by blast
  have d: "distinct (map option_id [wOptA, wOptNone])" by (simp add: wSelMin wSelNone)
  have "dominatedOptions (dominanceRelations res) = [''b'']"
    unfolding analyzeTradeOffs_Inr(3)[OF r] dominatedOptions_eq[OF d]
    by (simp add: wDominatesNone dominates_irrefl wSelNone)
  moreover have "significantDifferences (compareOptions wOptA wOptNone [wMax] wResult) =
       [\<lparr> diff_constraintId = ''c'', diff_constraintName = ''C'', scoreDifference = Fin 3,
          percentageDifference = Fin 1, significance = high \<rparr>]"
    by (simp add: compareOptions_def wSelNone wSel wSelMin js_sub_def js_max_def js_gt_def
        toDouble_small Let_def)
  ultimately show ?thesis
    by (simp add: r wSelNone wDominatesNone)
qed

theorem missing_score_handling_witness:
  "wOptNone \<in> set [wOptA, wOptNone] \<and> wMax \<in> set [wMax]
   \<and> scores wOptNone (constraint_id wMax) = None
   \<and> calculateScores defaultMethodology [wOptA, wOptNone] [wMax] = Inl MISSING_SCORE
   \<and> analyzeTradeOffs wResult (map (withDefaultScores [wMax]) [wOptA, wOptNone]) [wMax] =
       analyzeTradeOffs wResult [wOptA, wOptNone] [wMax]"
proof -
  have a: "wOptNone \<in> set [wOptA, wOptNone]" and b: "wMax \<in> set [wMax]"
    and c: "scores wOptNone (constraint_id wMax) = None"
    by (simp_all add: wSelNone)
  note t = missing_score_handling[OF a b c, of defaultMethodology wResult]
  have f: "2 \<le> length [wOptA, wOptNone] \<and>
        (\<forall>x \<in> set [wOptA, wOptNone]. \<forall>k \<in> set [wMax]. \<forall>s.
               scores x (constraint_id k) = Some s \<longrightarrow> isFinite s)"
    by (simp add: wSel wSelNone)
  from t f have "calculateScores defaultMethodology [wOptA, wOptNone] [wMax] = Inl MISSING_SCORE"
    by blast
  with t a b c show ?thesis by blast
qed

subsection \<open>C6: scaling the weights\<close>












subsection \<open>C9: the supplier scenario\<close>

lemma max_min_scale:
  "0 < c \<Longrightarrow> max (c * a) (c * b) = c * max a (b::real)"
  "0 < c \<Longrightarrow> min (c * a) (c * b) = c * min a (b::real)"
  by (simp_all add: max_def min_def)

lemma fold_max_scale:
  "0 < c \<Longrightarrow> fold max (map (\<lambda>x. c * x) xs) (c * a) = c * fold max xs (a::real)"
proof (induction xs arbitrary: a)
  case Nil
  then show ?case by simp
next
  case (Cons x xs)
  show ?case
    using Cons.IH[OF Cons.prems, of "max x a"] by (simp add: max_min_scale[OF Cons.prems])
qed

lemma fold_min_scale:
  "0 < c \<Longrightarrow> fold min (map (\<lambda>x. c * x) xs) (c * a) = c * fold min xs (a::real)"
proof (induction xs arbitrary: a)
  case Nil
  then show ?case by simp
next
  case (Cons x xs)
  show ?case
    using Cons.IH[OF Cons.prems, of "min x a"] by (simp add: max_min_scale[OF Cons.prems])
qed

lemma Math_max_scale: "0 < c \<Longrightarrow> Math_max (map (\<lambda>x. c * x) xs) = c * Math_max xs"
  by (cases xs) (simp_all add: fold_max_scale)

lemma Math_min_scale: "0 < c \<Longrightarrow> Math_min (map (\<lambda>x. c * x) xs) = c * Math_min xs"
  by (cases xs) (simp_all add: fold_min_scale)

lemma supplier_valid:
  "isValid (TOPSIS_validateInputs [supplierA, supplierB, supplierC] supplierConstraints)"
  by (simp add: TOPSIS_validateInputs_def scoreErrors_def weightErrors_def supplierA_def
        supplierB_def supplierC_def supplierConstraints_def Let_def)

lemma supplier_matrix:
  "buildDecisionMatrix [supplierA, supplierB, supplierC] supplierConstraints =
     [[250, 16, 17 / 2, 5], [200, 16, 9, 4], [300, 32, 7, 4]]"
  by (simp add: buildDecisionMatrix_def supplierA_def supplierB_def supplierC_def
        supplierConstraints_def)

lemma supplier_sums:
  "columnSumSquares [[250, 16, 17 / 2, 5], [200, 16, 9, 4], [300, 32, 7, 4]] 0 = 192500"
  "columnSumSquares [[250, 16, 17 / 2, 5], [200, 16, 9, 4], [300, 32, 7, 4]] (Suc 0) = 1536"
  "columnSumSquares [[250, 16, 17 / 2, 5], [200, 16, 9, 4], [300, 32, 7, 4]] 2 = 809 / 4"
  "columnSumSquares [[250, 16, 17 / 2, 5], [200, 16, 9, 4], [300, 32, 7, 4]] 3 = 57"
  by (simp_all add: columnSumSquares_def upt_rec)

lemma upt4: "[0..<4] = [0, 1, 2, 3]" "[0..<3] = [0, 1, 2]"
  by (simp_all add: upt_rec)

lemma supplier_weighted:
  "weightedMatrixOf [supplierA, supplierB, supplierC] supplierConstraints = supplierWeighted"
proof -
  have l: "length supplierConstraints = 4" by (simp add: supplierConstraints_def)
  have w: "toReal (weight (supplierConstraints ! 0)) = 30"
    "toReal (weight (supplierConstraints ! Suc 0)) = 40"
    "toReal (weight (supplierConstraints ! 2)) = 20"
    "toReal (weight (supplierConstraints ! 3)) = 10"
    by (simp_all add: supplierConstraints_def)
  show ?thesis
    unfolding weightedMatrixOf_def supplier_matrix normalizeMatrix_def applyWeights_def
      supplierWeighted_def costFactor_def qualityFactor_def deliveryFactor_def
      serviceFactor_def Let_def l
    by (simp add: upt4 supplier_sums w)
qed

lemma factors_pos:
  "0 < costFactor" "0 < qualityFactor" "0 < deliveryFactor" "0 < serviceFactor"
  by (simp_all add: costFactor_def qualityFactor_def deliveryFactor_def serviceFactor_def)

lemma factors_square:
  "costFactor * costFactor = 9 / 19250000"
  "qualityFactor * qualityFactor = 1 / 9600"
  "deliveryFactor * deliveryFactor = 4 / 20225"
  "serviceFactor * serviceFactor = 1 / 5700"
  by (simp_all add: costFactor_def qualityFactor_def deliveryFactor_def serviceFactor_def)

lemma Math_max3: "0 < c \<Longrightarrow> Math_max [c * x, c * y, c * z] = c * Math_max [x, y, z]"
  using Math_max_scale[of c "[x, y, z]"] by simp

lemma Math_min3: "0 < c \<Longrightarrow> Math_min [c * x, c * y, c * z] = c * Math_min [x, y, z]"
  using Math_min_scale[of c "[x, y, z]"] by simp

lemma supplier_ideal:
  "calculateIdealSolutions supplierWeighted supplierConstraints =
     (supplierIdeal, supplierNegativeIdeal)"
proof -
  have l: "length supplierConstraints = 4" by (simp add: supplierConstraints_def)
  have d: "direction (supplierConstraints ! 0) = minimize"
    "direction (supplierConstraints ! Suc 0) = maximize"
    "direction (supplierConstraints ! 2) = maximize"
    "direction (supplierConstraints ! 3) = maximize"
    by (simp_all add: supplierConstraints_def)
  have m: "Math_min [250, 200, 300 :: real] = 200" "Math_max [250, 200, 300 :: real] = 300"
    "Math_min [16, 16, 32 :: real] = 16" "Math_max [16, 16, 32 :: real] = 32"
    "Math_min [17 / 2, 9, 7 :: real] = 7" "Math_max [17 / 2, 9, 7 :: real] = 9"
    "Math_min [5, 4, 4 :: real] = 4" "Math_max [5, 4, 4 :: real] = 5"
    by simp_all
  have dl: "Math_max [deliveryFactor * 17 / 2, deliveryFactor * 9, deliveryFactor * 7] =
            deliveryFactor * 9"
    "Math_min [deliveryFactor * 17 / 2, deliveryFactor * 9, deliveryFactor * 7] =
            deliveryFactor * 7"
    using Math_max3[OF factors_pos(3), of "17 / 2" 9 7] Math_min3[OF factors_pos(3), of "17 / 2" 9 7]
    by (simp_all add: m del: Math_max.simps Math_min.simps)
  show ?thesis
    unfolding calculateIdealSolutions_def Let_def l upt4
    by (simp add: dl supplierWeighted_def supplierIdeal_def supplierNegativeIdeal_def d
          Math_max3[OF factors_pos(1)] Math_min3[OF factors_pos(1)]
          Math_max3[OF factors_pos(2)] Math_min3[OF factors_pos(2)]
          Math_max3[OF factors_pos(3)] Math_min3[OF factors_pos(3)]
          Math_max3[OF factors_pos(4)] Math_min3[OF factors_pos(4)] m
          del: Math_max.simps Math_min.simps)
qed

lemma distanceTo4:
  "distanceTo [t1 * x1, t2 * x2, t3 * x3, t4 * x4] [t1 * y1, t2 * y2, t3 * y3, t4 * y4] =
   sqrt (t1 * t1 * ((x1 - y1) * (x1 - y1)) + t2 * t2 * ((x2 - y2) * (x2 - y2)) +
         t3 * t3 * ((x3 - y3) * (x3 - y3)) + t4 * t4 * ((x4 - y4) * (x4 - y4)))"
  by (simp add: distanceTo_def upt_rec algebra_simps)

lemma supplier_distances:
  "calculateDistances supplierWeighted supplierIdeal supplierNegativeIdeal =
     ([sqrt (521111 / 18687900), sqrt (51 / 1900), sqrt (2003257 / 355070100)],
      [sqrt (317657 / 177535050), sqrt (8513 / 1557325), sqrt (2 / 75)])"
  unfolding calculateDistances_def supplierWeighted_def supplierIdeal_def supplierNegativeIdeal_def
    list.map distanceTo4 factors_square
  by simp

lemma sqrt_sum_nonzero: "0 < a \<Longrightarrow> 0 < b \<Longrightarrow> sqrt a + sqrt b \<noteq> 0"
  by (metis add_pos_pos less_irrefl real_sqrt_gt_zero)

lemma supplier_closeness:
  "closenessOf [supplierA, supplierB, supplierC] supplierConstraints = supplierCloseness"
proof -
  have z: "sqrt (521111 / 18687900) + sqrt (317657 / 177535050) \<noteq> 0"
    "sqrt (51 / 1900) + sqrt (8513 / 1557325) \<noteq> 0"
    "sqrt (2003257 / 355070100) + sqrt (2 / 75) \<noteq> 0"
    by (rule sqrt_sum_nonzero; simp)+
  show ?thesis
    unfolding closenessOf_def distancesOf_def supplier_weighted Let_def supplier_ideal
      prod.case supplier_distances calculateClosenessScores_def supplierCloseness_def
    using z by (simp add: upt4)
qed

lemma closeness_less:
  assumes "0 < p1" "0 < n1" "0 < p2" "0 < n2" "n1 * p2 < n2 * p1"
  shows "sqrt n1 / (sqrt p1 + sqrt n1) < sqrt n2 / (sqrt p2 + sqrt n2)"
proof -
  have "sqrt (n1 * p2) < sqrt (n2 * p1)" using assms(5) by simp
  then have m: "sqrt n1 * sqrt p2 < sqrt n2 * sqrt p1" by (simp add: real_sqrt_mult)
  have pos: "0 < sqrt p1" "0 < sqrt n1" "0 < sqrt p2" "0 < sqrt n2"
    using assms(1-4) by simp_all
  have "sqrt n1 * (sqrt p2 + sqrt n2) < sqrt n2 * (sqrt p1 + sqrt n1)"
    using m by (simp add: algebra_simps)
  then show ?thesis
    using pos by (simp add: divide_less_eq pos_less_divide_eq add_pos_pos mult.commute)
qed

lemma sqrt9: "sqrt 9 = 3"
  using real_sqrt_abs[of 3] by simp

lemma closeness_gt_three_fifths:
  assumes "0 < p" "0 < n" "9 * p < 4 * n"
  shows "3 / 5 < sqrt n / (sqrt p + sqrt n)"
proof -
  have "sqrt (9 * p) < sqrt (4 * n)" using assms(3) by simp
  then have m: "3 * sqrt p < 2 * sqrt n" by (simp add: real_sqrt_mult sqrt9)
  have pos: "0 < sqrt p + sqrt n" using assms(1,2) by (simp add: add_pos_pos)
  have "3 * (sqrt p + sqrt n) < 5 * sqrt n" using m by simp
  then show ?thesis using pos by (simp add: pos_less_divide_eq)
qed

lemma supplier_order:
  "supplierCloseness ! 0 < supplierCloseness ! 1"
  "supplierCloseness ! 1 < supplierCloseness ! 2"
  "3 / 5 < supplierCloseness ! 2"
proof -
  have n: "supplierCloseness ! 0 =
             sqrt (317657 / 177535050) / (sqrt (521111 / 18687900) + sqrt (317657 / 177535050))"
    "supplierCloseness ! 1 = sqrt (8513 / 1557325) / (sqrt (51 / 1900) + sqrt (8513 / 1557325))"
    "supplierCloseness ! 2 = sqrt (2 / 75) / (sqrt (2003257 / 355070100) + sqrt (2 / 75))"
    by (simp_all add: supplierCloseness_def)
  show "supplierCloseness ! 0 < supplierCloseness ! 1"
    unfolding n by (rule closeness_less) simp_all
  show "supplierCloseness ! 1 < supplierCloseness ! 2"
    unfolding n by (rule closeness_less) simp_all
  show "3 / 5 < supplierCloseness ! 2"
    unfolding n by (rule closeness_gt_three_fifths) simp_all
qed

lemma sortedItems3:
  assumes "a < b" "b < c"
  shows "sortedItems [x, y, z] [a, b, c] = [(z, 2, c), (y, 1, b), (x, 0, a)]"
  using assms by (simp add: sortedItems_def indexedRankings_def js_sort_def)

text \<open>
  C9. For suppliers A = (250, 16, 8.5, 5), B = (200, 16, 9.0, 4), C = (300, 32, 7.0, 4) on
  cost (minimize, weight 30), quality (maximize, 40), delivery (maximize, 20) and service
  (maximize, 10), \<open>calculateScores\<close> succeeds and ranks C first, B second, A third, with
  strictly descending closeness scores and C's score above 0.6.
\<close>

theorem supplier_scenario:
  "\<exists>res. calculateScores defaultMethodology [supplierA, supplierB, supplierC]
            supplierConstraints = Inr res
     \<and> map (\<lambda>r. option_id (option r)) (rankings res) =
         [''supplier_c'', ''supplier_b'', ''supplier_a'']
     \<and> map rank (rankings res) = [1, 2, 3]
     \<and> closenessScore (rankings res ! 0) > 0.6
     \<and> closenessScore (rankings res ! 0) > closenessScore (rankings res ! 1)
     \<and> closenessScore (rankings res ! 1) > closenessScore (rankings res ! 2)"
proof -
  obtain res where r: "calculateScores defaultMethodology [supplierA, supplierB, supplierC]
            supplierConstraints = Inr res"
    using calculateScores_valid[OF supplier_valid] by blast
  obtain a b c where cl: "supplierCloseness = [a, b, c]"
    by (simp add: supplierCloseness_def)
  have o: "a < b" "b < c" "3 / 5 < c"
    using supplier_order unfolding cl by simp_all
  let ?R = "rankings res"
  have R: "?R = generateRankings [supplierA, supplierB, supplierC] [a, b, c]
                  (weightedMatrixOf [supplierA, supplierB, supplierC] supplierConstraints)
                  supplierConstraints"
    unfolding calculateScores_Inr(2)[OF r] supplier_closeness cl by (rule refl)
  have p: "map (\<lambda>r. (option r, closenessScore r)) ?R =
           [(supplierC, c), (supplierB, b), (supplierA, a)]"
    unfolding R generateRankings_pairs sortedItems3[OF o(1,2)] by simp
  have len: "length ?R = 3"
    using arg_cong[OF p, of length] by simp
  have ids: "map (\<lambda>r. option_id (option r)) ?R = map (option_id \<circ> fst) (map (\<lambda>r. (option r, closenessScore r)) ?R)"
    by simp
  have 1: "map (\<lambda>r. option_id (option r)) ?R = [''supplier_c'', ''supplier_b'', ''supplier_a'']"
    unfolding ids p by (simp add: supplierA_def supplierB_def supplierC_def)
  have 2: "map rank ?R = [1, 2, 3]"
    unfolding R generateRankings_rank by (simp add: upt_rec)
  have cs: "map closenessScore ?R = map snd (map (\<lambda>r. (option r, closenessScore r)) ?R)"
    by simp
  have "map closenessScore ?R = [c, b, a]" unfolding cs p by simp
  then have 3: "closenessScore (?R ! 0) = c" "closenessScore (?R ! 1) = b"
    "closenessScore (?R ! 2) = a"
    using len by (metis nth_map nth_Cons_0 zero_less_numeral,
                   metis nth_map nth_Cons_0 nth_Cons_Suc One_nat_def one_less_numeral_iff semiring_norm(77),
                   metis nth_map nth_Cons_0 nth_Cons_Suc numeral_2_eq_2 lessI numeral_3_eq_3)
  show ?thesis
    using r 1 2 o unfolding 3[symmetric] by (intro exI[of _ res]) simp
qed

end
